(* ===== verification/Prelude.thy ===== *)
theory Prelude
  imports Complex_Main "HOL-Library.Word" "HOL-Library.State_Monad" "HOL-Library.Sublist"
begin

text \<open>
  Shared vocabulary of the development: the types every component uses, the state monad
  the components are written in, frame reasoning for it, and reachability for the step
  relations.

  A C++ member function of the repository becomes a value of type
  \<open>('s, 'a) state\<close> (\<open>HOL-Library.State_Monad\<close>): it takes the state of the
  machine, returns its result and the state it leaves. A C \<open>int\<close> is a \<open>32 word\<close>
  read with \<open>sint\<close>, a \<open>String16\<close> is the list of its UTF-16 code units, and a
  \<open>char\<close> array is a \<open>char list\<close> whose length is the size of the array.
\<close>

unbundle bit_operations_syntax

type_synonym cint = "32 word"
type_synonym str16 = "16 word list"
type_synonym cbuf = "char list"

named_theorems frame_intros \<open>introduction rules for \<open>keeps\<close>\<close>
named_theorems buf_simps \<open>facts on C buffers and strings\<close>

section \<open>Results and final states of a computation\<close>

abbreviation res_of :: "('s, 'a) state \<Rightarrow> 's \<Rightarrow> 'a" where
  "res_of m s \<equiv> fst (run_state m s)"

abbreviation end_of :: "('s, 'a) state \<Rightarrow> 's \<Rightarrow> 's" where
  "end_of m s \<equiv> snd (run_state m s)"

lemma run_bind_split:
  "run_state (State_Monad.bind m f) s = run_state (f (res_of m s)) (end_of m s)"
  by (simp add: case_prod_beta)

section \<open>Frames: a relation every run of an operation respects\<close>

definition keeps :: "('s \<Rightarrow> 's \<Rightarrow> bool) \<Rightarrow> ('s, 'a) state \<Rightarrow> bool" where
  "keeps R m \<longleftrightarrow> (\<forall>s. R s (end_of m s))"

lemma keepsI: "(\<And>s. R s (end_of m s)) \<Longrightarrow> keeps R m"
  by (simp add: keeps_def)

lemma keepsD: "keeps R m \<Longrightarrow> R s (end_of m s)"
  by (simp add: keeps_def)

text \<open>
  The contract of a frame: a preorder on states. What it gives its clients is that the
  operations that respect it are closed under everything the code is composed with.
\<close>

locale frame =
  fixes R :: "'s \<Rightarrow> 's \<Rightarrow> bool"
  assumes refl: "R s s"
    and trans: "R s t \<Longrightarrow> R t u \<Longrightarrow> R s u"
begin

lemma keeps_return: "keeps R (State_Monad.return x)"
  by (simp add: keeps_def refl)

lemma keeps_bind:
  "keeps R m \<Longrightarrow> (\<And>x. keeps R (f x)) \<Longrightarrow> keeps R (State_Monad.bind m f)"
  by (auto simp: keeps_def case_prod_beta intro: trans)

lemma keeps_if: "(b \<Longrightarrow> keeps R m) \<Longrightarrow> (\<not> b \<Longrightarrow> keeps R n) \<Longrightarrow> keeps R (if b then m else n)"
  by simp

lemma keeps_option:
  "keeps R m \<Longrightarrow> (\<And>x. keeps R (f x)) \<Longrightarrow> keeps R (case o' of None \<Rightarrow> m | Some x \<Rightarrow> f x)"
  by (cases o') simp_all

lemma keeps_prod:
  "(\<And>x y. keeps R (f x y)) \<Longrightarrow> keeps R (case p of (x, y) \<Rightarrow> f x y)"
  by (cases p) simp

lemmas keeps_rules = keeps_return keeps_bind keeps_if keeps_option keeps_prod

end

text \<open>An operation called \<open>n\<close> times.\<close>

fun repeat_op :: "nat \<Rightarrow> ('s, 'a) state \<Rightarrow> ('s, unit) state" where
  "repeat_op 0 m = State_Monad.return ()"
| "repeat_op (Suc n) m = do { _ \<leftarrow> m; repeat_op n m }"

section \<open>Reachability\<close>

text \<open>
  The states a system can be in: the ones its start predicate allows, closed under steps.
  \<open>step_system\<close> is the contract of an inductive invariant.
\<close>

inductive reach :: "('s \<Rightarrow> bool) \<Rightarrow> ('s \<Rightarrow> 's \<Rightarrow> bool) \<Rightarrow> 's \<Rightarrow> bool"
  for I :: "'s \<Rightarrow> bool" and step :: "'s \<Rightarrow> 's \<Rightarrow> bool" where
  reach_start: "I s \<Longrightarrow> reach I step s"
| reach_step: "reach I step s \<Longrightarrow> step s t \<Longrightarrow> reach I step t"

locale step_system =
  fixes I :: "'s \<Rightarrow> bool" and step :: "'s \<Rightarrow> 's \<Rightarrow> bool" and inv :: "'s \<Rightarrow> bool"
  assumes inv_start: "I s \<Longrightarrow> inv s"
    and inv_step: "inv s \<Longrightarrow> step s t \<Longrightarrow> inv t"
begin

lemma inv_reach: "reach I step s \<Longrightarrow> inv s"
  by (induction rule: reach.induct) (auto intro: inv_start inv_step)

text \<open>The invariant helps to prove another one.\<close>

lemma reach_with_inv:
  assumes "reach I step s" "\<And>s. I s \<Longrightarrow> J s" "\<And>s t. inv s \<Longrightarrow> J s \<Longrightarrow> step s t \<Longrightarrow> J t"
  shows "J s"
  using assms(1)
proof (induction rule: reach.induct)
  case (reach_step s t)
  then show ?case using assms(3) inv_reach by blast
qed (rule assms(2))

end

text \<open>
  The contract of a refinement: every step of the concrete system is a step of the abstract one
  or leaves it alone, as far as the relation \<open>R\<close> can tell.
\<close>

locale simulation =
  fixes CI :: "'c \<Rightarrow> bool" and cstep :: "'c \<Rightarrow> 'c \<Rightarrow> bool"
    and AI :: "'a \<Rightarrow> bool" and astep :: "'a \<Rightarrow> 'a \<Rightarrow> bool"
    and R :: "'c \<Rightarrow> 'a \<Rightarrow> bool"
  assumes sim_start: "CI c \<Longrightarrow> \<exists>a. AI a \<and> R c a"
    and sim_step: "R c a \<Longrightarrow> cstep c c' \<Longrightarrow> \<exists>a'. (astep a a' \<or> a' = a) \<and> R c' a'"
begin

lemma sim_reach: "reach CI cstep c \<Longrightarrow> \<exists>a. reach AI astep a \<and> R c a"
proof (induction rule: reach.induct)
  case (reach_start s)
  then show ?case using sim_start reach.reach_start by metis
next
  case (reach_step s t)
  then obtain a where a: "reach AI astep a" "R s a" by blast
  from sim_step [OF a(2) reach_step.hyps(2)] obtain a' where "astep a a' \<or> a' = a" "R t a'" by blast
  then show ?case using a(1) reach.reach_step by metis
qed

end

text \<open>
  The contract of workers that finish: from every reachable state with a busy worker, one of the
  busy ones can be brought to its end, its result recorded and the others left as they are.  Then
  all of them can.
\<close>

locale draining =
  fixes reachable :: "'s \<Rightarrow> bool" and work :: "'s \<Rightarrow> nat \<Rightarrow> 'x" and idle :: 'x
    and log :: "'s \<Rightarrow> 'e list" and answers :: "nat \<Rightarrow> 'x \<Rightarrow> 'e \<Rightarrow> bool"
  assumes finish_one: "reachable s \<Longrightarrow> work s t \<noteq> idle \<Longrightarrow>
    \<exists>u s' e. work s u \<noteq> idle \<and> reachable s' \<and> work s' = (work s)(u := idle) \<and> log s' = log s @ [e] \<and> answers u (work s u) e"
begin

lemma drains:
  assumes "reachable s" "finite {t. work s t \<noteq> idle}"
  shows "\<exists>s' es. reachable s' \<and> (\<forall>t. work s' t = idle) \<and> log s' = log s @ es \<and>
    (\<forall>t. work s t \<noteq> idle \<longrightarrow> (\<exists>e \<in> set es. answers t (work s t) e))"
  using assms
proof (induction "card {t. work s t \<noteq> idle}" arbitrary: s rule: less_induct)
  case less
  show ?case
  proof (cases "\<exists>t. work s t \<noteq> idle")
    case False
    then show ?thesis using less.prems(1) by (intro exI [of _ s] exI [of _ "[]"]) simp
  next
    case True
    then obtain u s1 e where one: "work s u \<noteq> idle" "reachable s1" "work s1 = (work s)(u := idle)"
        "log s1 = log s @ [e]" "answers u (work s u) e"
      using finish_one [OF less.prems(1)] by blast
    have left: "{t. work s1 t \<noteq> idle} = {t. work s t \<noteq> idle} - {u}" using one(3) by auto
    then have "card {t. work s1 t \<noteq> idle} < card {t. work s t \<noteq> idle}" "finite {t. work s1 t \<noteq> idle}"
      using one(1) less.prems(2) by (simp_all add: card_Diff1_less del: card_Diff_insert)
    from less.hyps [OF this(1) one(2) this(2)] obtain s' es where s': "reachable s'" "\<forall>t. work s' t = idle"
        "log s' = log s1 @ es" "\<forall>t. work s1 t \<noteq> idle \<longrightarrow> (\<exists>e \<in> set es. answers t (work s1 t) e)"
      by blast
    have "\<exists>e' \<in> set (e # es). answers t (work s t) e'" if "work s t \<noteq> idle" for t
      using that s'(4) [rule_format, of t] one(3,5) by (cases "t = u") auto
    with s'(1-3) one(4) show ?thesis by (intro exI [of _ s'] exI [of _ "e # es"]) simp
  qed
qed

end

section \<open>Lists\<close>

lemma takeWhile_eq_self: "(\<forall>x \<in> set xs. P x) \<Longrightarrow> takeWhile P xs = xs"
  by (simp add: takeWhile_eq_all_conv)

lemma takeWhile_append_stop:
  "\<forall>x \<in> set xs. P x \<Longrightarrow> \<not> P y \<Longrightarrow> takeWhile P (xs @ y # ys) = xs"
  by (simp add: takeWhile_append2)

lemma nth_drop_0: "n < length xs \<Longrightarrow> drop n xs = xs ! n # drop (Suc n) xs"
  by (simp add: Cons_nth_drop_Suc)

end
