(* ===== verification/CLib.thy ===== *)
theory CLib
  imports Prelude
begin

text \<open>
  What the code uses of the C library, on \<open>char\<close> arrays: strings and their comparison,
  bounded formatting, numbers in decimal and hexadecimal, \<open>fgets\<close> and \<open>fread\<close>.
  The conversion of a plain \<open>char\<close> to \<open>int\<close> and the width of \<open>long\<close> depend on
  the target, so the functions that use them take them as arguments.
\<close>

section \<open>Characters\<close>

abbreviation NUL :: char where "NUL \<equiv> CHR 0x00"
abbreviation NL :: char where "NL \<equiv> CHR 0x0A"

text \<open>A \<open>char\<close> promoted to \<open>int\<close>: \<open>sg\<close> says whether plain \<open>char\<close> is signed.\<close>

definition char_val :: "bool \<Rightarrow> char \<Rightarrow> int" where
  "char_val sg c = (if sg \<and> 128 \<le> (of_char c :: int) then of_char c - 256 else of_char c)"

definition toupper :: "char \<Rightarrow> char" where
  "toupper c = (if 97 \<le> (of_char c :: nat) \<and> (of_char c :: nat) \<le> 122
                then char_of ((of_char c :: nat) - 32) else c)"

definition isspace :: "char \<Rightarrow> bool" where
  "isspace c \<longleftrightarrow> c = CHR '' '' \<or> (9 \<le> (of_char c :: nat) \<and> (of_char c :: nat) \<le> 13)"

definition isdigit :: "char \<Rightarrow> bool" where
  "isdigit c \<longleftrightarrow> 48 \<le> (of_char c :: nat) \<and> (of_char c :: nat) \<le> 57"

lemma char_val_unsigned: "char_val False c = of_char c"
  by (simp add: char_val_def)

lemma of_char_bounds: "0 \<le> (of_char c :: int) \<and> (of_char c :: int) < 256"
proof -
  have "(of_char c :: int) = int (of_char c)" by (metis of_nat_of_char)
  then show ?thesis using nat_of_char_less_256 [of c] by linarith
qed

lemma char_val_bounds:
  "- 128 \<le> char_val sg c" "char_val sg c < 256" "char_val False c \<ge> 0"
  "char_val True c < 128"
  using of_char_bounds [of c] by (auto simp: char_val_def)

section \<open>Strings in arrays\<close>

text \<open>
  \<open>cstr\<close> is the C string an array holds, \<open>poke off s buf\<close> writes the bytes
  \<open>s\<close> at offset \<open>off\<close>. A write past the end of the array makes the list longer,
  which is how an overrun shows.
\<close>

definition cstr :: "cbuf \<Rightarrow> string" where
  "cstr buf = takeWhile (\<lambda>c. c \<noteq> NUL) buf"

definition poke :: "nat \<Rightarrow> cbuf \<Rightarrow> cbuf \<Rightarrow> cbuf" where
  "poke off s buf = take off buf @ s @ drop (off + length s) buf"

definition zeroed :: "nat \<Rightarrow> cbuf" where
  "zeroed n = replicate n NUL"

definition no_nul :: "cbuf \<Rightarrow> bool" where
  "no_nul s \<longleftrightarrow> NUL \<notin> set s"

lemma length_zeroed [simp, buf_simps]: "length (zeroed n) = n"
  by (simp add: zeroed_def)

lemma no_nul_cstr [simp, buf_simps]: "no_nul (cstr buf)"
  by (auto simp: no_nul_def cstr_def dest: set_takeWhileD)

lemma no_nul_append [simp, buf_simps]: "no_nul (s @ t) \<longleftrightarrow> no_nul s \<and> no_nul t"
  by (auto simp: no_nul_def)

lemma no_nul_Nil [simp, buf_simps]: "no_nul []"
  by (simp add: no_nul_def)

lemma no_nul_Cons [simp, buf_simps]: "no_nul (c # s) \<longleftrightarrow> c \<noteq> NUL \<and> no_nul s"
  by (auto simp: no_nul_def)

lemma no_nul_take [simp, buf_simps]: "no_nul s \<Longrightarrow> no_nul (take n s)"
  by (auto simp: no_nul_def dest: in_set_takeD)

lemma no_nul_drop [simp, buf_simps]: "no_nul s \<Longrightarrow> no_nul (drop n s)"
  by (auto simp: no_nul_def dest: in_set_dropD)

lemma cstr_id [simp, buf_simps]: "no_nul s \<Longrightarrow> cstr s = s"
  by (auto simp: no_nul_def cstr_def intro!: takeWhile_eq_self)

lemma cstr_stop [simp, buf_simps]: "no_nul s \<Longrightarrow> cstr (s @ NUL # t) = s"
  by (auto simp: no_nul_def cstr_def intro!: takeWhile_append_stop)

lemma cstr_Nil [simp, buf_simps]: "cstr [] = []"
  by (simp add: cstr_def)

lemma cstr_NUL [simp, buf_simps]: "cstr (NUL # s) = []"
  by (simp add: cstr_def)

lemma cstr_Cons [simp, buf_simps]: "c \<noteq> NUL \<Longrightarrow> cstr (c # s) = c # cstr s"
  by (simp add: cstr_def)

lemma cstr_append [simp, buf_simps]: "no_nul s \<Longrightarrow> cstr (s @ t) = s @ cstr t"
  by (induction s) auto

lemma cstr_zeroed [simp, buf_simps]: "cstr (zeroed n) = []"
  by (cases n) (simp_all add: zeroed_def)

lemma cstr_append_NUL [simp, buf_simps]: "cstr (a @ NUL # t) = cstr a"
  by (induction a) (auto simp: cstr_def)

lemma length_cstr_le: "length (cstr s) \<le> length s"
  by (simp add: cstr_def length_takeWhile_le)

lemma length_cstr_less: "NUL \<in> set s \<Longrightarrow> length (cstr s) < length s"
  by (induction s) (auto simp: cstr_def)

lemma cstr_eq_Nil: "cstr s = [] \<longleftrightarrow> s = [] \<or> s ! 0 = NUL"
  by (cases s) (auto simp: cstr_def)

lemma length_poke [simp, buf_simps]:
  "off + length s \<le> length buf \<Longrightarrow> length (poke off s buf) = length buf"
  by (simp add: poke_def)

lemma drop_poke_after: "off + length s \<le> m \<Longrightarrow> off \<le> length buf \<Longrightarrow> drop m (poke off s buf) = drop m buf"
  by (simp add: poke_def)

lemma take_poke_before: "m \<le> off \<Longrightarrow> off \<le> length buf \<Longrightarrow> take m (poke off s buf) = take m buf"
  by (simp add: poke_def)

lemma drop_zeroed [simp, buf_simps]: "drop n (zeroed m) = zeroed (m - n)"
  by (simp add: zeroed_def)

lemma take_zeroed [simp, buf_simps]: "take n (zeroed m) = zeroed (min n m)"
  by (simp add: zeroed_def)

text \<open>\<open>strncmp(a, b, n) == 0\<close>: the strings agree up to \<open>n\<close> bytes or their end.\<close>

definition strncmp_eq :: "cbuf \<Rightarrow> cbuf \<Rightarrow> nat \<Rightarrow> bool" where
  "strncmp_eq a b n \<longleftrightarrow> take n (cstr a @ [NUL]) = take n (cstr b @ [NUL])"

text \<open>\<open>strstr(hay, needle) != NULL\<close>.\<close>

fun contains :: "string \<Rightarrow> string \<Rightarrow> bool" where
  "contains [] needle = (needle = [])"
| "contains (c # hay) needle = (prefix needle (c # hay) \<or> contains hay needle)"

lemma contains_sublist: "contains hay needle \<longleftrightarrow> sublist needle hay"
proof (induction hay)
  case Nil
  then show ?case by simp
next
  case (Cons c hay)
  then show ?case by (auto simp: sublist_Cons_right)
qed

lemma strncmp_prefix:
  assumes "no_nul b"
  shows "strncmp_eq a b (length b) \<longleftrightarrow> prefix b (cstr a)"
proof -
  have "take (length b) (cstr a @ [NUL]) = b \<longleftrightarrow> prefix b (cstr a)"
  proof (cases "length b \<le> length (cstr a)")
    case True
    then show ?thesis by (metis append_take_drop_id prefixI prefix_order.refl
          take_is_prefix append_eq_conv_conj prefix_def take_append diff_is_0_eq take0
          append_Nil2)
  next
    case False
    then have "NUL \<in> set (take (length b) (cstr a @ [NUL]))" by simp
    then have "take (length b) (cstr a @ [NUL]) \<noteq> b" using assms by (metis no_nul_def)
    moreover have "\<not> prefix b (cstr a)" using False prefix_length_le by blast
    ultimately show ?thesis by simp
  qed
  then show ?thesis using assms by (simp add: strncmp_eq_def)
qed

text \<open>With the terminator inside the compared length, \<open>strncmp\<close> decides equality.\<close>

lemma strncmp_whole:
  assumes "no_nul b"
  shows "strncmp_eq a b (Suc (length b)) \<longleftrightarrow> cstr a = b"
proof
  assume "strncmp_eq a b (Suc (length b))"
  then have eq: "take (Suc (length b)) (cstr a @ [NUL]) = b @ [NUL]"
    using assms by (simp add: strncmp_eq_def)
  then obtain t where t: "cstr a @ [NUL] = (b @ [NUL]) @ t"
    by (metis append_take_drop_id)
  have "t = []"
  proof (rule ccontr)
    assume "t \<noteq> []"
    then have "cstr a = b @ [NUL] @ butlast t"
      using t by (metis append_assoc butlast_append butlast_snoc append_is_Nil_conv)
    then have "NUL \<in> set (cstr a)" by simp
    then show False using no_nul_cstr [of a] by (simp add: no_nul_def)
  qed
  with t show "cstr a = b" by simp
next
  assume "cstr a = b"
  then show "strncmp_eq a b (Suc (length b))"
    using assms by (simp add: strncmp_eq_def)
qed

section \<open>Formatting\<close>

text \<open>
  \<open>snprintf n s buf\<close> is the array after \<open>snprintf(buf, n, ...)\<close> produced the text
  \<open>s\<close>: at most \<open>n - 1\<close> bytes of it and a terminator.  \<open>strcat buf s\<close> appends
  without a bound.
\<close>

definition snprintf :: "nat \<Rightarrow> string \<Rightarrow> cbuf \<Rightarrow> cbuf" where
  "snprintf n s buf = (if n = 0 then buf else poke 0 (take (n - 1) s @ [NUL]) buf)"

definition strcat :: "cbuf \<Rightarrow> string \<Rightarrow> cbuf" where
  "strcat buf s = poke (length (cstr buf)) (s @ [NUL]) buf"

lemma cstr_snprintf [simp, buf_simps]:
  "no_nul s \<Longrightarrow> 0 < n \<Longrightarrow> cstr (snprintf n s buf) = take (n - 1) s"
  by (simp add: snprintf_def poke_def)

lemma length_snprintf [simp, buf_simps]: "n \<le> length buf \<Longrightarrow> length (snprintf n s buf) = length buf"
  by (auto simp: snprintf_def poke_def)

lemma cstr_strcat [simp, buf_simps]: "no_nul s \<Longrightarrow> cstr (strcat buf s) = cstr buf @ s"
proof -
  have "take (length (cstr buf)) buf = cstr buf"
    by (simp add: cstr_def) (metis takeWhile_eq_take)
  moreover assume "no_nul s"
  ultimately show ?thesis by (simp add: strcat_def poke_def)
qed

lemma length_strcat:
  "length (strcat buf s) = max (length buf) (length (cstr buf) + Suc (length s))"
  using length_cstr_le [of buf] by (simp add: strcat_def poke_def)

text \<open>Numbers in base \<open>b\<close>, with lower-case digits as \<open>%d\<close>, \<open>%lx\<close> print them.\<close>

definition digit_char :: "nat \<Rightarrow> char" where
  "digit_char d = (if d < 10 then char_of (48 + d) else char_of (87 + d))"

definition digit_val :: "char \<Rightarrow> nat" where
  "digit_val c = (if (of_char c :: nat) < 58 then of_char c - 48 else of_char c - 87)"

fun show_base :: "nat \<Rightarrow> nat \<Rightarrow> string" where
  "show_base b n =
     (if b < 2 \<or> n < b then [digit_char n] else show_base b (n div b) @ [digit_char (n mod b)])"

declare show_base.simps [simp del]

definition read_base :: "nat \<Rightarrow> string \<Rightarrow> nat" where
  "read_base b s = foldl (\<lambda>v c. b * v + digit_val c) 0 s"

definition show_dec :: "int \<Rightarrow> string" where
  "show_dec i = (if i < 0 then CHR ''-'' # show_base 10 (nat (- i)) else show_base 10 (nat i))"

definition pad_zero :: "nat \<Rightarrow> string \<Rightarrow> string" where
  "pad_zero w s = replicate (w - length s) (CHR ''0'') @ s"

lemma digit_val_char: "d < 36 \<Longrightarrow> digit_val (digit_char d) = d"
  by (auto simp: digit_val_def digit_char_def)

lemma read_base_snoc: "read_base b (s @ [c]) = b * read_base b s + digit_val c"
  by (simp add: read_base_def)

lemma read_show_base: "2 \<le> b \<Longrightarrow> b \<le> 36 \<Longrightarrow> read_base b (show_base b n) = n"
proof (induction b n rule: show_base.induct)
  case (1 b n)
  show ?case
  proof (cases "n < b")
    case True
    with "1.prems" show ?thesis
      by (subst show_base.simps) (simp add: read_base_def digit_val_char)
  next
    case False
    with "1" have "read_base b (show_base b (n div b)) = n div b" by simp
    moreover have "n mod b < 36"
      using "1.prems" by (metis less_le_trans mod_less_divisor zero_less_numeral)
    ultimately show ?thesis
      using False "1.prems"
      by (subst show_base.simps) (simp add: read_base_snoc digit_val_char)
  qed
qed

lemma digit_char_not_NUL: "d < 36 \<Longrightarrow> digit_char d \<noteq> NUL"
proof
  assume "d < 36" "digit_char d = NUL"
  then have "(of_char (digit_char d) :: nat) = of_char NUL" by simp
  then show False using \<open>d < 36\<close> by (simp add: digit_char_def split: if_splits)
qed

text \<open>Every digit printed is a digit, so a printed number is a clean C string.\<close>

lemma set_show_base:
  "2 \<le> b \<Longrightarrow> set (show_base b n) \<subseteq> digit_char ` {..< b}"
proof (induction b n rule: show_base.induct)
  case (1 b n)
  show ?case
  proof (cases "n < b")
    case True
    then show ?thesis by (subst show_base.simps) auto
  next
    case False
    with "1" have "set (show_base b (n div b)) \<subseteq> digit_char ` {..< b}" by simp
    moreover have "n mod b < b" using "1.prems" by simp
    ultimately show ?thesis using False "1.prems" by (subst show_base.simps) auto
  qed
qed

lemma no_nul_show_base [simp, buf_simps]:
  "2 \<le> b \<Longrightarrow> b \<le> 36 \<Longrightarrow> no_nul (show_base b n)"
proof -
  assume b: "2 \<le> b" "b \<le> 36"
  have "c \<noteq> NUL" if c: "c \<in> set (show_base b n)" for c
  proof -
    obtain d where "d < b" "c = digit_char d" using c set_show_base [OF b(1), of n] by blast
    then show ?thesis using b digit_char_not_NUL [of d] by simp
  qed
  then show ?thesis by (auto simp: no_nul_def)
qed

lemma no_nul_show_dec [simp, buf_simps]: "no_nul (show_dec i)"
  by (simp add: show_dec_def)

lemma no_nul_pad_zero [simp, buf_simps]: "no_nul s \<Longrightarrow> no_nul (pad_zero w s)"
  by (auto simp: pad_zero_def no_nul_def)

lemma length_pad_zero [simp]: "length (pad_zero w s) = max w (length s)"
  by (simp add: pad_zero_def)

lemma show_base_not_Nil [simp]: "show_base b n \<noteq> []"
  by (subst show_base.simps) simp

lemma show_dec_not_Nil [simp]: "show_dec i \<noteq> []"
  by (simp add: show_dec_def)

lemma length_show_base: "2 \<le> b \<Longrightarrow> 0 < k \<Longrightarrow> n < b ^ k \<Longrightarrow> length (show_base b n) \<le> k"
proof (induction b n arbitrary: k rule: show_base.induct)
  case (1 b n)
  show ?case
  proof (cases "n < b")
    case True
    with "1.prems" show ?thesis by (subst show_base.simps) simp
  next
    case False
    then have "k \<noteq> 1" using "1.prems" by auto
    then obtain j where j: "k = Suc j" "0 < j" using "1.prems" by (cases k) auto
    then have "n div b < b ^ j"
      using "1.prems" by (simp add: less_mult_imp_div_less mult.commute)
    then have "length (show_base b (n div b)) \<le> j"
      using "1.IH" False "1.prems" j by simp
    then show ?thesis using j False "1.prems" by (subst show_base.simps) simp
  qed
qed

lemma length_show_dec:
  assumes "- (10 ^ k) < i" "i < 10 ^ k" "0 < k"
  shows "length (show_dec i) \<le> Suc k"
proof (cases "i < 0")
  case True
  then have "int (nat (- i)) < int (10 ^ k)" using assms by simp
  then have "nat (- i) < 10 ^ k" by (simp only: of_nat_less_iff)
  then have "length (show_base 10 (nat (- i))) \<le> k" using assms by (intro length_show_base) auto
  then show ?thesis using True by (simp add: show_dec_def)
next
  case False
  then have "int (nat i) < int (10 ^ k)" using assms by simp
  then have "nat i < 10 ^ k" by (simp only: of_nat_less_iff)
  then have "length (show_base 10 (nat i)) \<le> k" using assms by (intro length_show_base) auto
  then show ?thesis using False by (simp add: show_dec_def)
qed

section \<open>Reading\<close>

text \<open>
  \<open>fgets\<close> on a stream of which \<open>s\<close> is left to read: up to \<open>n - 1\<close> bytes, to the
  end of a line at most.  \<open>None\<close> is the null pointer; for \<open>n = 1\<close> the function stores
  the terminator alone and reads nothing.
\<close>

fun line_chunk :: "nat \<Rightarrow> string \<Rightarrow> string \<times> string" where
  "line_chunk 0 s = ([], s)"
| "line_chunk (Suc k) [] = ([], [])"
| "line_chunk (Suc k) (c # s) =
     (if c = NL then ([c], s) else (case line_chunk k s of (a, b) \<Rightarrow> (c # a, b)))"

definition fgets :: "nat \<Rightarrow> string \<Rightarrow> (string \<times> string) option" where
  "fgets n s = (if n = 0 then None else if n = 1 then Some ([], s)
                else if s = [] then None else Some (line_chunk (n - 1) s))"

lemma line_chunk_append: "line_chunk k s = (a, b) \<Longrightarrow> s = a @ b"
  by (induction k s arbitrary: a b rule: line_chunk.induct) (auto split: if_splits prod.splits)

lemma line_chunk_length: "line_chunk k s = (a, b) \<Longrightarrow> length a \<le> k"
  by (induction k s arbitrary: a b rule: line_chunk.induct) (auto split: if_splits prod.splits)

lemma line_chunk_not_Nil: "line_chunk (Suc k) s = (a, b) \<Longrightarrow> s \<noteq> [] \<Longrightarrow> a \<noteq> []"
  by (cases s) (auto split: if_splits prod.splits)

lemma fgets_None: "fgets n s = None \<longleftrightarrow> n = 0 \<or> (1 < n \<and> s = [])"
  by (auto simp: fgets_def)

lemma fgets_SomeD:
  assumes "fgets n s = Some (a, b)"
  shows "s = a @ b" "length a < n" "a = [] \<longleftrightarrow> n = 1"
proof -
  consider "n = 1" "a = []" "b = s" | "1 < n" "s \<noteq> []" "line_chunk (n - 1) s = (a, b)"
    using assms by (auto simp: fgets_def split: if_splits)
  then have "s = a @ b \<and> length a < n \<and> (a = [] \<longleftrightarrow> n = 1)"
  proof cases
    case 2
    moreover from 2 have "n - 1 = Suc (n - 2)" by simp
    ultimately show ?thesis
      using line_chunk_append [of "n - 1" s a b] line_chunk_length [of "n - 1" s a b]
        line_chunk_not_Nil [of "n - 2" s a b] by simp
  qed simp
  then show "s = a @ b" "length a < n" "a = [] \<longleftrightarrow> n = 1" by simp_all
qed

text \<open>An open file: what it holds, where the next read starts, whether it can seek.\<close>

record cfile =
  content :: string
  fpos :: nat
  seekable :: bool

definition fseek_set :: "cfile \<Rightarrow> nat \<Rightarrow> cfile option" where
  "fseek_set f off = (if seekable f then Some (f\<lparr>fpos := off\<rparr>) else None)"

definition fread :: "cfile \<Rightarrow> nat \<Rightarrow> string \<times> cfile" where
  "fread f n = (take n (drop (fpos f) (content f)),
                f\<lparr>fpos := fpos f + length (take n (drop (fpos f) (content f)))\<rparr>)"

text \<open>\<open>strtol\<close> in base 10 clamps to the range of a \<open>long\<close> of \<open>L\<close> bits; \<open>atoi\<close>
  converts the result to \<open>int\<close>.\<close>

definition strtol10 :: "nat \<Rightarrow> string \<Rightarrow> int" where
  "strtol10 L s =
     (let s1 = dropWhile isspace s;
          neg = (s1 \<noteq> [] \<and> s1 ! 0 = CHR ''-'');
          s2 = (if s1 \<noteq> [] \<and> (s1 ! 0 = CHR ''-'' \<or> s1 ! 0 = CHR ''+'') then drop 1 s1 else s1);
          v = int (read_base 10 (takeWhile isdigit s2))
      in max (- (2 ^ (L - 1))) (min (2 ^ (L - 1) - 1) (if neg then - v else v)))"

definition atoi :: "nat \<Rightarrow> string \<Rightarrow> cint" where
  "atoi L s = word_of_int (strtol10 L s)"

text \<open>\<open>sscanf(s, "lit%s", ...)\<close> and \<open>sscanf(s, "%[^x]", ...)\<close>: \<open>None\<close> when the
  conversion stores nothing.\<close>

definition scan_word :: "string \<Rightarrow> string \<Rightarrow> string option" where
  "scan_word lit s =
     (if prefix lit s
      then (let w = takeWhile (\<lambda>c. \<not> isspace c) (dropWhile isspace (drop (length lit) s))
            in if w = [] then None else Some w)
      else None)"

definition scan_until :: "char \<Rightarrow> string \<Rightarrow> string option" where
  "scan_until x s =
     (let w = takeWhile (\<lambda>c. c \<noteq> x) s in if w = [] then None else Some w)"

lemma isdigit_digit_char: "d < 10 \<Longrightarrow> isdigit (digit_char d)"
  by (simp add: isdigit_def digit_char_def)

lemma show_base_10_digits: "\<forall>c \<in> set (show_base 10 n). isdigit c"
  using set_show_base [of 10 n] isdigit_digit_char by fastforce

lemma isdigit_not_space: "isdigit c \<Longrightarrow> \<not> isspace c \<and> c \<noteq> CHR ''-'' \<and> c \<noteq> CHR ''+''"
  by (auto simp: isdigit_def isspace_def)

text \<open>A number that fits is read back by \<open>atoi\<close>, whatever follows the digits.\<close>

lemma strtol10_show:
  assumes "int n < 2 ^ (L - 1)" "t = [] \<or> \<not> isdigit (t ! 0)"
  shows "strtol10 L (show_base 10 n @ t) = int n"
proof -
  let ?s = "show_base 10 n"
  obtain c u where cu: "?s = c # u" by (cases ?s) auto
  then have c: "isdigit c" using show_base_10_digits [of n] by simp
  have dig: "takeWhile isdigit (?s @ t) = ?s"
    using show_base_10_digits [of n] assms(2) by (cases t) (auto simp: takeWhile_eq_self)
  have sp: "dropWhile isspace (?s @ t) = ?s @ t"
    using c isdigit_not_space by (simp add: cu)
  have hd: "(?s @ t) ! 0 = c" "?s @ t \<noteq> []" by (simp_all add: cu)
  have "strtol10 L (?s @ t) = max (- (2 ^ (L - 1))) (min (2 ^ (L - 1) - 1) (int n))"
    using isdigit_not_space [OF c] by (simp add: strtol10_def sp hd dig Let_def read_show_base)
  moreover have "- (2 ^ (L - 1)) \<le> int n" by (rule order_trans [of _ 0]) simp_all
  ultimately show ?thesis using assms(1) by (simp add: max_absorb2)
qed

end
