(* ===== verification/Machine.thy ===== *)
theory Machine
  imports CLib
begin

text \<open>
  The machine the native service runs on.  Everything outside the repository is an argument:
  \<open>'w\<close> is the rest of the world (processes, file systems, devices, properties) and a
  \<open>platform\<close> says how the calls of the code read and change it, together with the facts
  of the target (sign of \<open>char\<close>, width of \<open>long\<close>) and the two string conversions of
  \<open>libutils\<close>.  A state \<open>sys\<close> holds the world, the fields of the one
  \<open>RjcoreService\<close> object, the disposition of \<open>SIGCHLD\<close>, a flag for memory overruns, and
  the trace of the effects in the order they happened.
\<close>

datatype mutex = LogLock | NetLock

datatype sig_handler = SIG_DFL | SIG_IGN | Handler nat

text \<open>The boolean of an event says whether the call succeeded.\<close>

datatype event =
    EPopen string bool | EPclose
  | ESystem string
  | EOpendir string bool
  | EFopen string bool | EFclose
  | EOpen string bool | EClose
  | EGetSector | EStoreSector
  | ELock mutex | EUnlock mutex
  | ESync
  | EAddService str16
  | EThreadPool

text \<open>\<open>RKNAND_SYS_STORGAE\<close>, the buffer of the two device requests.\<close>

record vsector =
  vs_tag :: "32 word"
  vs_len :: "32 word"
  vs_data :: "8 word list"

datatype ioctl_req = GET_VENDOR_SECTOR0 | STORE_VENDOR_SECTOR0

record 'w platform =
  char_signed :: bool
  long_bits :: nat
  prop_max :: nat                                             \<comment> \<open>\<open>PROPERTY_VALUE_MAX\<close>\<close>
  to16 :: "string \<Rightarrow> str16"                                  \<comment> \<open>\<open>String16(const char*)\<close>\<close>
  to8 :: "str16 \<Rightarrow> string"                                   \<comment> \<open>\<open>String8(const String16&)\<close>\<close>
  inet_pton4 :: "string \<Rightarrow> bool"
  inet_pton6 :: "string \<Rightarrow> bool"
  pf_popen :: "string \<Rightarrow> 'w \<Rightarrow> string option \<times> 'w"             \<comment> \<open>what the command writes\<close>
  pf_system :: "string \<Rightarrow> 'w \<Rightarrow> cint \<times> 'w"
  pf_access :: "string \<Rightarrow> 'w \<Rightarrow> bool"                          \<comment> \<open>\<open>access(path, F_OK) == 0\<close>\<close>
  pf_opendir :: "string \<Rightarrow> 'w \<Rightarrow> bool \<times> 'w"
  pf_fopen :: "string \<Rightarrow> string \<Rightarrow> 'w \<Rightarrow> (string \<times> bool) option" \<comment> \<open>content, seekable\<close>
  pf_getprop :: "string \<Rightarrow> 'w \<Rightarrow> string"                       \<comment> \<open>empty when not set\<close>
  pf_statfs :: "string \<Rightarrow> 'w \<Rightarrow> (nat \<times> nat) option"            \<comment> \<open>\<open>f_blocks\<close>, \<open>f_bsize\<close>\<close>
  pf_open :: "string \<Rightarrow> 'w \<Rightarrow> cint"
  pf_ioctl :: "ioctl_req \<Rightarrow> vsector \<Rightarrow> 'w \<Rightarrow> cint \<times> vsector \<times> 'w"
  pf_stack :: vsector                                          \<comment> \<open>an uninitialised \<open>sysData\<close>\<close>
  pf_time :: "'w \<Rightarrow> int \<times> 'w"

record 'w sys =
  world :: 'w
  trace :: "event list"
  sigchld :: sig_handler
  overrun :: bool
  mInit :: bool
  mSerialNum :: str16
  mProductType :: str16
  mHardwareVersion :: str16
  mProductId :: str16

section \<open>Primitive effects\<close>

definition emit :: "event \<Rightarrow> ('w sys, unit) state" where
  "emit e = State (\<lambda>s. ((), s\<lparr>trace := trace s @ [e]\<rparr>))"

definition on_world :: "('w \<Rightarrow> 'a \<times> 'w) \<Rightarrow> ('w sys, 'a) state" where
  "on_world f = State (\<lambda>s. (fst (f (world s)), s\<lparr>world := snd (f (world s))\<rparr>))"

definition asks :: "('w sys \<Rightarrow> 'a) \<Rightarrow> ('w sys, 'a) state" where
  "asks f = State (\<lambda>s. (f s, s))"

definition modify :: "('w sys \<Rightarrow> 'w sys) \<Rightarrow> ('w sys, unit) state" where
  "modify f = State (\<lambda>s. ((), f s))"

lemma run_emit [simp]: "run_state (emit e) s = ((), s\<lparr>trace := trace s @ [e]\<rparr>)"
  by (simp add: emit_def)

lemma run_on_world [simp]:
  "run_state (on_world f) s = (fst (f (world s)), s\<lparr>world := snd (f (world s))\<rparr>)"
  by (simp add: on_world_def)

lemma run_asks [simp]: "run_state (asks f) s = (f s, s)"
  by (simp add: asks_def)

lemma run_modify [simp]: "run_state (modify f) s = ((), f s)"
  by (simp add: modify_def)

text \<open>
  Arrays are locals of a call; \<open>note_overrun n buf\<close> records that an array of \<open>n\<close> bytes
  was written past its end.  Nothing is claimed of a run after that.
\<close>

definition note_overrun :: "nat \<Rightarrow> cbuf \<Rightarrow> ('w sys, unit) state" where
  "note_overrun n buf = modify (\<lambda>s. s\<lparr>overrun := overrun s \<or> n < length buf\<rparr>)"

lemma run_note_overrun [simp]:
  "run_state (note_overrun n buf) s = ((), s\<lparr>overrun := overrun s \<or> n < length buf\<rparr>)"
  by (simp add: note_overrun_def)

definition popen :: "'w platform \<Rightarrow> string \<Rightarrow> ('w sys, string option) state" where
  "popen P cmd = do {
     r \<leftarrow> on_world (pf_popen P cmd);
     emit (EPopen cmd (r \<noteq> None));
     State_Monad.return r }"

definition system :: "'w platform \<Rightarrow> string \<Rightarrow> ('w sys, cint) state" where
  "system P cmd = do {
     emit (ESystem cmd);
     on_world (pf_system P cmd) }"

definition signal_sigchld :: "sig_handler \<Rightarrow> ('w sys, sig_handler) state" where
  "signal_sigchld h = do {
     old \<leftarrow> asks sigchld;
     modify (\<lambda>s. s\<lparr>sigchld := h\<rparr>);
     State_Monad.return old }"

definition access :: "'w platform \<Rightarrow> string \<Rightarrow> ('w sys, bool) state" where
  "access P path = asks (\<lambda>s. pf_access P path (world s))"

definition opendir :: "'w platform \<Rightarrow> string \<Rightarrow> ('w sys, bool) state" where
  "opendir P path = do {
     r \<leftarrow> on_world (pf_opendir P path);
     emit (EOpendir path r);
     State_Monad.return r }"

definition fopen :: "'w platform \<Rightarrow> string \<Rightarrow> string \<Rightarrow> ('w sys, cfile option) state" where
  "fopen P path mode = do {
     r \<leftarrow> asks (\<lambda>s. pf_fopen P path mode (world s));
     emit (EFopen path (r \<noteq> None));
     State_Monad.return
       (map_option (\<lambda>(c, sk). \<lparr>content = c, fpos = 0, seekable = sk\<rparr>) r) }"

definition getprop :: "'w platform \<Rightarrow> string \<Rightarrow> ('w sys, string) state" where
  "getprop P key = asks (\<lambda>s. pf_getprop P key (world s))"

lemma run_fopen_Some:
  "pf_fopen P path mode (world s) = Some (c, sk) \<Longrightarrow> run_state (fopen P path mode) s =
     (Some \<lparr>content = c, fpos = 0, seekable = sk\<rparr>, s\<lparr>trace := trace s @ [EFopen path True]\<rparr>)"
  by (simp add: fopen_def)

lemma run_fopen_None:
  "pf_fopen P path mode (world s) = None \<Longrightarrow> run_state (fopen P path mode) s =
     (None, s\<lparr>trace := trace s @ [EFopen path False]\<rparr>)"
  by (simp add: fopen_def)

text \<open>\<open>Mutex::Autolock\<close>: the destructor releases the mutex on every way out of the body.\<close>

definition with_lock :: "mutex \<Rightarrow> ('w sys, 'a) state \<Rightarrow> ('w sys, 'a) state" where
  "with_lock m body = do {
     emit (ELock m);
     r \<leftarrow> body;
     emit (EUnlock m);
     State_Monad.return r }"

lemmas prim_defs =
  popen_def system_def signal_sigchld_def access_def opendir_def fopen_def getprop_def

text \<open>\<open>String8(x).string()\<close> as the C string a call receives.\<close>

definition c_str :: "'w platform \<Rightarrow> str16 \<Rightarrow> string" where
  "c_str P x = cstr (to8 P x)"

lemma no_nul_c_str [simp, buf_simps]: "no_nul (c_str P x)"
  by (simp add: c_str_def)

section \<open>What is compared before and after an operation\<close>

text \<open>The commands of a trace, as the shell receives them.\<close>

fun command_of :: "event \<Rightarrow> string option" where
  "command_of (EPopen c ok) = Some c"
| "command_of (ESystem c) = Some c"
| "command_of _ = None"

definition commands :: "event list \<Rightarrow> string list" where
  "commands es = List.map_filter command_of es"

lemma commands_Nil [simp]: "commands [] = []"
  by (simp add: commands_def)

lemma commands_append [simp]: "commands (es @ fs) = commands es @ commands fs"
  by (simp add: commands_def map_filter_def)

lemma commands_Cons [simp]:
  "commands (e # es) = (case command_of e of None \<Rightarrow> commands es | Some c \<Rightarrow> c # commands es)"
  by (simp add: commands_def map_filter_def split: option.splits)

text \<open>Handles taken and not given back, per kind.\<close>

datatype handle = HPipe | HDir | HFile | HFd | HMutex mutex

fun handle_delta :: "handle \<Rightarrow> event \<Rightarrow> int" where
  "handle_delta HPipe (EPopen c ok) = (if ok then 1 else 0)"
| "handle_delta HPipe EPclose = -1"
| "handle_delta HDir (EOpendir p ok) = (if ok then 1 else 0)"
| "handle_delta HFile (EFopen p ok) = (if ok then 1 else 0)"
| "handle_delta HFile EFclose = -1"
| "handle_delta HFd (EOpen p ok) = (if ok then 1 else 0)"
| "handle_delta HFd EClose = -1"
| "handle_delta (HMutex m) (ELock m') = (if m = m' then 1 else 0)"
| "handle_delta (HMutex m) (EUnlock m') = (if m = m' then -1 else 0)"
| "handle_delta _ _ = 0"

definition held :: "handle \<Rightarrow> event list \<Rightarrow> int" where
  "held h es = sum_list (map (handle_delta h) es)"

lemma held_Nil [simp]: "held h [] = 0"
  by (simp add: held_def)

lemma held_append [simp]: "held h (es @ fs) = held h es + held h fs"
  by (simp add: held_def)

lemma held_Cons [simp]: "held h (e # es) = handle_delta h e + held h es"
  by (simp add: held_def)

definition members :: "'w sys \<Rightarrow> bool \<times> str16 \<times> str16 \<times> str16 \<times> str16" where
  "members s = (mInit s, mSerialNum s, mProductType s, mHardwareVersion s, mProductId s)"

definition same_members :: "'w sys \<Rightarrow> 'w sys \<Rightarrow> bool" where
  "same_members s t \<longleftrightarrow> members t = members s"

definition same_sigchld :: "'w sys \<Rightarrow> 'w sys \<Rightarrow> bool" where
  "same_sigchld s t \<longleftrightarrow> sigchld t = sigchld s"

definition trace_grows :: "'w sys \<Rightarrow> 'w sys \<Rightarrow> bool" where
  "trace_grows s t \<longleftrightarrow> prefix (trace s) (trace t)"

definition same_held :: "handle \<Rightarrow> 'w sys \<Rightarrow> 'w sys \<Rightarrow> bool" where
  "same_held h s t \<longleftrightarrow> held h (trace t) = held h (trace s)"

definition more_held :: "handle \<Rightarrow> 'w sys \<Rightarrow> 'w sys \<Rightarrow> bool" where
  "more_held h s t \<longleftrightarrow> held h (trace s) \<le> held h (trace t)"

end
