(* ===== verification/Interface.thy ===== *)
theory Interface
  imports Machine
begin

text \<open>
  \<open>IRjcoreService\<close>: the interface both the proxy in a client and the service implement.
  The abstract class is a record of its virtual functions; a \<open>request\<close> is one call of one
  of them with its arguments, and \<open>perform\<close> makes it.  \<open>txn\<close> lists the transaction
  codes in the order the enumeration gives them.
\<close>

record 's irjcore =
  i_getCpuInfo :: "('s, str16) state"
  i_getAndroidVersion :: "('s, str16) state"
  i_getSystemVersion :: "('s, str16) state"
  i_getSerialNumber :: "('s, str16) state"
  i_getProductType :: "('s, str16) state"
  i_getHardwareVesion :: "('s, str16) state"
  i_getProductId :: "('s, str16) state"
  i_getProductName :: "('s, str16) state"
  i_getBaseboardInfo :: "('s, str16) state"
  i_getMemoryInfo :: "('s, str16) state"
  i_getStorageInfo :: "('s, str16) state"
  i_setPowerState :: "cint \<Rightarrow> ('s, unit) state"
  i_getPowerState :: "('s, cint) state"
  i_collectLogFiles_block :: "str16 \<Rightarrow> ('s, bool) state"
  i_chmodFile :: "str16 \<Rightarrow> str16 \<Rightarrow> ('s, bool) state"
  i_chmodDir :: "str16 \<Rightarrow> str16 \<Rightarrow> ('s, bool) state"
  i_rmFile :: "str16 \<Rightarrow> ('s, bool) state"
  i_reboot :: "('s, unit) state"
  i_shutdown :: "('s, unit) state"
  i_getLedStatus :: "cint \<Rightarrow> ('s, cint) state"
  i_setLedStatus :: "cint \<Rightarrow> cint \<Rightarrow> ('s, unit) state"
  i_setDeviceResolution :: "cint \<Rightarrow> cint \<Rightarrow> cint \<Rightarrow> cint \<Rightarrow> ('s, bool) state"
  i_getCurrentResolution_block :: "('s, str16) state"
  i_getSupportResolution :: "('s, str16) state"
  i_getPropertyValue :: "str16 \<Rightarrow> ('s, str16) state"
  i_getNetcardState :: "('s, bool) state"
  i_getNetcardCurSpeed :: "('s, str16) state"
  i_getNetcardMaxSpeed :: "('s, str16) state"
  i_startAvahi :: "('s, unit) state"
  i_stopAvahi :: "('s, unit) state"
  i_checkIpConflict_block :: "str16 \<Rightarrow> ('s, str16) state"
  i_ping_block :: "str16 \<Rightarrow> cint \<Rightarrow> cint \<Rightarrow> cint \<Rightarrow> ('s, str16) state"
  i_checkBandwidth_block :: "str16 \<Rightarrow> str16 \<Rightarrow> str16 \<Rightarrow> ('s, str16) state"
  i_getOtaResult :: "('s, bool) state"
  i_isProcessRunning :: "str16 \<Rightarrow> ('s, bool) state"
  i_getProcessId :: "str16 \<Rightarrow> ('s, str16) state"
  i_killByProcessName :: "str16 \<Rightarrow> ('s, unit) state"

datatype request =
    Req_getCpuInfo
  | Req_getAndroidVersion
  | Req_getSystemVersion
  | Req_getSerialNumber
  | Req_getProductType
  | Req_getHardwareVesion
  | Req_getProductId
  | Req_getProductName
  | Req_getBaseboardInfo
  | Req_getMemoryInfo
  | Req_getStorageInfo
  | Req_setPowerState cint
  | Req_getPowerState
  | Req_collectLogFiles_block str16
  | Req_chmodFile str16 str16
  | Req_chmodDir str16 str16
  | Req_rmFile str16
  | Req_reboot
  | Req_shutdown
  | Req_getLedStatus cint
  | Req_setLedStatus cint cint
  | Req_setDeviceResolution cint cint cint cint
  | Req_getCurrentResolution_block
  | Req_getSupportResolution
  | Req_getPropertyValue str16
  | Req_getNetcardState
  | Req_getNetcardCurSpeed
  | Req_getNetcardMaxSpeed
  | Req_startAvahi
  | Req_stopAvahi
  | Req_checkIpConflict_block str16
  | Req_ping_block str16 cint cint cint
  | Req_checkBandwidth_block str16 str16 str16
  | Req_getOtaResult
  | Req_isProcessRunning str16
  | Req_getProcessId str16
  | Req_killByProcessName str16

datatype response = RStr str16 | RInt cint | RBool bool | RUnit

definition respond :: "('a \<Rightarrow> response) \<Rightarrow> ('s, 'a) state \<Rightarrow> ('s, response) state" where
  "respond f m = do { x \<leftarrow> m; State_Monad.return (f x) }"

fun perform :: "'s irjcore \<Rightarrow> request \<Rightarrow> ('s, response) state" where
  "perform I Req_getCpuInfo = respond RStr (i_getCpuInfo I)"
| "perform I Req_getAndroidVersion = respond RStr (i_getAndroidVersion I)"
| "perform I Req_getSystemVersion = respond RStr (i_getSystemVersion I)"
| "perform I Req_getSerialNumber = respond RStr (i_getSerialNumber I)"
| "perform I Req_getProductType = respond RStr (i_getProductType I)"
| "perform I Req_getHardwareVesion = respond RStr (i_getHardwareVesion I)"
| "perform I Req_getProductId = respond RStr (i_getProductId I)"
| "perform I Req_getProductName = respond RStr (i_getProductName I)"
| "perform I Req_getBaseboardInfo = respond RStr (i_getBaseboardInfo I)"
| "perform I Req_getMemoryInfo = respond RStr (i_getMemoryInfo I)"
| "perform I Req_getStorageInfo = respond RStr (i_getStorageInfo I)"
| "perform I (Req_setPowerState a) = respond (\<lambda>_. RUnit) (i_setPowerState I a)"
| "perform I Req_getPowerState = respond RInt (i_getPowerState I)"
| "perform I (Req_collectLogFiles_block a) = respond RBool (i_collectLogFiles_block I a)"
| "perform I (Req_chmodFile a b) = respond RBool (i_chmodFile I a b)"
| "perform I (Req_chmodDir a b) = respond RBool (i_chmodDir I a b)"
| "perform I (Req_rmFile a) = respond RBool (i_rmFile I a)"
| "perform I Req_reboot = respond (\<lambda>_. RUnit) (i_reboot I)"
| "perform I Req_shutdown = respond (\<lambda>_. RUnit) (i_shutdown I)"
| "perform I (Req_getLedStatus a) = respond RInt (i_getLedStatus I a)"
| "perform I (Req_setLedStatus a b) = respond (\<lambda>_. RUnit) (i_setLedStatus I a b)"
| "perform I (Req_setDeviceResolution a b c d) = respond RBool (i_setDeviceResolution I a b c d)"
| "perform I Req_getCurrentResolution_block = respond RStr (i_getCurrentResolution_block I)"
| "perform I Req_getSupportResolution = respond RStr (i_getSupportResolution I)"
| "perform I (Req_getPropertyValue a) = respond RStr (i_getPropertyValue I a)"
| "perform I Req_getNetcardState = respond RBool (i_getNetcardState I)"
| "perform I Req_getNetcardCurSpeed = respond RStr (i_getNetcardCurSpeed I)"
| "perform I Req_getNetcardMaxSpeed = respond RStr (i_getNetcardMaxSpeed I)"
| "perform I Req_startAvahi = respond (\<lambda>_. RUnit) (i_startAvahi I)"
| "perform I Req_stopAvahi = respond (\<lambda>_. RUnit) (i_stopAvahi I)"
| "perform I (Req_checkIpConflict_block a) = respond RStr (i_checkIpConflict_block I a)"
| "perform I (Req_ping_block a b c d) = respond RStr (i_ping_block I a b c d)"
| "perform I (Req_checkBandwidth_block a b c) = respond RStr (i_checkBandwidth_block I a b c)"
| "perform I Req_getOtaResult = respond RBool (i_getOtaResult I)"
| "perform I (Req_isProcessRunning a) = respond RBool (i_isProcessRunning I a)"
| "perform I (Req_getProcessId a) = respond RStr (i_getProcessId I a)"
| "perform I (Req_killByProcessName a) = respond (\<lambda>_. RUnit) (i_killByProcessName I a)"

section \<open>Transaction codes\<close>

datatype txn =
    GET_CPU_INFO
  | GET_ANDROID_VERSION
  | GET_SYSTEM_VERSION
  | GET_SERIAL_NUMBER
  | GET_PRODUCT_TYPE
  | GET_HARDWARE_VERSION
  | GET_PRODUCT_ID
  | GET_PRODUCT_NAME
  | GET_BASEBOARD_INFO
  | GET_MEMORY_INFO
  | GET_STORAGE_INFO
  | SET_POWER_STATE
  | GET_POWER_STATE
  | COLLECT_LOG_FILES_BLOCK
  | CHMOD_FILE
  | CHMOD_DIR
  | RM_FILE
  | REBOOT
  | SHUTDOWN
  | GET_LED_STATUS
  | SET_LED_STATUS
  | SET_DEVICE_RESOLUTION
  | GET_CURRENT_RESOLUTION_BLOCK
  | GET_SUPPORT_RESOLUTION
  | GET_PROPERTY_VALUE
  | GET_NETCARD_STATE
  | GET_NETCARD_CUR_SPEED
  | GET_NETCARD_MAX_SPEED
  | START_AVAHI
  | STOP_AVAHI
  | CHECK_IP_CONFLICT_BLOCK
  | PING_BLOCK
  | CHECK_BANDWIDTH_BLOCK
  | GET_OTA_RESULT
  | IS_PROCESS_RUNNING
  | GET_PROCESS_ID
  | KILL_PROCESS_BY_NAME

definition txns :: "txn list" where
  "txns = [GET_CPU_INFO, GET_ANDROID_VERSION, GET_SYSTEM_VERSION, GET_SERIAL_NUMBER,
     GET_PRODUCT_TYPE, GET_HARDWARE_VERSION, GET_PRODUCT_ID, GET_PRODUCT_NAME,
     GET_BASEBOARD_INFO, GET_MEMORY_INFO, GET_STORAGE_INFO, SET_POWER_STATE,
     GET_POWER_STATE, COLLECT_LOG_FILES_BLOCK, CHMOD_FILE, CHMOD_DIR,
     RM_FILE, REBOOT, SHUTDOWN, GET_LED_STATUS,
     SET_LED_STATUS, SET_DEVICE_RESOLUTION, GET_CURRENT_RESOLUTION_BLOCK, GET_SUPPORT_RESOLUTION,
     GET_PROPERTY_VALUE, GET_NETCARD_STATE, GET_NETCARD_CUR_SPEED, GET_NETCARD_MAX_SPEED,
     START_AVAHI, STOP_AVAHI, CHECK_IP_CONFLICT_BLOCK, PING_BLOCK,
     CHECK_BANDWIDTH_BLOCK, GET_OTA_RESULT, IS_PROCESS_RUNNING, GET_PROCESS_ID,
     KILL_PROCESS_BY_NAME]"

text \<open>\<open>IBinder::FIRST_CALL_TRANSACTION\<close> is 1; the enumeration counts up from it.\<close>

fun txn_index :: "txn \<Rightarrow> nat" where
  "txn_index GET_CPU_INFO = 0"
| "txn_index GET_ANDROID_VERSION = 1"
| "txn_index GET_SYSTEM_VERSION = 2"
| "txn_index GET_SERIAL_NUMBER = 3"
| "txn_index GET_PRODUCT_TYPE = 4"
| "txn_index GET_HARDWARE_VERSION = 5"
| "txn_index GET_PRODUCT_ID = 6"
| "txn_index GET_PRODUCT_NAME = 7"
| "txn_index GET_BASEBOARD_INFO = 8"
| "txn_index GET_MEMORY_INFO = 9"
| "txn_index GET_STORAGE_INFO = 10"
| "txn_index SET_POWER_STATE = 11"
| "txn_index GET_POWER_STATE = 12"
| "txn_index COLLECT_LOG_FILES_BLOCK = 13"
| "txn_index CHMOD_FILE = 14"
| "txn_index CHMOD_DIR = 15"
| "txn_index RM_FILE = 16"
| "txn_index REBOOT = 17"
| "txn_index SHUTDOWN = 18"
| "txn_index GET_LED_STATUS = 19"
| "txn_index SET_LED_STATUS = 20"
| "txn_index SET_DEVICE_RESOLUTION = 21"
| "txn_index GET_CURRENT_RESOLUTION_BLOCK = 22"
| "txn_index GET_SUPPORT_RESOLUTION = 23"
| "txn_index GET_PROPERTY_VALUE = 24"
| "txn_index GET_NETCARD_STATE = 25"
| "txn_index GET_NETCARD_CUR_SPEED = 26"
| "txn_index GET_NETCARD_MAX_SPEED = 27"
| "txn_index START_AVAHI = 28"
| "txn_index STOP_AVAHI = 29"
| "txn_index CHECK_IP_CONFLICT_BLOCK = 30"
| "txn_index PING_BLOCK = 31"
| "txn_index CHECK_BANDWIDTH_BLOCK = 32"
| "txn_index GET_OTA_RESULT = 33"
| "txn_index IS_PROCESS_RUNNING = 34"
| "txn_index GET_PROCESS_ID = 35"
| "txn_index KILL_PROCESS_BY_NAME = 36"

definition code_of :: "txn \<Rightarrow> 32 word" where
  "code_of t = of_nat (1 + txn_index t)"

text \<open>\<open>switch (code)\<close>: the label a code matches.\<close>

definition switch :: "32 word \<Rightarrow> txn option" where
  "switch code = find (\<lambda>t. code_of t = code) txns"

lemma txn_index_less: "txn_index t < 37"
  by (cases t) simp_all

lemma txns_nth: "txns ! txn_index t = t"
  by (cases t) (simp_all add: txns_def)

lemma inj_txn_index: "txn_index t = txn_index u \<Longrightarrow> t = u"
  by (metis txns_nth)

lemma length_txns: "length txns = 37"
  by (simp add: txns_def)

lemma set_txns: "t \<in> set txns"
  by (metis txns_nth nth_mem length_txns txn_index_less)

lemma unat_code_of: "unat (code_of t) = 1 + txn_index t"
  using txn_index_less [of t] by (simp add: code_of_def unat_of_nat del: of_nat_add of_nat_Suc)

lemma code_of_inj: "code_of t = code_of u \<longleftrightarrow> t = u"
  by (metis unat_code_of inj_txn_index add_left_cancel)

lemma switch_code_of [simp]: "switch (code_of t) = Some t"
proof -
  have "find (\<lambda>u. code_of u = code_of t) txns \<noteq> None"
    using set_txns by (auto simp: find_None_iff)
  then show ?thesis
    by (auto simp: switch_def find_Some_iff code_of_inj)
qed

lemma switch_SomeD: "switch code = Some t \<Longrightarrow> code = code_of t"
  by (auto simp: switch_def find_Some_iff)

lemma switch_None_iff: "switch code = None \<longleftrightarrow> code \<notin> range code_of"
  using set_txns by (auto simp: switch_def find_None_iff)

text \<open>The codes are ordered as the enumeration lists them.\<close>

instantiation txn :: linorder
begin

definition less_eq_txn :: "txn \<Rightarrow> txn \<Rightarrow> bool" where
  "less_eq_txn t u \<longleftrightarrow> txn_index t \<le> txn_index u"

definition less_txn :: "txn \<Rightarrow> txn \<Rightarrow> bool" where
  "less_txn t u \<longleftrightarrow> txn_index t < txn_index u"

instance
  by standard (auto simp: less_eq_txn_def less_txn_def intro: inj_txn_index)

end

lemma txns_sorted: "sorted txns" "distinct txns"
  by (simp_all add: txns_def less_eq_txn_def)

end
