(* ===== verification/Proxy.thy ===== *)
theory Proxy
  imports Interface
begin

text \<open>
  \<open>BpRjcoreService\<close>, the client side of \<open>IRjcoreService.cpp\<close>: each call writes the
  interface token and its arguments into a parcel, transacts, and reads the answer back.
  \<open>Parcel\<close> and the transport belong to \<open>libbinder\<close>; they are arguments
  (\<open>parcel_ops\<close>, \<open>transact\<close>), and \<open>parcel_laws\<close> states what the code relies on.
\<close>

section \<open>Parcels\<close>

record 'p parcel_ops =
  p_new :: 'p
  w_token :: "str16 \<Rightarrow> 'p \<Rightarrow> 'p"
  w_int32 :: "cint \<Rightarrow> 'p \<Rightarrow> 'p"
  w_str16 :: "str16 \<Rightarrow> 'p \<Rightarrow> 'p"
  w_noexc :: "'p \<Rightarrow> 'p"
  enforce :: "str16 \<Rightarrow> 'p \<Rightarrow> bool \<times> 'p"          \<comment> \<open>\<open>enforceInterface\<close>\<close>
  r_int32 :: "'p \<Rightarrow> cint \<times> 'p"
  r_str16 :: "'p \<Rightarrow> str16 \<times> 'p"
  r_exc :: "'p \<Rightarrow> cint \<times> 'p"                    \<comment> \<open>\<open>readExceptionCode\<close>\<close>
  rewind :: "'p \<Rightarrow> 'p"                          \<comment> \<open>\<open>setDataPosition(0)\<close>\<close>

datatype item = IToken str16 | IInt cint | IStr str16 | INoExc

text \<open>
  The documented behaviour: \<open>pw\<close> is what has been written, \<open>pr\<close> what is still to be read.
  Values are read in the order they were written; a read past the end gives zero or an
  empty string.
\<close>

definition parcel_laws :: "'p parcel_ops \<Rightarrow> ('p \<Rightarrow> item list) \<Rightarrow> ('p \<Rightarrow> item list) \<Rightarrow> bool" where
  "parcel_laws ops pw pr \<longleftrightarrow>
     pw (p_new ops) = [] \<and> pr (p_new ops) = [] \<and>
     (\<forall>p d. pw (w_token ops d p) = pw p @ [IToken d]) \<and>
     (\<forall>p v. pw (w_int32 ops v p) = pw p @ [IInt v]) \<and>
     (\<forall>p v. pw (w_str16 ops v p) = pw p @ [IStr v]) \<and>
     (\<forall>p. pw (w_noexc ops p) = pw p @ [INoExc]) \<and>
     (\<forall>p. pr (rewind ops p) = pw p) \<and>
     (\<forall>p d d' r. pr p = IToken d # r \<longrightarrow>
        fst (enforce ops d' p) = (d = d') \<and> pr (snd (enforce ops d' p)) = r) \<and>
     (\<forall>p v r. pr p = IInt v # r \<longrightarrow> fst (r_int32 ops p) = v \<and> pr (snd (r_int32 ops p)) = r) \<and>
     (\<forall>p v r. pr p = IStr v # r \<longrightarrow> fst (r_str16 ops p) = v \<and> pr (snd (r_str16 ops p)) = r) \<and>
     (\<forall>p r. pr p = INoExc # r \<longrightarrow> fst (r_exc ops p) = 0 \<and> pr (snd (r_exc ops p)) = r) \<and>
     (\<forall>p. pr p = [] \<longrightarrow> fst (r_int32 ops p) = 0 \<and> fst (r_str16 ops p) = [] \<and>
        pr (snd (r_exc ops p)) = [])"

text \<open>The interface descriptor \<open>IMPLEMENT_META_INTERFACE\<close> gives the class.\<close>

definition descriptor :: "str16" where
  "descriptor = map (\<lambda>c. of_char c) ''com.ruijie.core.library.interfaces.IRjcoreManager''"

section \<open>The calls\<close>

text \<open>
  All calls share their frame: token, arguments, \<open>transact\<close> (its status is not looked at),
  exception code, and a result read as a string, an integer, a boolean or not at all.
\<close>

type_synonym ('s, 'p) transport = "32 word \<Rightarrow> 'p \<Rightarrow> ('s, 'p) state"

definition bp_reply ::
  "'p parcel_ops \<Rightarrow> ('s, 'p) transport \<Rightarrow> txn \<Rightarrow> ('p \<Rightarrow> 'p) \<Rightarrow> ('s, 'p) state" where
  "bp_reply ops transact t put_args = do {
     reply \<leftarrow> transact (code_of t) (put_args (w_token ops descriptor (p_new ops)));
     State_Monad.return (snd (r_exc ops reply)) }"

definition bp_str ::
  "'p parcel_ops \<Rightarrow> ('s, 'p) transport \<Rightarrow> txn \<Rightarrow> ('p \<Rightarrow> 'p) \<Rightarrow> ('s, str16) state" where
  "bp_str ops transact t put_args = do {
     reply \<leftarrow> bp_reply ops transact t put_args;
     State_Monad.return (fst (r_str16 ops reply)) }"

definition bp_int ::
  "'p parcel_ops \<Rightarrow> ('s, 'p) transport \<Rightarrow> txn \<Rightarrow> ('p \<Rightarrow> 'p) \<Rightarrow> ('s, cint) state" where
  "bp_int ops transact t put_args = do {
     reply \<leftarrow> bp_reply ops transact t put_args;
     State_Monad.return (fst (r_int32 ops reply)) }"

definition bp_bool ::
  "'p parcel_ops \<Rightarrow> ('s, 'p) transport \<Rightarrow> txn \<Rightarrow> ('p \<Rightarrow> 'p) \<Rightarrow> ('s, bool) state" where
  "bp_bool ops transact t put_args = do {
     reply \<leftarrow> bp_reply ops transact t put_args;
     State_Monad.return (fst (r_int32 ops reply) \<noteq> 0) }"

definition bp_void ::
  "'p parcel_ops \<Rightarrow> ('s, 'p) transport \<Rightarrow> txn \<Rightarrow> ('p \<Rightarrow> 'p) \<Rightarrow> ('s, unit) state" where
  "bp_void ops transact t put_args = do {
     _ \<leftarrow> bp_reply ops transact t put_args;
     State_Monad.return () }"

definition bp_getCpuInfo ::
  "'p parcel_ops \<Rightarrow> ('s, 'p) transport \<Rightarrow> ('s, str16) state" where
  "bp_getCpuInfo ops transact = bp_str ops transact GET_CPU_INFO
     (\<lambda>data. data)"

definition bp_getAndroidVersion ::
  "'p parcel_ops \<Rightarrow> ('s, 'p) transport \<Rightarrow> ('s, str16) state" where
  "bp_getAndroidVersion ops transact = bp_str ops transact GET_ANDROID_VERSION
     (\<lambda>data. data)"

definition bp_getSystemVersion ::
  "'p parcel_ops \<Rightarrow> ('s, 'p) transport \<Rightarrow> ('s, str16) state" where
  "bp_getSystemVersion ops transact = bp_str ops transact GET_SYSTEM_VERSION
     (\<lambda>data. data)"

definition bp_getSerialNumber ::
  "'p parcel_ops \<Rightarrow> ('s, 'p) transport \<Rightarrow> ('s, str16) state" where
  "bp_getSerialNumber ops transact = bp_str ops transact GET_SERIAL_NUMBER
     (\<lambda>data. data)"

definition bp_getProductType ::
  "'p parcel_ops \<Rightarrow> ('s, 'p) transport \<Rightarrow> ('s, str16) state" where
  "bp_getProductType ops transact = bp_str ops transact GET_PRODUCT_TYPE
     (\<lambda>data. data)"

definition bp_getHardwareVesion ::
  "'p parcel_ops \<Rightarrow> ('s, 'p) transport \<Rightarrow> ('s, str16) state" where
  "bp_getHardwareVesion ops transact = bp_str ops transact GET_HARDWARE_VERSION
     (\<lambda>data. data)"

definition bp_getProductId ::
  "'p parcel_ops \<Rightarrow> ('s, 'p) transport \<Rightarrow> ('s, str16) state" where
  "bp_getProductId ops transact = bp_str ops transact GET_PRODUCT_ID
     (\<lambda>data. data)"

definition bp_getProductName ::
  "'p parcel_ops \<Rightarrow> ('s, 'p) transport \<Rightarrow> ('s, str16) state" where
  "bp_getProductName ops transact = bp_str ops transact GET_PRODUCT_NAME
     (\<lambda>data. data)"

definition bp_getBaseboardInfo ::
  "'p parcel_ops \<Rightarrow> ('s, 'p) transport \<Rightarrow> ('s, str16) state" where
  "bp_getBaseboardInfo ops transact = bp_str ops transact GET_BASEBOARD_INFO
     (\<lambda>data. data)"

definition bp_getMemoryInfo ::
  "'p parcel_ops \<Rightarrow> ('s, 'p) transport \<Rightarrow> ('s, str16) state" where
  "bp_getMemoryInfo ops transact = bp_str ops transact GET_MEMORY_INFO
     (\<lambda>data. data)"

definition bp_getStorageInfo ::
  "'p parcel_ops \<Rightarrow> ('s, 'p) transport \<Rightarrow> ('s, str16) state" where
  "bp_getStorageInfo ops transact = bp_str ops transact GET_STORAGE_INFO
     (\<lambda>data. data)"

definition bp_setPowerState ::
  "'p parcel_ops \<Rightarrow> ('s, 'p) transport \<Rightarrow> cint \<Rightarrow> ('s, unit) state" where
  "bp_setPowerState ops transact powerState = bp_void ops transact SET_POWER_STATE
     (\<lambda>data. w_int32 ops powerState data)"

definition bp_getPowerState ::
  "'p parcel_ops \<Rightarrow> ('s, 'p) transport \<Rightarrow> ('s, cint) state" where
  "bp_getPowerState ops transact = bp_int ops transact GET_POWER_STATE
     (\<lambda>data. data)"

definition bp_collectLogFiles_block ::
  "'p parcel_ops \<Rightarrow> ('s, 'p) transport \<Rightarrow> str16 \<Rightarrow> ('s, bool) state" where
  "bp_collectLogFiles_block ops transact zipFilename = bp_bool ops transact COLLECT_LOG_FILES_BLOCK
     (\<lambda>data. w_str16 ops zipFilename data)"

definition bp_chmodFile ::
  "'p parcel_ops \<Rightarrow> ('s, 'p) transport \<Rightarrow> str16 \<Rightarrow> str16 \<Rightarrow> ('s, bool) state" where
  "bp_chmodFile ops transact path mode = bp_bool ops transact CHMOD_FILE
     (\<lambda>data. w_str16 ops mode (w_str16 ops path data))"

definition bp_chmodDir ::
  "'p parcel_ops \<Rightarrow> ('s, 'p) transport \<Rightarrow> str16 \<Rightarrow> str16 \<Rightarrow> ('s, bool) state" where
  "bp_chmodDir ops transact path mode = bp_bool ops transact CHMOD_DIR
     (\<lambda>data. w_str16 ops mode (w_str16 ops path data))"

definition bp_rmFile ::
  "'p parcel_ops \<Rightarrow> ('s, 'p) transport \<Rightarrow> str16 \<Rightarrow> ('s, bool) state" where
  "bp_rmFile ops transact path = bp_bool ops transact RM_FILE
     (\<lambda>data. w_str16 ops path data)"

definition bp_reboot ::
  "'p parcel_ops \<Rightarrow> ('s, 'p) transport \<Rightarrow> ('s, unit) state" where
  "bp_reboot ops transact = bp_void ops transact REBOOT
     (\<lambda>data. data)"

definition bp_shutdown ::
  "'p parcel_ops \<Rightarrow> ('s, 'p) transport \<Rightarrow> ('s, unit) state" where
  "bp_shutdown ops transact = bp_void ops transact SHUTDOWN
     (\<lambda>data. data)"

definition bp_getLedStatus ::
  "'p parcel_ops \<Rightarrow> ('s, 'p) transport \<Rightarrow> cint \<Rightarrow> ('s, cint) state" where
  "bp_getLedStatus ops transact color = bp_int ops transact GET_LED_STATUS
     (\<lambda>data. w_int32 ops color data)"

definition bp_setLedStatus ::
  "'p parcel_ops \<Rightarrow> ('s, 'p) transport \<Rightarrow> cint \<Rightarrow> cint \<Rightarrow> ('s, unit) state" where
  "bp_setLedStatus ops transact color st = bp_void ops transact SET_LED_STATUS
     (\<lambda>data. w_int32 ops st (w_int32 ops color data))"

definition bp_setDeviceResolution ::
  "'p parcel_ops \<Rightarrow> ('s, 'p) transport \<Rightarrow> cint \<Rightarrow> cint \<Rightarrow> cint \<Rightarrow> cint \<Rightarrow> ('s, bool) state" where
  "bp_setDeviceResolution ops transact xres yres refresh flag = bp_bool ops transact SET_DEVICE_RESOLUTION
     (\<lambda>data. w_int32 ops flag (w_int32 ops refresh (w_int32 ops yres (w_int32 ops xres data))))"

definition bp_getCurrentResolution_block ::
  "'p parcel_ops \<Rightarrow> ('s, 'p) transport \<Rightarrow> ('s, str16) state" where
  "bp_getCurrentResolution_block ops transact = bp_str ops transact GET_CURRENT_RESOLUTION_BLOCK
     (\<lambda>data. data)"

definition bp_getSupportResolution ::
  "'p parcel_ops \<Rightarrow> ('s, 'p) transport \<Rightarrow> ('s, str16) state" where
  "bp_getSupportResolution ops transact = bp_str ops transact GET_SUPPORT_RESOLUTION
     (\<lambda>data. data)"

definition bp_getPropertyValue ::
  "'p parcel_ops \<Rightarrow> ('s, 'p) transport \<Rightarrow> str16 \<Rightarrow> ('s, str16) state" where
  "bp_getPropertyValue ops transact key = bp_str ops transact GET_PROPERTY_VALUE
     (\<lambda>data. w_str16 ops key data)"

definition bp_getNetcardState ::
  "'p parcel_ops \<Rightarrow> ('s, 'p) transport \<Rightarrow> ('s, bool) state" where
  "bp_getNetcardState ops transact = bp_bool ops transact GET_NETCARD_STATE
     (\<lambda>data. data)"

definition bp_getNetcardCurSpeed ::
  "'p parcel_ops \<Rightarrow> ('s, 'p) transport \<Rightarrow> ('s, str16) state" where
  "bp_getNetcardCurSpeed ops transact = bp_str ops transact GET_NETCARD_CUR_SPEED
     (\<lambda>data. data)"

definition bp_getNetcardMaxSpeed ::
  "'p parcel_ops \<Rightarrow> ('s, 'p) transport \<Rightarrow> ('s, str16) state" where
  "bp_getNetcardMaxSpeed ops transact = bp_str ops transact GET_NETCARD_MAX_SPEED
     (\<lambda>data. data)"

definition bp_startAvahi ::
  "'p parcel_ops \<Rightarrow> ('s, 'p) transport \<Rightarrow> ('s, unit) state" where
  "bp_startAvahi ops transact = bp_void ops transact START_AVAHI
     (\<lambda>data. data)"

definition bp_stopAvahi ::
  "'p parcel_ops \<Rightarrow> ('s, 'p) transport \<Rightarrow> ('s, unit) state" where
  "bp_stopAvahi ops transact = bp_void ops transact STOP_AVAHI
     (\<lambda>data. data)"

definition bp_checkIpConflict_block ::
  "'p parcel_ops \<Rightarrow> ('s, 'p) transport \<Rightarrow> str16 \<Rightarrow> ('s, str16) state" where
  "bp_checkIpConflict_block ops transact ip = bp_str ops transact CHECK_IP_CONFLICT_BLOCK
     (\<lambda>data. w_str16 ops ip data)"

definition bp_ping_block ::
  "'p parcel_ops \<Rightarrow> ('s, 'p) transport \<Rightarrow> str16 \<Rightarrow> cint \<Rightarrow> cint \<Rightarrow> cint \<Rightarrow> ('s, str16) state" where
  "bp_ping_block ops transact ip count timeout deadline = bp_str ops transact PING_BLOCK
     (\<lambda>data. w_int32 ops deadline (w_int32 ops timeout (w_int32 ops count (w_str16 ops ip data))))"

definition bp_checkBandwidth_block ::
  "'p parcel_ops \<Rightarrow> ('s, 'p) transport \<Rightarrow> str16 \<Rightarrow> str16 \<Rightarrow> str16 \<Rightarrow> ('s, str16) state" where
  "bp_checkBandwidth_block ops transact serverIp user code = bp_str ops transact CHECK_BANDWIDTH_BLOCK
     (\<lambda>data. w_str16 ops code (w_str16 ops user (w_str16 ops serverIp data)))"

definition bp_getOtaResult ::
  "'p parcel_ops \<Rightarrow> ('s, 'p) transport \<Rightarrow> ('s, bool) state" where
  "bp_getOtaResult ops transact = bp_bool ops transact GET_OTA_RESULT
     (\<lambda>data. data)"

definition bp_isProcessRunning ::
  "'p parcel_ops \<Rightarrow> ('s, 'p) transport \<Rightarrow> str16 \<Rightarrow> ('s, bool) state" where
  "bp_isProcessRunning ops transact processname = bp_bool ops transact IS_PROCESS_RUNNING
     (\<lambda>data. w_str16 ops processname data)"

definition bp_getProcessId ::
  "'p parcel_ops \<Rightarrow> ('s, 'p) transport \<Rightarrow> str16 \<Rightarrow> ('s, str16) state" where
  "bp_getProcessId ops transact processname = bp_str ops transact GET_PROCESS_ID
     (\<lambda>data. w_str16 ops processname data)"

definition bp_killByProcessName ::
  "'p parcel_ops \<Rightarrow> ('s, 'p) transport \<Rightarrow> str16 \<Rightarrow> ('s, unit) state" where
  "bp_killByProcessName ops transact processname = bp_void ops transact KILL_PROCESS_BY_NAME
     (\<lambda>data. w_str16 ops processname data)"

lemmas bp_defs =
  bp_getCpuInfo_def bp_getAndroidVersion_def bp_getSystemVersion_def
  bp_getSerialNumber_def bp_getProductType_def bp_getHardwareVesion_def
  bp_getProductId_def bp_getProductName_def bp_getBaseboardInfo_def
  bp_getMemoryInfo_def bp_getStorageInfo_def bp_setPowerState_def
  bp_getPowerState_def bp_collectLogFiles_block_def bp_chmodFile_def
  bp_chmodDir_def bp_rmFile_def bp_reboot_def
  bp_shutdown_def bp_getLedStatus_def bp_setLedStatus_def
  bp_setDeviceResolution_def bp_getCurrentResolution_block_def bp_getSupportResolution_def
  bp_getPropertyValue_def bp_getNetcardState_def bp_getNetcardCurSpeed_def
  bp_getNetcardMaxSpeed_def bp_startAvahi_def bp_stopAvahi_def
  bp_checkIpConflict_block_def bp_ping_block_def bp_checkBandwidth_block_def
  bp_getOtaResult_def bp_isProcessRunning_def bp_getProcessId_def
  bp_killByProcessName_def

text \<open>The proxy object: the interface with every function overridden.\<close>

definition BpRjcoreService :: "'p parcel_ops \<Rightarrow> ('s, 'p) transport \<Rightarrow> 's irjcore" where
  "BpRjcoreService ops transact = \<lparr>
     i_getCpuInfo = bp_getCpuInfo ops transact,
     i_getAndroidVersion = bp_getAndroidVersion ops transact,
     i_getSystemVersion = bp_getSystemVersion ops transact,
     i_getSerialNumber = bp_getSerialNumber ops transact,
     i_getProductType = bp_getProductType ops transact,
     i_getHardwareVesion = bp_getHardwareVesion ops transact,
     i_getProductId = bp_getProductId ops transact,
     i_getProductName = bp_getProductName ops transact,
     i_getBaseboardInfo = bp_getBaseboardInfo ops transact,
     i_getMemoryInfo = bp_getMemoryInfo ops transact,
     i_getStorageInfo = bp_getStorageInfo ops transact,
     i_setPowerState = bp_setPowerState ops transact,
     i_getPowerState = bp_getPowerState ops transact,
     i_collectLogFiles_block = bp_collectLogFiles_block ops transact,
     i_chmodFile = bp_chmodFile ops transact,
     i_chmodDir = bp_chmodDir ops transact,
     i_rmFile = bp_rmFile ops transact,
     i_reboot = bp_reboot ops transact,
     i_shutdown = bp_shutdown ops transact,
     i_getLedStatus = bp_getLedStatus ops transact,
     i_setLedStatus = bp_setLedStatus ops transact,
     i_setDeviceResolution = bp_setDeviceResolution ops transact,
     i_getCurrentResolution_block = bp_getCurrentResolution_block ops transact,
     i_getSupportResolution = bp_getSupportResolution ops transact,
     i_getPropertyValue = bp_getPropertyValue ops transact,
     i_getNetcardState = bp_getNetcardState ops transact,
     i_getNetcardCurSpeed = bp_getNetcardCurSpeed ops transact,
     i_getNetcardMaxSpeed = bp_getNetcardMaxSpeed ops transact,
     i_startAvahi = bp_startAvahi ops transact,
     i_stopAvahi = bp_stopAvahi ops transact,
     i_checkIpConflict_block = bp_checkIpConflict_block ops transact,
     i_ping_block = bp_ping_block ops transact,
     i_checkBandwidth_block = bp_checkBandwidth_block ops transact,
     i_getOtaResult = bp_getOtaResult ops transact,
     i_isProcessRunning = bp_isProcessRunning ops transact,
     i_getProcessId = bp_getProcessId ops transact,
     i_killByProcessName = bp_killByProcessName ops transact \<rparr>"

end
