(* ===== verification/Stub.thy ===== *)
theory Stub
  imports Proxy
begin

text \<open>
  \<open>BnRjcoreService::onTransact\<close>, the server side of \<open>IRjcoreService.cpp\<close>: the switch over
  the transaction code, the check of the interface token, the arguments read from the
  parcel, the call of the virtual function and the answer written back.
\<close>

datatype status = NO_ERROR | PERMISSION_DENIED | OTHER_STATUS int

text \<open>
  Several arguments are read inside one argument list, and C++ leaves the order of those
  reads open.  The two orders compilers use are \<open>LeftToRight\<close> and \<open>RightToLeft\<close>.
\<close>

datatype arg_order = LeftToRight | RightToLeft

definition args2 ::
  "arg_order \<Rightarrow> ('p \<Rightarrow> 'a \<times> 'p) \<Rightarrow> ('p \<Rightarrow> 'b \<times> 'p) \<Rightarrow> 'p \<Rightarrow> 'a \<times> 'b" where
  "args2 ord ra rb p =
     (case ord of
        LeftToRight \<Rightarrow> (let (a, p1) = ra p; (b, p2) = rb p1 in (a, b))
      | RightToLeft \<Rightarrow> (let (b, p1) = rb p; (a, p2) = ra p1 in (a, b)))"

definition args3 ::
  "arg_order \<Rightarrow> ('p \<Rightarrow> 'a \<times> 'p) \<Rightarrow> ('p \<Rightarrow> 'b \<times> 'p) \<Rightarrow> ('p \<Rightarrow> 'c \<times> 'p) \<Rightarrow> 'p \<Rightarrow> 'a \<times> 'b \<times> 'c" where
  "args3 ord ra rb rc p =
     (case ord of
        LeftToRight \<Rightarrow> (let (a, p1) = ra p; (b, p2) = rb p1; (c, p3) = rc p2 in (a, b, c))
      | RightToLeft \<Rightarrow> (let (c, p1) = rc p; (b, p2) = rb p1; (a, p3) = ra p2 in (a, b, c)))"

definition args4 ::
  "arg_order \<Rightarrow> ('p \<Rightarrow> 'a \<times> 'p) \<Rightarrow> ('p \<Rightarrow> 'b \<times> 'p) \<Rightarrow> ('p \<Rightarrow> 'c \<times> 'p) \<Rightarrow> ('p \<Rightarrow> 'd \<times> 'p) \<Rightarrow>
     'p \<Rightarrow> 'a \<times> 'b \<times> 'c \<times> 'd" where
  "args4 ord ra rb rc rd p =
     (case ord of
        LeftToRight \<Rightarrow> (let (a, p1) = ra p; (b, p2) = rb p1; (c, p3) = rc p2; (d, p4) = rd p3
                       in (a, b, c, d))
      | RightToLeft \<Rightarrow> (let (d, p1) = rd p; (c, p2) = rc p1; (b, p3) = rb p2; (a, p4) = ra p3
                       in (a, b, c, d)))"

section \<open>One case of the switch\<close>

text \<open>
  \<open>CHECK_INTERFACE\<close>, then the call with the arguments read from \<open>d\<close>, then the reply: no
  exception and the result.
\<close>

type_synonym ('s, 'p) transacted = "('s, status \<times> 'p) state"

definition check_interface ::
  "'p parcel_ops \<Rightarrow> 'p \<Rightarrow> 'p \<Rightarrow> ('p \<Rightarrow> ('s, 'p) transacted) \<Rightarrow> ('s, 'p) transacted" where
  "check_interface ops data reply k =
     (case enforce ops descriptor data of
        (ok, d) \<Rightarrow> if \<not> ok then State_Monad.return (PERMISSION_DENIED, reply) else k d)"

definition serve_str ::
  "'p parcel_ops \<Rightarrow> 'p \<Rightarrow> 'p \<Rightarrow> ('p \<Rightarrow> ('s, str16) state) \<Rightarrow> ('s, 'p) transacted" where
  "serve_str ops data reply call = check_interface ops data reply (\<lambda>d. do {
     info \<leftarrow> call d;
     State_Monad.return (NO_ERROR, w_str16 ops info (w_noexc ops reply)) })"

definition serve_int ::
  "'p parcel_ops \<Rightarrow> 'p \<Rightarrow> 'p \<Rightarrow> ('p \<Rightarrow> ('s, cint) state) \<Rightarrow> ('s, 'p) transacted" where
  "serve_int ops data reply call = check_interface ops data reply (\<lambda>d. do {
     st \<leftarrow> call d;
     State_Monad.return (NO_ERROR, w_int32 ops st (w_noexc ops reply)) })"

definition serve_bool ::
  "'p parcel_ops \<Rightarrow> 'p \<Rightarrow> 'p \<Rightarrow> ('p \<Rightarrow> ('s, bool) state) \<Rightarrow> ('s, 'p) transacted" where
  "serve_bool ops data reply call = check_interface ops data reply (\<lambda>d. do {
     st \<leftarrow> call d;
     State_Monad.return (NO_ERROR, w_int32 ops (of_bool st) (w_noexc ops reply)) })"

definition serve_void ::
  "'p parcel_ops \<Rightarrow> 'p \<Rightarrow> 'p \<Rightarrow> ('p \<Rightarrow> ('s, unit) state) \<Rightarrow> ('s, 'p) transacted" where
  "serve_void ops data reply call = check_interface ops data reply (\<lambda>d. do {
     _ \<leftarrow> call d;
     State_Monad.return (NO_ERROR, w_noexc ops reply) })"

lemmas serve_defs = serve_str_def serve_int_def serve_bool_def serve_void_def

section \<open>The switch\<close>

text \<open>
  The case labels in the groups the source has them; a group answers \<open>None\<close> for a label
  that is not its own.
\<close>

definition product_info_cases ::
  "'p parcel_ops \<Rightarrow> arg_order \<Rightarrow> 's irjcore \<Rightarrow> 'p \<Rightarrow> 'p \<Rightarrow> txn \<Rightarrow> ('s, 'p) transacted option" where
  "product_info_cases ops ord I data reply t =
     (case t of
        GET_CPU_INFO \<Rightarrow> Some (serve_str ops data reply (\<lambda>d. i_getCpuInfo I))
      | GET_ANDROID_VERSION \<Rightarrow> Some (serve_str ops data reply (\<lambda>d. i_getAndroidVersion I))
      | GET_SYSTEM_VERSION \<Rightarrow> Some (serve_str ops data reply (\<lambda>d. i_getSystemVersion I))
      | GET_SERIAL_NUMBER \<Rightarrow> Some (serve_str ops data reply (\<lambda>d. i_getSerialNumber I))
      | GET_PRODUCT_TYPE \<Rightarrow> Some (serve_str ops data reply (\<lambda>d. i_getProductType I))
      | GET_HARDWARE_VERSION \<Rightarrow> Some (serve_str ops data reply (\<lambda>d. i_getHardwareVesion I))
      | GET_PRODUCT_ID \<Rightarrow> Some (serve_str ops data reply (\<lambda>d. i_getProductId I))
      | GET_PRODUCT_NAME \<Rightarrow> Some (serve_str ops data reply (\<lambda>d. i_getProductName I))
      | GET_BASEBOARD_INFO \<Rightarrow> Some (serve_str ops data reply (\<lambda>d. i_getBaseboardInfo I))
      | GET_MEMORY_INFO \<Rightarrow> Some (serve_str ops data reply (\<lambda>d. i_getMemoryInfo I))
      | GET_STORAGE_INFO \<Rightarrow> Some (serve_str ops data reply (\<lambda>d. i_getStorageInfo I))
      | _ \<Rightarrow> None)"

definition product_control_cases ::
  "'p parcel_ops \<Rightarrow> arg_order \<Rightarrow> 's irjcore \<Rightarrow> 'p \<Rightarrow> 'p \<Rightarrow> txn \<Rightarrow> ('s, 'p) transacted option" where
  "product_control_cases ops ord I data reply t =
     (case t of
        SET_POWER_STATE \<Rightarrow> Some (serve_void ops data reply (\<lambda>d. i_setPowerState I (fst (r_int32 ops d))))
      | GET_POWER_STATE \<Rightarrow> Some (serve_int ops data reply (\<lambda>d. i_getPowerState I))
      | COLLECT_LOG_FILES_BLOCK \<Rightarrow> Some (serve_bool ops data reply (\<lambda>d. i_collectLogFiles_block I (fst (r_str16 ops d))))
      | CHMOD_FILE \<Rightarrow> Some (serve_bool ops data reply (\<lambda>d. case args2 ord (r_str16 ops) (r_str16 ops) d of (a, b) \<Rightarrow> i_chmodFile I a b))
      | CHMOD_DIR \<Rightarrow> Some (serve_bool ops data reply (\<lambda>d. case args2 ord (r_str16 ops) (r_str16 ops) d of (a, b) \<Rightarrow> i_chmodDir I a b))
      | RM_FILE \<Rightarrow> Some (serve_bool ops data reply (\<lambda>d. i_rmFile I (fst (r_str16 ops d))))
      | REBOOT \<Rightarrow> Some (serve_void ops data reply (\<lambda>d. i_reboot I))
      | SHUTDOWN \<Rightarrow> Some (serve_void ops data reply (\<lambda>d. i_shutdown I))
      | GET_LED_STATUS \<Rightarrow> Some (serve_int ops data reply (\<lambda>d. i_getLedStatus I (fst (r_int32 ops d))))
      | SET_LED_STATUS \<Rightarrow> Some (serve_void ops data reply (\<lambda>d. case args2 ord (r_int32 ops) (r_int32 ops) d of (a, b) \<Rightarrow> i_setLedStatus I a b))
      | SET_DEVICE_RESOLUTION \<Rightarrow> Some (serve_bool ops data reply (\<lambda>d. case args4 ord (r_int32 ops) (r_int32 ops) (r_int32 ops) (r_int32 ops) d of (a, b, c, d) \<Rightarrow> i_setDeviceResolution I a b c d))
      | GET_CURRENT_RESOLUTION_BLOCK \<Rightarrow> Some (serve_str ops data reply (\<lambda>d. i_getCurrentResolution_block I))
      | GET_SUPPORT_RESOLUTION \<Rightarrow> Some (serve_str ops data reply (\<lambda>d. i_getSupportResolution I))
      | GET_PROPERTY_VALUE \<Rightarrow> Some (serve_str ops data reply (\<lambda>d. i_getPropertyValue I (fst (r_str16 ops d))))
      | _ \<Rightarrow> None)"

definition network_cases ::
  "'p parcel_ops \<Rightarrow> arg_order \<Rightarrow> 's irjcore \<Rightarrow> 'p \<Rightarrow> 'p \<Rightarrow> txn \<Rightarrow> ('s, 'p) transacted option" where
  "network_cases ops ord I data reply t =
     (case t of
        GET_NETCARD_STATE \<Rightarrow> Some (serve_bool ops data reply (\<lambda>d. i_getNetcardState I))
      | GET_NETCARD_CUR_SPEED \<Rightarrow> Some (serve_str ops data reply (\<lambda>d. i_getNetcardCurSpeed I))
      | GET_NETCARD_MAX_SPEED \<Rightarrow> Some (serve_str ops data reply (\<lambda>d. i_getNetcardMaxSpeed I))
      | START_AVAHI \<Rightarrow> Some (serve_void ops data reply (\<lambda>d. i_startAvahi I))
      | STOP_AVAHI \<Rightarrow> Some (serve_void ops data reply (\<lambda>d. i_stopAvahi I))
      | CHECK_IP_CONFLICT_BLOCK \<Rightarrow> Some (serve_str ops data reply (\<lambda>d. i_checkIpConflict_block I (fst (r_str16 ops d))))
      | PING_BLOCK \<Rightarrow> Some (serve_str ops data reply (\<lambda>d. case args4 ord (r_str16 ops) (r_int32 ops) (r_int32 ops) (r_int32 ops) d of (a, b, c, d) \<Rightarrow> i_ping_block I a b c d))
      | CHECK_BANDWIDTH_BLOCK \<Rightarrow> Some (serve_str ops data reply (\<lambda>d. case args3 ord (r_str16 ops) (r_str16 ops) (r_str16 ops) d of (a, b, c) \<Rightarrow> i_checkBandwidth_block I a b c))
      | _ \<Rightarrow> None)"

definition control_cases ::
  "'p parcel_ops \<Rightarrow> arg_order \<Rightarrow> 's irjcore \<Rightarrow> 'p \<Rightarrow> 'p \<Rightarrow> txn \<Rightarrow> ('s, 'p) transacted option" where
  "control_cases ops ord I data reply t =
     (case t of
        GET_OTA_RESULT \<Rightarrow> Some (serve_bool ops data reply (\<lambda>d. i_getOtaResult I))
      | _ \<Rightarrow> None)"

definition application_cases ::
  "'p parcel_ops \<Rightarrow> arg_order \<Rightarrow> 's irjcore \<Rightarrow> 'p \<Rightarrow> 'p \<Rightarrow> txn \<Rightarrow> ('s, 'p) transacted option" where
  "application_cases ops ord I data reply t =
     (case t of
        IS_PROCESS_RUNNING \<Rightarrow> Some (serve_bool ops data reply (\<lambda>d. i_isProcessRunning I (fst (r_str16 ops d))))
      | GET_PROCESS_ID \<Rightarrow> Some (serve_str ops data reply (\<lambda>d. i_getProcessId I (fst (r_str16 ops d))))
      | KILL_PROCESS_BY_NAME \<Rightarrow> Some (serve_void ops data reply (\<lambda>d. i_killByProcessName I (fst (r_str16 ops d))))
      | _ \<Rightarrow> None)"

lemmas cases_defs = product_info_cases_def product_control_cases_def network_cases_def control_cases_def application_cases_def

definition run_case ::
  "'p parcel_ops \<Rightarrow> arg_order \<Rightarrow> 's irjcore \<Rightarrow> 'p \<Rightarrow> 'p \<Rightarrow> txn \<Rightarrow> ('s, 'p) transacted option" where
  "run_case ops ord I data reply t =
     (case product_info_cases ops ord I data reply t of Some m \<Rightarrow> Some m | None \<Rightarrow>
     (case product_control_cases ops ord I data reply t of Some m \<Rightarrow> Some m | None \<Rightarrow>
     (case network_cases ops ord I data reply t of Some m \<Rightarrow> Some m | None \<Rightarrow>
     (case control_cases ops ord I data reply t of Some m \<Rightarrow> Some m | None \<Rightarrow>
      application_cases ops ord I data reply t))))"

text \<open>\<open>BBinder::onTransact\<close>, the default, is \<open>libbinder\<close>'s: the argument \<open>parent\<close>.\<close>

definition onTransact ::
  "'p parcel_ops \<Rightarrow> arg_order \<Rightarrow> 's irjcore \<Rightarrow> (32 word \<Rightarrow> 'p \<Rightarrow> 'p \<Rightarrow> ('s, 'p) transacted) \<Rightarrow>
     32 word \<Rightarrow> 'p \<Rightarrow> 'p \<Rightarrow> ('s, 'p) transacted" where
  "onTransact ops ord I parent code data reply =
     (case switch code of
        None \<Rightarrow> parent code data reply
      | Some t \<Rightarrow> (case run_case ops ord I data reply t of
          Some m \<Rightarrow> m
        | None \<Rightarrow> parent code data reply))"


end
