(* ===== verification/Binder.thy ===== *)
theory Binder
  imports Stub
begin

text \<open>
  The proxy and the stub put together over a transport that keeps its contract, the parcels
  the witnesses are evaluated on, and the frame of a server: what every operation respects,
  every sequence of transactions respects.
\<close>

section \<open>Client and server together\<close>

text \<open>
  What the binder driver promises of a synchronous call: the server's \<open>onTransact\<close> runs on
  the parcel from its start and an empty reply, and the client reads that reply from its start.
\<close>

definition delivers ::
  "'p parcel_ops \<Rightarrow> (32 word \<Rightarrow> 'p \<Rightarrow> 'p \<Rightarrow> ('s, 'p) transacted) \<Rightarrow> ('s, 'p) transport \<Rightarrow> bool" where
  "delivers ops stub transact \<longleftrightarrow> (\<forall>code data. transact code data = do {
     r \<leftarrow> stub code (rewind ops data) (p_new ops);
     State_Monad.return (rewind ops (snd r)) })"

text \<open>The server finds the token and then the arguments.\<close>

definition holds_args :: "'p parcel_ops \<Rightarrow> ('p \<Rightarrow> item list) \<Rightarrow> ('p \<Rightarrow> 'p) \<Rightarrow> item list \<Rightarrow> bool" where
  "holds_args ops pr put its \<longleftrightarrow>
     pr (rewind ops (put (w_token ops descriptor (p_new ops)))) = IToken descriptor # its"

text \<open>What libbinder's parcels promise, and what its transport promises on top.\<close>

locale parcels =
  fixes ops :: "'p parcel_ops" and pw pr :: "'p \<Rightarrow> item list"
  assumes laws: "parcel_laws ops pw pr"
begin

lemma read_back:
  "fst (r_str16 ops (snd (r_exc ops (rewind ops (w_str16 ops v (w_noexc ops (p_new ops))))))) = v"
  "fst (r_int32 ops (snd (r_exc ops (rewind ops (w_int32 ops n (w_noexc ops (p_new ops))))))) = n"
  using laws by (simp_all add: parcel_laws_def)

lemma check_interface_ok:
  assumes "holds_args ops pr put its" "\<And>d. pr d = its \<Longrightarrow> k d = m"
  shows "check_interface ops (rewind ops (put (w_token ops descriptor (p_new ops)))) reply k = m"
  using assms laws by (simp add: check_interface_def parcel_laws_def holds_args_def case_prod_beta)

lemma args_ltr:
  "pr d = [IStr a, IStr b] \<Longrightarrow> args2 LeftToRight (r_str16 ops) (r_str16 ops) d = (a, b)"
  "pr d = [IInt i, IInt j] \<Longrightarrow> args2 LeftToRight (r_int32 ops) (r_int32 ops) d = (i, j)"
  "pr d = [IStr a, IStr b, IStr c] \<Longrightarrow>
     args3 LeftToRight (r_str16 ops) (r_str16 ops) (r_str16 ops) d = (a, b, c)"
  "pr d = [IInt i, IInt j, IInt k, IInt l] \<Longrightarrow>
     args4 LeftToRight (r_int32 ops) (r_int32 ops) (r_int32 ops) (r_int32 ops) d = (i, j, k, l)"
  "pr d = [IStr a, IInt j, IInt k, IInt l] \<Longrightarrow>
     args4 LeftToRight (r_str16 ops) (r_int32 ops) (r_int32 ops) (r_int32 ops) d = (a, j, k, l)"
  using laws by (simp_all add: args2_def args3_def args4_def parcel_laws_def Let_def case_prod_beta)

lemma args_rtl:
  "pr d = [IStr a, IStr b] \<Longrightarrow> args2 RightToLeft (r_str16 ops) (r_str16 ops) d = (b, a)"
  "pr d = [IInt i, IInt j] \<Longrightarrow> args2 RightToLeft (r_int32 ops) (r_int32 ops) d = (j, i)"
  "pr d = [IStr a, IStr b, IStr c] \<Longrightarrow>
     args3 RightToLeft (r_str16 ops) (r_str16 ops) (r_str16 ops) d = (c, b, a)"
  "pr d = [IInt i, IInt j, IInt k, IInt l] \<Longrightarrow>
     args4 RightToLeft (r_int32 ops) (r_int32 ops) (r_int32 ops) (r_int32 ops) d = (l, k, j, i)"
  using laws by (simp_all add: args2_def args3_def args4_def parcel_laws_def Let_def case_prod_beta)

lemma arg_one:
  "pr d = [IStr a] \<Longrightarrow> fst (r_str16 ops d) = a"
  "pr d = [IInt i] \<Longrightarrow> fst (r_int32 ops d) = i"
  using laws by (simp_all add: parcel_laws_def)

text \<open>A remote that has died: the reply stays empty.\<close>

lemma bp_dead_remote:
  assumes "\<And>code data. transact code data = State_Monad.return r" "pr r = []"
  shows "bp_str ops transact t put = State_Monad.return []"
    and "bp_int ops transact t put = State_Monad.return 0"
    and "bp_bool ops transact t put = State_Monad.return False"
    and "bp_void ops transact t put = State_Monad.return ()"
  using assms laws by (auto intro!: state_ext simp: bp_str_def bp_int_def bp_bool_def bp_void_def
      bp_reply_def parcel_laws_def)

end

locale delivery = parcels ops pw pr
  for ops :: "'p parcel_ops" and pw pr :: "'p \<Rightarrow> item list" +
  fixes stub :: "32 word \<Rightarrow> 'p \<Rightarrow> 'p \<Rightarrow> ('s, 'p) transacted" and transact :: "('s, 'p) transport"
  assumes delivered: "delivers ops stub transact"
begin

text \<open>A call the stub serves with \<open>call\<close>, writing the result with \<open>put_res\<close>.\<close>

lemma bp_reply_serve:
  assumes S: "\<And>data reply. stub (code_of t) data reply = check_interface ops data reply (\<lambda>d. do {
      x \<leftarrow> call d; State_Monad.return (NO_ERROR, put_res x (w_noexc ops reply)) })"
    and P: "holds_args ops pr put its" and C: "\<And>d. pr d = its \<Longrightarrow> call d = m"
  shows "bp_reply ops transact t put = do {
    x \<leftarrow> m; State_Monad.return (snd (r_exc ops (rewind ops (put_res x (w_noexc ops (p_new ops)))))) }"
proof -
  have "stub (code_of t) (rewind ops (put (w_token ops descriptor (p_new ops)))) (p_new ops) =
      do { x \<leftarrow> m; State_Monad.return (NO_ERROR, put_res x (w_noexc ops (p_new ops))) }"
    unfolding S by (rule check_interface_ok [OF P]) (simp add: C)
  then show ?thesis
    using delivered by (intro state_ext) (simp add: bp_reply_def delivers_def case_prod_beta)
qed

lemma bp_str_serve:
  assumes "\<And>data reply. stub (code_of t) data reply = serve_str ops data reply call"
    "holds_args ops pr put its" "\<And>d. pr d = its \<Longrightarrow> call d = m"
  shows "bp_str ops transact t put = m"
  using bp_reply_serve [OF assms(1) [unfolded serve_str_def] assms(2,3)]
  by (intro state_ext) (simp add: bp_str_def case_prod_beta read_back)

lemma bp_int_serve:
  assumes "\<And>data reply. stub (code_of t) data reply = serve_int ops data reply call"
    "holds_args ops pr put its" "\<And>d. pr d = its \<Longrightarrow> call d = m"
  shows "bp_int ops transact t put = m"
  using bp_reply_serve [OF assms(1) [unfolded serve_int_def] assms(2,3)]
  by (intro state_ext) (simp add: bp_int_def case_prod_beta read_back)

lemma bp_bool_serve:
  assumes "\<And>data reply. stub (code_of t) data reply = serve_bool ops data reply call"
    "holds_args ops pr put its" "\<And>d. pr d = its \<Longrightarrow> call d = m"
  shows "bp_bool ops transact t put = m"
  using bp_reply_serve [where put_res = "\<lambda>b. w_int32 ops (of_bool b)", OF assms(1) [unfolded serve_bool_def] assms(2,3)]
  by (intro state_ext) (simp add: bp_bool_def case_prod_beta read_back)

lemma bp_void_serve:
  assumes "\<And>data reply. stub (code_of t) data reply = serve_void ops data reply call"
    "holds_args ops pr put its" "\<And>d. pr d = its \<Longrightarrow> call d = m"
  shows "bp_void ops transact t put = m"
  using bp_reply_serve [where put_res = "\<lambda>_ p. p", OF assms(1) [unfolded serve_void_def] assms(2,3)]
  by (intro state_ext) (simp add: bp_void_def case_prod_beta)

lemmas bp_serve = bp_str_serve bp_int_serve bp_bool_serve bp_void_serve

end

section \<open>The frame of a server\<close>

text \<open>
  A server whose every operation respects a relation on the state: so does each
  transaction, and so does every sequence of them.
\<close>

lemma keeps_respond [simp]: "keeps R (respond c m) = keeps R m"
  by (simp add: keeps_def respond_def case_prod_beta)

text \<open>Requests one after the other, as a binder thread takes them.\<close>

fun serve_requests ::
  "(32 word \<Rightarrow> 'p \<Rightarrow> 'p \<Rightarrow> ('s, 'p) transacted) \<Rightarrow> 'p \<Rightarrow> (32 word \<times> 'p) list \<Rightarrow>
     ('s, (status \<times> 'p) list) state" where
  "serve_requests stub empty_reply [] = State_Monad.return []"
| "serve_requests stub empty_reply ((code, data) # qs) = do {
     a \<leftarrow> stub code data empty_reply;
     as \<leftarrow> serve_requests stub empty_reply qs;
     State_Monad.return (a # as) }"

lemmas stub_call = onTransact_def run_case_def cases_defs

locale irjcore_frame = frame R
  for R :: "'s \<Rightarrow> 's \<Rightarrow> bool" +
  fixes I :: "'s irjcore"
  assumes perform_keeps: "keeps R (perform I q)"
begin

lemmas member_keeps =
  perform_keeps [of Req_getCpuInfo, unfolded perform.simps keeps_respond]
  perform_keeps [of Req_getAndroidVersion, unfolded perform.simps keeps_respond]
  perform_keeps [of Req_getSystemVersion, unfolded perform.simps keeps_respond]
  perform_keeps [of Req_getSerialNumber, unfolded perform.simps keeps_respond]
  perform_keeps [of Req_getProductType, unfolded perform.simps keeps_respond]
  perform_keeps [of Req_getHardwareVesion, unfolded perform.simps keeps_respond]
  perform_keeps [of Req_getProductId, unfolded perform.simps keeps_respond]
  perform_keeps [of Req_getProductName, unfolded perform.simps keeps_respond]
  perform_keeps [of Req_getBaseboardInfo, unfolded perform.simps keeps_respond]
  perform_keeps [of Req_getMemoryInfo, unfolded perform.simps keeps_respond]
  perform_keeps [of Req_getStorageInfo, unfolded perform.simps keeps_respond]
  perform_keeps [of "Req_setPowerState a" for a, unfolded perform.simps keeps_respond]
  perform_keeps [of Req_getPowerState, unfolded perform.simps keeps_respond]
  perform_keeps [of "Req_collectLogFiles_block a" for a, unfolded perform.simps keeps_respond]
  perform_keeps [of "Req_chmodFile a b" for a b, unfolded perform.simps keeps_respond]
  perform_keeps [of "Req_chmodDir a b" for a b, unfolded perform.simps keeps_respond]
  perform_keeps [of "Req_rmFile a" for a, unfolded perform.simps keeps_respond]
  perform_keeps [of Req_reboot, unfolded perform.simps keeps_respond]
  perform_keeps [of Req_shutdown, unfolded perform.simps keeps_respond]
  perform_keeps [of "Req_getLedStatus a" for a, unfolded perform.simps keeps_respond]
  perform_keeps [of "Req_setLedStatus a b" for a b, unfolded perform.simps keeps_respond]
  perform_keeps [of "Req_setDeviceResolution a b c d" for a b c d, unfolded perform.simps keeps_respond]
  perform_keeps [of Req_getCurrentResolution_block, unfolded perform.simps keeps_respond]
  perform_keeps [of Req_getSupportResolution, unfolded perform.simps keeps_respond]
  perform_keeps [of "Req_getPropertyValue a" for a, unfolded perform.simps keeps_respond]
  perform_keeps [of Req_getNetcardState, unfolded perform.simps keeps_respond]
  perform_keeps [of Req_getNetcardCurSpeed, unfolded perform.simps keeps_respond]
  perform_keeps [of Req_getNetcardMaxSpeed, unfolded perform.simps keeps_respond]
  perform_keeps [of Req_startAvahi, unfolded perform.simps keeps_respond]
  perform_keeps [of Req_stopAvahi, unfolded perform.simps keeps_respond]
  perform_keeps [of "Req_checkIpConflict_block a" for a, unfolded perform.simps keeps_respond]
  perform_keeps [of "Req_ping_block a b c d" for a b c d, unfolded perform.simps keeps_respond]
  perform_keeps [of "Req_checkBandwidth_block a b c" for a b c, unfolded perform.simps keeps_respond]
  perform_keeps [of Req_getOtaResult, unfolded perform.simps keeps_respond]
  perform_keeps [of "Req_isProcessRunning a" for a, unfolded perform.simps keeps_respond]
  perform_keeps [of "Req_getProcessId a" for a, unfolded perform.simps keeps_respond]
  perform_keeps [of "Req_killByProcessName a" for a, unfolded perform.simps keeps_respond]

lemma keeps_serve:
  "(\<And>d. keeps R (cs d)) \<Longrightarrow> keeps R (serve_str ops data reply cs)"
  "(\<And>d. keeps R (ci d)) \<Longrightarrow> keeps R (serve_int ops data reply ci)"
  "(\<And>d. keeps R (cb d)) \<Longrightarrow> keeps R (serve_bool ops data reply cb)"
  "(\<And>d. keeps R (cv d)) \<Longrightarrow> keeps R (serve_void ops data reply cv)"
  by (auto simp: serve_defs check_interface_def intro!: keeps_rules)

lemma keeps_run_case: "run_case ops ord I data reply t = Some m \<Longrightarrow> keeps R m"
  by (cases t) (auto simp: stub_call intro!: keeps_serve keeps_prod member_keeps)

lemma keeps_onTransact:
  assumes "\<And>code data reply. keeps R (parent code data reply)"
  shows "keeps R (onTransact ops ord I parent code data reply)"
  using assms by (auto simp: onTransact_def intro: keeps_run_case split: option.split)

lemma keeps_serve_requests:
  "(\<And>code data reply. keeps R (stub code data reply)) \<Longrightarrow> keeps R (serve_requests stub empty_reply qs)"
  by (induction qs) (auto intro!: keeps_rules)

end

text \<open>
  With the arguments read in the order they were written, the proxy is the service; read in the
  other order it is the service with the arguments of five functions reversed.
\<close>

lemma proxy_is_interface:
  assumes L: "parcel_laws ops pw pr" and D: "delivers ops (onTransact ops LeftToRight I parent) transact"
  shows "BpRjcoreService ops transact = I"
proof -
  note par = parcels.intro [OF L]
  note serve = delivery.bp_serve [OF delivery.intro [OF par delivery_axioms.intro [OF D]]]
  show ?thesis
    by (rule irjcore.equality; (intro ext)?; (unfold BpRjcoreService_def irjcore.simps bp_defs)?)
       (rule refl | simp; fail | (rule serve, simp add: stub_call,
         use L in \<open>simp add: holds_args_def parcel_laws_def\<close>,
         simp add: parcels.args_ltr [OF par] parcels.arg_one [OF par]; fail))+
qed

definition reversed_args :: "'s irjcore \<Rightarrow> 's irjcore" where
  "reversed_args I = I \<lparr>
     i_chmodFile := (\<lambda>path mode. i_chmodFile I mode path),
     i_chmodDir := (\<lambda>path mode. i_chmodDir I mode path),
     i_setLedStatus := (\<lambda>color st. i_setLedStatus I st color),
     i_setDeviceResolution := (\<lambda>xres yres refresh flag. i_setDeviceResolution I flag refresh yres xres),
     i_checkBandwidth_block := (\<lambda>serverIp user code. i_checkBandwidth_block I code user serverIp) \<rparr>"

lemma proxy_is_reversed:
  assumes L: "parcel_laws ops pw pr" and D: "delivers ops (onTransact ops RightToLeft I parent) transact"
  shows "BpRjcoreService ops transact =
    reversed_args I \<lparr> i_ping_block := bp_ping_block ops transact \<rparr>"
proof -
  note par = parcels.intro [OF L]
  note serve = delivery.bp_serve [OF delivery.intro [OF par delivery_axioms.intro [OF D]]]
  show ?thesis
    by (rule irjcore.equality; (intro ext)?; (unfold BpRjcoreService_def reversed_args_def irjcore.simps)?)
       (rule refl | simp; fail | (unfold bp_defs, rule serve, simp add: stub_call,
         use L in \<open>simp add: holds_args_def parcel_laws_def\<close>,
         simp add: parcels.args_rtl [OF par] parcels.arg_one [OF par]; fail))+
qed

lemma run_case_total: "\<exists>m. run_case ops ord I data reply t = Some m"
  by (cases t) (simp_all add: stub_call)

lemma onTransact_denied:
  assumes "\<not> fst (enforce ops descriptor data)" "switch code = Some t"
  shows "onTransact ops ord I parent code data reply = State_Monad.return (PERMISSION_DENIED, reply)"
  using assms(1) unfolding onTransact_def assms(2)
  by (cases t) (simp_all add: run_case_def cases_defs serve_defs check_interface_def case_prod_beta)

text \<open>The effect of one case on the reply: an accepted call answers with no exception first.\<close>

lemma onTransact_status:
  "res_of (onTransact ops ord I parent (code_of t) data reply) s =
     (if fst (enforce ops descriptor data)
      then (NO_ERROR, snd (res_of (onTransact ops ord I parent (code_of t) data reply) s))
      else (PERMISSION_DENIED, reply))"
  by (cases t) (simp_all add: stub_call serve_defs check_interface_def case_prod_beta)

section \<open>Parcels to compute with\<close>

text \<open>A parcel as the items written and the items still to be read.\<close>

type_synonym list_parcel = "item list \<times> item list"

definition list_ops :: "list_parcel parcel_ops" where
  "list_ops = \<lparr>
     p_new = ([], []),
     w_token = (\<lambda>d p. (fst p @ [IToken d], snd p)),
     w_int32 = (\<lambda>v p. (fst p @ [IInt v], snd p)),
     w_str16 = (\<lambda>v p. (fst p @ [IStr v], snd p)),
     w_noexc = (\<lambda>p. (fst p @ [INoExc], snd p)),
     enforce = (\<lambda>d p. case snd p of IToken d' # r \<Rightarrow> (d' = d, (fst p, r)) | _ \<Rightarrow> (False, p)),
     r_int32 = (\<lambda>p. case snd p of IInt v # r \<Rightarrow> (v, (fst p, r)) | _ \<Rightarrow> (0, p)),
     r_str16 = (\<lambda>p. case snd p of IStr v # r \<Rightarrow> (v, (fst p, r)) | _ \<Rightarrow> ([], p)),
     r_exc = (\<lambda>p. case snd p of INoExc # r \<Rightarrow> (0, (fst p, r)) | _ \<Rightarrow> (0, p)),
     rewind = (\<lambda>p. (fst p, fst p)) \<rparr>"

lemma list_parcel_laws: "parcel_laws list_ops fst snd"
  by (auto simp: parcel_laws_def list_ops_def)

definition local_transport ::
  "'p parcel_ops \<Rightarrow> (32 word \<Rightarrow> 'p \<Rightarrow> 'p \<Rightarrow> ('s, 'p) transacted) \<Rightarrow> ('s, 'p) transport" where
  "local_transport ops stub code data = do {
     r \<leftarrow> stub code (rewind ops data) (p_new ops);
     State_Monad.return (rewind ops (snd r)) }"

lemma local_transport_delivers: "delivers ops stub (local_transport ops stub)"
  by (simp add: delivers_def local_transport_def)

text \<open>The default of \<open>onTransact\<close> for a code it does not know, as a value to compute with.\<close>

definition unknown_code :: "32 word \<Rightarrow> 'p \<Rightarrow> 'p \<Rightarrow> ('s, 'p) transacted" where
  "unknown_code code data reply = State_Monad.return (OTHER_STATUS (- 74), reply)"

interpretation list_parcels: parcels list_ops fst snd
  by unfold_locales (rule list_parcel_laws)

interpretation local_delivery: delivery list_ops fst snd stub "local_transport list_ops stub" for stub
  by unfold_locales (rule local_transport_delivers)

end
