(* ===== verification/CoreService.thy ===== *)
theory CoreService
  imports Machine
begin

text \<open>
  \<open>RjcoreService.cpp\<close>: running a command and keeping its output (\<open>executeCmd\<close>), running
  a command for its effect (\<open>mySystem\<close>), the board information read from \<open>/proc/sn.info\<close>
  (\<open>readNand\<close>, \<open>getNandStoreInfo\<close>) and the construction of the service.
\<close>

definition INFO_PATH :: string where "INFO_PATH = ''/proc/sn.info''"
definition SERIAL_NUMBER_LEN :: nat where "SERIAL_NUMBER_LEN = 2"
definition PRODUCT_TYPE_OFF :: nat where "PRODUCT_TYPE_OFF = 32"
definition HARDWARE_VERSION_OFF :: nat where "HARDWARE_VERSION_OFF = 48"
definition PRODUCT_ID_OFF :: nat where "PRODUCT_ID_OFF = 58"
definition PRODUCT_ID_LEN :: nat where "PRODUCT_ID_LEN = 4"
definition SIZE_1K :: nat where "SIZE_1K = 1024"
definition SIZE_1K_HALF :: nat where "SIZE_1K_HALF = 512"

lemmas size_defs = SIZE_1K_def SIZE_1K_HALF_def

lemma SIZE_1K_pos: "0 < SIZE_1K"
  by (simp add: size_defs)

lemmas nand_defs = SERIAL_NUMBER_LEN_def PRODUCT_TYPE_OFF_def HARDWARE_VERSION_OFF_def
  PRODUCT_ID_OFF_def PRODUCT_ID_LEN_def

section \<open>executeCmd\<close>

text \<open>
  The loop of \<open>executeCmd\<close>: \<open>n\<close> bytes are free at \<open>pos\<close>, \<open>out\<close> is what the
  pipe still holds.  The length of what \<open>fgets\<close> stored is taken with \<open>strlen\<close>.
\<close>

function fill :: "nat \<Rightarrow> string \<Rightarrow> nat \<Rightarrow> cbuf \<Rightarrow> cbuf" where
  "fill n out pos buf =
     (case fgets n out of
        None \<Rightarrow> buf
      | Some (chunk, rest) \<Rightarrow>
          (let buf' = poke pos (chunk @ [NUL]) buf;
               len = length (cstr (drop pos buf'))
           in if len = 0 then buf' else fill (n - len) rest (pos + len) buf'))"
  by pat_completeness auto
termination
  by (relation "measure (\<lambda>(n, out, pos, buf). n)")
     (auto simp: fgets_def split: if_splits)

declare fill.simps [simp del]

definition executeCmd :: "'w platform \<Rightarrow> string option \<Rightarrow> cbuf \<Rightarrow> nat \<Rightarrow> ('w sys, cbuf) state" where
  "executeCmd P cmd result n =
     (case cmd of
        None \<Rightarrow> State_Monad.return result
      | Some c \<Rightarrow>
          if c = [] then State_Monad.return result
          else do {
            ptr \<leftarrow> popen P c;
            (case ptr of
               None \<Rightarrow> State_Monad.return result
             | Some out \<Rightarrow> do {
                 let buf = fill n out 0 result;
                 note_overrun (length result) buf;
                 emit EPclose;
                 State_Monad.return buf }) })"

text \<open>
  What the callers do around it: format a command into a zeroed local array and pass it on
  as a C string, give up on an empty result (\<open>CHECK_STR16_RES\<close>), cut the final newline.
\<close>

definition fmt_buf :: "nat \<Rightarrow> string \<Rightarrow> string" where
  "fmt_buf n s = cstr (snprintf n s (zeroed n))"

definition check_str16_res ::
  "'w platform \<Rightarrow> cbuf \<Rightarrow> ('w sys, str16) state \<Rightarrow> ('w sys, str16) state" where
  "check_str16_res P res k = (if res ! 0 = NUL then State_Monad.return (to16 P []) else k)"

definition chomp :: "cbuf \<Rightarrow> cbuf" where
  "chomp res = (let len = length (cstr res)
                in if res ! (len - 1) = NL then res[len - 1 := NUL] else res)"

text \<open>Quoted words of the command lines.\<close>

definition dq :: "string \<Rightarrow> string" where "dq s = CHR 0x22 # s @ [CHR 0x22]"
definition sq :: "string \<Rightarrow> string" where "sq s = CHR 0x27 # s @ [CHR 0x27]"

lemma no_nul_dq [simp, buf_simps]: "no_nul (dq s) \<longleftrightarrow> no_nul s"
  by (simp add: dq_def)

lemma no_nul_sq [simp, buf_simps]: "no_nul (sq s) \<longleftrightarrow> no_nul s"
  by (simp add: sq_def)

lemma fmt_buf_take [simp]: "no_nul s \<Longrightarrow> 0 < n \<Longrightarrow> fmt_buf n s = take (n - 1) s"
  by (simp add: fmt_buf_def)

section \<open>mySystem\<close>

definition mySystem :: "'w platform \<Rightarrow> string option \<Rightarrow> ('w sys, cint) state" where
  "mySystem P cmd =
     (case cmd of
        None \<Rightarrow> State_Monad.return (- 1)
      | Some c \<Rightarrow>
          if c = [] then State_Monad.return (- 1)
          else do {
            old_handler \<leftarrow> signal_sigchld SIG_DFL;
            ret \<leftarrow> system P c;
            _ \<leftarrow> signal_sigchld old_handler;
            State_Monad.return ret })"

section \<open>readNand and getNandStoreInfo\<close>

definition size_of_int :: "nat \<Rightarrow> int \<Rightarrow> nat" where
  "size_of_int L v = nat (v mod 2 ^ L)"

definition readNand ::
  "'w platform \<Rightarrow> cfile \<Rightarrow> nat \<Rightarrow> nat \<Rightarrow> cbuf \<Rightarrow> bool \<Rightarrow> bool \<times> cfile \<times> cbuf" where
  "readNand P file offset len res lengthInNand =
     (case fseek_set file offset of
        None \<Rightarrow> (False, file, res)
      | Some f1 \<Rightarrow>
          (let (bytes, f2) = fread f1 len; res1 = poke 0 bytes res
           in if length bytes \<noteq> len then (False, f2, res1)
              else if \<not> lengthInNand then (True, f2, res1)
              else (let val = char_val (char_signed P) (res1 ! 0);
                        (body, f3) = fread f2 (size_of_int (long_bits P) val);
                        res2 = poke 0 body res1
                    in if val \<noteq> int (length body) then (False, f3, res2) else (True, f3, res2))))"

text \<open>
  One round of the loop that packs the product id: the \<open>char\<close> is promoted to \<open>int\<close>,
  shifted there, and the \<open>int\<close> is converted to \<open>unsigned long\<close> (of at most 64 bits).
\<close>

definition id_round :: "bool \<Rightarrow> cbuf \<Rightarrow> 64 word \<Rightarrow> nat \<Rightarrow> 64 word" where
  "id_round sg res product_id i =
     product_id OR scast (push_bit (32 - 8 * (i + 1)) (word_of_int (char_val sg (res ! i)) :: cint))"

definition product_id_of :: "'w platform \<Rightarrow> cbuf \<Rightarrow> nat" where
  "product_id_of P res =
     unat (take_bit (long_bits P) (foldl (id_round (char_signed P) res) 0 [0..<PRODUCT_ID_LEN]))"

definition getNandStoreInfo :: "'w platform \<Rightarrow> ('w sys, bool) state" where
  "getNandStoreInfo P = do {
     modify (\<lambda>s. s\<lparr>mSerialNum := to16 P [], mHardwareVersion := to16 P [],
                   mProductType := to16 P [], mProductId := to16 P []\<rparr>);
     file \<leftarrow> fopen P INFO_PATH ''r+'';
     (case file of
        None \<Rightarrow> State_Monad.return False
      | Some f0 \<Rightarrow> do {
          let (ok1, f1, res1) = readNand P f0 0 SERIAL_NUMBER_LEN (zeroed SIZE_1K) True;
          note_overrun SIZE_1K res1;
          if \<not> ok1 then do { emit EFclose; State_Monad.return False }
          else do {
            modify (\<lambda>s. s\<lparr>mSerialNum := to16 P (cstr res1)\<rparr>);
            let (ok2, f2, res2) = readNand P f1 PRODUCT_TYPE_OFF 1 (zeroed SIZE_1K) True;
            note_overrun SIZE_1K res2;
            if \<not> ok2 then do { emit EFclose; State_Monad.return False }
            else do {
              modify (\<lambda>s. s\<lparr>mProductType := to16 P (cstr res2)\<rparr>);
              let (ok3, f3, res3) = readNand P f2 HARDWARE_VERSION_OFF 1 (zeroed SIZE_1K) True;
              note_overrun SIZE_1K res3;
              if \<not> ok3 then do { emit EFclose; State_Monad.return False }
              else do {
                modify (\<lambda>s. s\<lparr>mHardwareVersion := to16 P (cstr res3)\<rparr>);
                let (ok4, f4, res4) = readNand P f3 PRODUCT_ID_OFF PRODUCT_ID_LEN (zeroed SIZE_1K) False;
                note_overrun SIZE_1K res4;
                if \<not> ok4 then do { emit EFclose; State_Monad.return False }
                else do {
                  let res5 = snprintf SIZE_1K
                               (pad_zero 8 (show_base 16 (product_id_of P res4))) res4;
                  modify (\<lambda>s. s\<lparr>mProductId := to16 P (cstr res5)\<rparr>);
                  emit EFclose;
                  State_Monad.return True }}}}})}"

section \<open>Construction\<close>

definition init :: "'w platform \<Rightarrow> ('w sys, cint) state" where
  "init P = do {
     ok \<leftarrow> getNandStoreInfo P;
     if \<not> ok then State_Monad.return (- 1)
     else do {
       modify (\<lambda>s. s\<lparr>mInit := True\<rparr>);
       State_Monad.return 0 }}"

text \<open>The constructor: \<open>mInit(false)\<close>, empty strings, then \<open>init\<close>, whose result is logged.\<close>

definition RjcoreService_new :: "'w platform \<Rightarrow> ('w sys, unit) state" where
  "RjcoreService_new P = do {
     modify (\<lambda>s. s\<lparr>mInit := False, mSerialNum := [], mProductType := [],
                   mHardwareVersion := [], mProductId := []\<rparr>);
     _ \<leftarrow> init P;
     State_Monad.return () }"

definition instantiate :: "'w platform \<Rightarrow> ('w sys, unit) state" where
  "instantiate P = do {
     RjcoreService_new P;
     emit (EAddService (to16 P ''ruijie.core.service'')) }"

text \<open>\<open>main\<close> of the server process, up to the point where its threads serve calls.\<close>

definition rjcoreserver_main :: "'w platform \<Rightarrow> ('w sys, unit) state" where
  "rjcoreserver_main P = do {
     instantiate P;
     emit EThreadPool }"

section \<open>Lemmas on the loop\<close>

lemma drop_poke: "pos \<le> length buf \<Longrightarrow> drop pos (poke pos s buf) = s @ drop (pos + length s) buf"
  by (simp add: poke_def)

lemma poke_poke:
  "pos \<le> length buf \<Longrightarrow> length x \<le> length b \<Longrightarrow>
   poke (pos + length a) b (poke pos (a @ x) buf) = poke pos (a @ b) buf"
  by (simp add: poke_def ac_simps)

text \<open>One round: what \<open>strlen\<close> finds is the part of the chunk before its first NUL.\<close>

lemma fill_step:
  assumes "fgets n out = Some (chunk, rest)" "pos \<le> length buf"
  shows "fill n out pos buf =
    (if cstr chunk = [] then poke pos (chunk @ [NUL]) buf
     else fill (n - length (cstr chunk)) rest (pos + length (cstr chunk)) (poke pos (chunk @ [NUL]) buf))"
  using assms by (subst fill.simps) (simp add: drop_poke Let_def)

lemma fill_stop: "fgets n out = None \<Longrightarrow> fill n out pos buf = buf"
  by (subst fill.simps) simp

lemma fill_induct [consumes 1, case_names stop full round]:
  assumes inb: "pos + n \<le> length buf"
    and stop: "\<And>n out pos buf. pos + n \<le> length buf \<Longrightarrow> fgets n out = None \<Longrightarrow>
      fill n out pos buf = buf \<Longrightarrow> Q n out pos buf"
    and full: "\<And>n out pos buf chunk rest. pos + n \<le> length buf \<Longrightarrow>
      fgets n out = Some (chunk, rest) \<Longrightarrow> length chunk < n \<Longrightarrow> cstr chunk = [] \<Longrightarrow>
      fill n out pos buf = poke pos (chunk @ [NUL]) buf \<Longrightarrow> Q n out pos buf"
    and round: "\<And>n out pos buf chunk rest. pos + n \<le> length buf \<Longrightarrow>
      fgets n out = Some (chunk, rest) \<Longrightarrow> length chunk < n \<Longrightarrow> cstr chunk \<noteq> [] \<Longrightarrow>
      fill n out pos buf = fill (n - length (cstr chunk)) rest (pos + length (cstr chunk))
        (poke pos (chunk @ [NUL]) buf) \<Longrightarrow>
      Q (n - length (cstr chunk)) rest (pos + length (cstr chunk)) (poke pos (chunk @ [NUL]) buf) \<Longrightarrow>
      Q n out pos buf"
  shows "Q n out pos buf"
  using inb
proof (induction n arbitrary: out pos buf rule: less_induct)
  case (less n)
  show ?case
  proof (cases "fgets n out")
    case None
    with less.prems show ?thesis by (intro stop) (simp_all add: fill_stop)
  next
    case (Some cr)
    obtain chunk rest where cr: "cr = (chunk, rest)" by (cases cr)
    note get = Some [unfolded cr]
    have short: "length chunk < n" using get fgets_SomeD by blast
    have le: "length (cstr chunk) \<le> length chunk" by (rule length_cstr_le)
    show ?thesis
    proof (cases "cstr chunk = []")
      case True
      with less.prems get short show ?thesis by (intro full) (simp_all add: fill_step)
    next
      case False
      let ?k = "length (cstr chunk)"
      have "n - ?k < n" "pos + ?k + (n - ?k) \<le> length (poke pos (chunk @ [NUL]) buf)"
        using False short le less.prems by simp_all
      then have "Q (n - ?k) rest (pos + ?k) (poke pos (chunk @ [NUL]) buf)"
        by (rule less.IH)
      with False less.prems get short show ?thesis
        by (intro round [of pos n buf out chunk rest]) (simp_all add: fill_step)
    qed
  qed
qed

lemma fill_length: "pos + n \<le> length buf \<Longrightarrow> length (fill n out pos buf) = length buf"
  by (induction n out pos buf rule: fill_induct) simp_all

lemma fill_no_nul:
  assumes "pos + n \<le> length buf" "no_nul out" "0 < n"
  shows "fill n out pos buf =
    (if out = [] \<and> 1 < n then buf else poke pos (take (n - 1) out @ [NUL]) buf)"
  using assms
proof (induction n out pos buf rule: fill_induct)
  case (stop n out pos buf)
  then show ?case by (auto simp: fgets_None)
next
  case (full n out pos buf chunk rest)
  then have "chunk = []" using fgets_SomeD(1) [of n out chunk rest] by (simp add: cstr_eq_Nil) (metis append_Cons cstr_eq_Nil cstr_id no_nul_append)
  then have "n = 1" using full fgets_SomeD(3) by blast
  with full \<open>chunk = []\<close> show ?case by simp
next
  case (round n out pos buf chunk rest)
  have out: "out = chunk @ rest" using round.hyps(2) by (rule fgets_SomeD)
  have c: "chunk \<noteq> []" using round.hyps(4) by auto
  then have "0 < length chunk" by simp
  with round.hyps(3) have c1: "1 < n" by linarith
  note c = c c1
  then have nn: "no_nul chunk" "no_nul rest" using round.prems out by simp_all
  let ?k = "length chunk"
  let ?r = "fill n out pos buf"
  have r: "?r = (if rest = [] \<and> 1 < n - ?k then poke pos (chunk @ [NUL]) buf
      else poke (pos + ?k) (take (n - ?k - 1) rest @ [NUL]) (poke pos (chunk @ [NUL]) buf))"
    using round nn by simp
  show ?case
  proof (cases "rest = [] \<and> 1 < n - ?k")
    case True
    then have "take (n - 1) out = chunk" using out round.hyps(3) by simp
    then show ?thesis using True r out c by simp
  next
    case False
    have "?r = poke pos (chunk @ take (n - ?k - 1) rest @ [NUL]) buf"
      using r False round.prems round.hyps by (simp add: poke_poke)
    moreover have "take (n - 1) out = chunk @ take (n - ?k - 1) rest"
      using out round.hyps by (simp add: diff_commute)
    ultimately show ?thesis using out c by simp
  qed
qed

lemma fill_terminated:
  assumes "pos + n \<le> length buf" "NUL \<in> set (drop pos (take (pos + n) buf))"
  shows "NUL \<in> set (drop pos (take (pos + n) (fill n out pos buf)))"
  using assms
proof (induction n out pos buf rule: fill_induct)
  case (stop n out pos buf)
  then show ?case by simp
next
  case (full n out pos buf chunk rest)
  then show ?case by (simp add: poke_def take_Cons')
next
  case (round n out pos buf chunk rest)
  let ?k = "length (cstr chunk)"
  have k: "?k \<le> length chunk" "?k < n" using round length_cstr_le [of chunk] by simp_all
  have "NUL \<in> set (drop (pos + ?k) (take (pos + n) (poke pos (chunk @ [NUL]) buf)))"
    using round.hyps(1-3) k by (simp add: poke_def take_Cons')
  with round k have "NUL \<in> set (drop (pos + ?k) (take (pos + n) (fill n out pos buf)))" by simp
  then show ?case
    by (metis add.commute drop_drop in_set_dropD)
qed


section \<open>What the callers see of a command\<close>

text \<open>
  Every caller hands a zeroed array with its full size to \<open>executeCmd\<close>.  For them its
  result is \<open>cmd_text\<close>, the C string it leaves, inside the array \<open>cmd_buf\<close>.
\<close>

definition cmd_buf :: "'w platform \<Rightarrow> string \<Rightarrow> nat \<Rightarrow> 'w \<Rightarrow> cbuf" where
  "cmd_buf P c n w = (case fst (pf_popen P c w) of None \<Rightarrow> zeroed n | Some out \<Rightarrow> fill n out 0 (zeroed n))"

definition cmd_text :: "'w platform \<Rightarrow> string \<Rightarrow> nat \<Rightarrow> 'w \<Rightarrow> string" where
  "cmd_text P c n w = cstr (cmd_buf P c n w)"

definition cmd_events :: "'w platform \<Rightarrow> string \<Rightarrow> 'w \<Rightarrow> event list" where
  "cmd_events P c w =
     (if fst (pf_popen P c w) = None then [EPopen c False] else [EPopen c True, EPclose])"

definition after_cmd :: "'w platform \<Rightarrow> string \<Rightarrow> 'w sys \<Rightarrow> 'w sys" where
  "after_cmd P c s =
     s\<lparr>world := snd (pf_popen P c (world s)), trace := trace s @ cmd_events P c (world s)\<rparr>"

lemma length_cmd_buf [simp]: "length (cmd_buf P c n w) = n"
  by (simp add: cmd_buf_def fill_length split: option.splits)

lemma cmd_text_no_nul [simp]: "no_nul (cmd_text P c n w)"
  by (simp add: cmd_text_def)

lemma run_executeCmd:
  assumes "c \<noteq> []"
  shows "run_state (executeCmd P (Some c) (zeroed n) n) s = (cmd_buf P c n (world s), after_cmd P c s)"
proof (cases "fst (pf_popen P c (world s))")
  case None
  then show ?thesis
    using assms by (simp add: executeCmd_def popen_def cmd_buf_def after_cmd_def cmd_events_def)
next
  case (Some out)
  then show ?thesis
    using assms
    by (simp add: executeCmd_def popen_def cmd_buf_def after_cmd_def cmd_events_def fill_length Let_def)
qed

text \<open>Without a NUL in it the output is kept up to the room there is.\<close>

lemma cmd_text_output:
  assumes "fst (pf_popen P c w) = Some out" "no_nul out" "0 < n"
  shows "cmd_text P c n w = take (n - 1) out"
proof (cases "out = [] \<and> 1 < n")
  case True
  then show ?thesis using assms by (simp add: cmd_text_def cmd_buf_def fill_no_nul)
next
  case False
  then have "fill n out 0 (zeroed n) = poke 0 (take (n - 1) out @ [NUL]) (zeroed n)"
    using assms by (subst fill_no_nul) auto
  then show ?thesis using assms by (simp add: cmd_text_def cmd_buf_def poke_def)
qed

lemma cmd_text_failed: "fst (pf_popen P c w) = None \<Longrightarrow> cmd_text P c n w = []"
  by (simp add: cmd_text_def cmd_buf_def)

lemma cmd_text_short: "0 < n \<Longrightarrow> length (cmd_text P c n w) < n"
proof -
  assume n: "0 < n"
  have "NUL \<in> set (cmd_buf P c n w)"
  proof (cases "fst (pf_popen P c w)")
    case None
    then show ?thesis using n by (simp add: cmd_buf_def zeroed_def)
  next
    case (Some out)
    have "NUL \<in> set (drop 0 (take (0 + n) (fill n out 0 (zeroed n))))"
      using n by (intro fill_terminated) (simp_all add: zeroed_def)
    then show ?thesis using Some by (auto simp: cmd_buf_def dest: in_set_takeD)
  qed
  then show ?thesis using length_cstr_less by (fastforce simp: cmd_text_def)
qed

text \<open>The first byte of the array, which several callers test.\<close>

lemma cmd_buf_first:
  "0 < n \<Longrightarrow> cmd_buf P c n w ! 0 = (if cmd_text P c n w = [] then NUL else cmd_text P c n w ! 0)"
proof (cases "cmd_buf P c n w")
  case Nil
  then have "n = 0" using length_cmd_buf [of P c n w] by simp
  then show "0 < n \<Longrightarrow> ?thesis" by simp
next
  case (Cons x xs)
  then show ?thesis by (auto simp: cmd_text_def cstr_def)
qed

lemma run_mySystem:
  "c \<noteq> [] \<Longrightarrow> run_state (mySystem P (Some c)) s =
     (fst (pf_system P c (world s)),
      s\<lparr>world := snd (pf_system P c (world s)), trace := trace s @ [ESystem c]\<rparr>)"
  by (cases s) (simp add: mySystem_def system_def signal_sigchld_def)

definition after_sys :: "'w platform \<Rightarrow> string \<Rightarrow> 'w sys \<Rightarrow> 'w sys" where
  "after_sys P c s =
     s\<lparr>world := snd (pf_system P c (world s)), trace := trace s @ [ESystem c]\<rparr>"

lemma run_mySystem_after:
  "c \<noteq> [] \<Longrightarrow> run_state (mySystem P (Some c)) s = (fst (pf_system P c (world s)), after_sys P c s)"
  by (simp add: run_mySystem after_sys_def)

lemma after_cmd_simps [simp]:
  "world (after_cmd P c s) = snd (pf_popen P c (world s))"
  "trace (after_cmd P c s) = trace s @ cmd_events P c (world s)"
  "sigchld (after_cmd P c s) = sigchld s" "overrun (after_cmd P c s) = overrun s"
  "mInit (after_cmd P c s) = mInit s" "mSerialNum (after_cmd P c s) = mSerialNum s"
  "mProductType (after_cmd P c s) = mProductType s" "mProductId (after_cmd P c s) = mProductId s"
  "mHardwareVersion (after_cmd P c s) = mHardwareVersion s"
  by (simp_all add: after_cmd_def)

lemma after_sys_simps [simp]:
  "world (after_sys P c s) = snd (pf_system P c (world s))"
  "trace (after_sys P c s) = trace s @ [ESystem c]"
  "sigchld (after_sys P c s) = sigchld s" "overrun (after_sys P c s) = overrun s"
  "mInit (after_sys P c s) = mInit s" "mSerialNum (after_sys P c s) = mSerialNum s"
  "mProductType (after_sys P c s) = mProductType s" "mProductId (after_sys P c s) = mProductId s"
  "mHardwareVersion (after_sys P c s) = mHardwareVersion s"
  by (simp_all add: after_sys_def)

lemma commands_cmd_events [simp]: "commands (cmd_events P c w) = [c]"
  by (simp add: cmd_events_def)

lemma held_cmd_events [simp]: "held h (cmd_events P c w) = 0"
  by (cases h) (simp_all add: cmd_events_def)

section \<open>Frames of the service\<close>

text \<open>
  \<open>command_frame\<close>: a preorder that running commands respects.  \<open>effect_frame\<close>: one
  that every primitive effect respects; it gives the first.  Each component proves once,
  inside these locales, that its operations keep the frame.
\<close>

locale command_frame = frame R
  for R :: "'w sys \<Rightarrow> 'w sys \<Rightarrow> bool" +
  assumes R_world: "R s (s\<lparr>world := w\<rparr>)"
    and R_overrun: "R s (s\<lparr>overrun := overrun s \<or> b\<rparr>)"
    and R_popen: "R s (s\<lparr>trace := trace s @ cmd_events P c w\<rparr>)"
    and R_system: "R s (s\<lparr>trace := trace s @ [ESystem c]\<rparr>)"
    and R_sync: "R s (s\<lparr>trace := trace s @ [ESync]\<rparr>)"
begin

lemma R_after_cmd: "R s (after_cmd P c s)"
proof -
  have "R (s\<lparr>world := snd (pf_popen P c (world s))\<rparr>)
      (s\<lparr>world := snd (pf_popen P c (world s))\<rparr>
         \<lparr>trace := trace (s\<lparr>world := snd (pf_popen P c (world s))\<rparr>) @ cmd_events P c (world s)\<rparr>)"
    by (rule R_popen)
  then show ?thesis using R_world trans by (simp add: after_cmd_def) blast
qed

lemma R_after_sys: "R s (after_sys P c s)"
proof -
  have "R (s\<lparr>world := snd (pf_system P c (world s))\<rparr>)
      (s\<lparr>world := snd (pf_system P c (world s))\<rparr>
         \<lparr>trace := trace (s\<lparr>world := snd (pf_system P c (world s))\<rparr>) @ [ESystem c]\<rparr>)"
    by (rule R_system)
  then show ?thesis using R_world trans by (simp add: after_sys_def) blast
qed

lemma keeps_asks: "keeps R (asks f)"
  by (simp add: keeps_def refl)

lemma keeps_on_world: "keeps R (on_world f)"
  by (simp add: keeps_def R_world)

lemma keeps_note_overrun: "keeps R (note_overrun n buf)"
  by (simp add: keeps_def R_overrun)

lemma keeps_sync: "keeps R (emit ESync)"
  by (simp add: keeps_def R_sync)

lemma keeps_access: "keeps R (access P path)"
  by (simp add: access_def keeps_asks)

lemma keeps_getprop: "keeps R (getprop P key)"
  by (simp add: getprop_def keeps_asks)

lemma keeps_executeCmd: "keeps R (executeCmd P c (zeroed n) n)"
proof (cases c)
  case None
  then show ?thesis by (simp add: executeCmd_def keeps_return)
next
  case (Some a)
  show ?thesis
  proof (cases "a = []")
    case True
    with Some show ?thesis by (simp add: executeCmd_def keeps_return)
  next
    case False
    with Some show ?thesis by (simp add: keeps_def run_executeCmd R_after_cmd)
  qed
qed

lemma keeps_mySystem: "keeps R (mySystem P c)"
proof (cases c)
  case None
  then show ?thesis by (simp add: mySystem_def keeps_return)
next
  case (Some a)
  show ?thesis
  proof (cases "a = []")
    case True
    with Some show ?thesis by (simp add: mySystem_def keeps_return)
  next
    case False
    with Some show ?thesis by (simp add: keeps_def run_mySystem_after R_after_sys)
  qed
qed

lemmas keeps_cmd = keeps_rules keeps_asks keeps_on_world keeps_note_overrun keeps_sync
  keeps_access keeps_getprop keeps_executeCmd keeps_mySystem

end

locale effect_frame = frame R
  for R :: "'w sys \<Rightarrow> 'w sys \<Rightarrow> bool" +
  assumes E_world: "R s (s\<lparr>world := w\<rparr>)"
    and E_overrun: "R s (s\<lparr>overrun := overrun s \<or> b\<rparr>)"
    and E_emit: "R s (s\<lparr>trace := trace s @ [e]\<rparr>)"
begin

lemma E_emits: "R s (s\<lparr>trace := trace s @ es\<rparr>)"
proof (induction es rule: rev_induct)
  case Nil
  then show ?case by (simp add: refl)
next
  case (snoc e es)
  have "R (s\<lparr>trace := trace s @ es\<rparr>)
      (s\<lparr>trace := trace s @ es\<rparr>\<lparr>trace := trace (s\<lparr>trace := trace s @ es\<rparr>) @ [e]\<rparr>)"
    by (rule E_emit)
  with snoc show ?case using trans by simp
qed

end

sublocale effect_frame \<subseteq> command_frame R
  by unfold_locales (simp_all add: E_world E_overrun E_emits E_emit)

context effect_frame
begin

lemma keeps_emit: "keeps R (emit e)"
  by (simp add: keeps_def E_emit)

lemma keeps_opendir: "keeps R (opendir P path)"
  by (auto simp: opendir_def intro!: keeps_cmd keeps_emit)

lemma keeps_fopen: "keeps R (fopen P path mode)"
  by (auto simp: fopen_def intro!: keeps_cmd keeps_emit)

lemma keeps_with_lock: "keeps R m \<Longrightarrow> keeps R (with_lock l m)"
  by (auto simp: with_lock_def intro!: keeps_cmd keeps_emit)

lemmas keeps_eff = keeps_cmd keeps_emit keeps_opendir keeps_fopen keeps_with_lock

end

interpretation members_frame: effect_frame same_members
  by unfold_locales (auto simp: same_members_def members_def)

interpretation sigchld_frame: effect_frame same_sigchld
  by unfold_locales (auto simp: same_sigchld_def)

interpretation trace_frame: effect_frame trace_grows
  by unfold_locales (auto simp: trace_grows_def intro: prefix_order.trans)

interpretation held_frame: command_frame "same_held h" for h
  by unfold_locales (cases h; auto simp: same_held_def)+

end
