(* ===== verification/Application.thy ===== *)
theory Application
  imports CoreService
begin

text \<open>
  \<open>RjcoreServiceApplication.cpp\<close>: finding and killing a process by name, with \<open>pidof\<close>
  and \<open>kill\<close>.
\<close>

definition isProcessRunning :: "'w platform \<Rightarrow> str16 \<Rightarrow> ('w sys, bool) state" where
  "isProcessRunning P processname = do {
     let cmd = fmt_buf SIZE_1K_HALF (''pidof '' @ c_str P processname);
     res \<leftarrow> executeCmd P (Some cmd) (zeroed SIZE_1K) SIZE_1K;
     if res ! 0 \<noteq> NUL then State_Monad.return True
     else State_Monad.return False }"

definition getProcessId :: "'w platform \<Rightarrow> str16 \<Rightarrow> ('w sys, str16) state" where
  "getProcessId P processname = do {
     let cmd = fmt_buf SIZE_1K_HALF (''pidof '' @ c_str P processname);
     res \<leftarrow> executeCmd P (Some cmd) (zeroed SIZE_1K_HALF) SIZE_1K_HALF;
     check_str16_res P res (State_Monad.return (to16 P (cstr res))) }"

definition killByProcessName :: "'w platform \<Rightarrow> str16 \<Rightarrow> ('w sys, unit) state" where
  "killByProcessName P processname = do {
     processPid \<leftarrow> getProcessId P processname;
     if processPid = to16 P [] then State_Monad.return ()
     else do {
       let cmd = fmt_buf SIZE_1K_HALF (''kill -9 '' @ c_str P processPid);
       _ \<leftarrow> mySystem P (Some cmd);
       State_Monad.return () }}"

section \<open>Frames\<close>

context command_frame
begin

lemma keeps_check_str16_res: "keeps R k \<Longrightarrow> keeps R (check_str16_res P res k)"
  by (auto simp: check_str16_res_def intro!: keeps_cmd)

lemma keeps_isProcessRunning: "keeps R (isProcessRunning P n)"
  by (auto simp: isProcessRunning_def Let_def intro!: keeps_cmd)

lemma keeps_getProcessId: "keeps R (getProcessId P n)"
  by (auto simp: getProcessId_def Let_def intro!: keeps_cmd keeps_check_str16_res)

lemma keeps_killByProcessName: "keeps R (killByProcessName P n)"
  by (auto simp: killByProcessName_def Let_def intro!: keeps_cmd keeps_getProcessId)

lemmas keeps_application = keeps_isProcessRunning keeps_getProcessId keeps_killByProcessName

end

end
