(* ===== verification/Control.thy ===== *)
theory Control
  imports Application
begin

text \<open>\<open>RjcoreServiceControl.cpp\<close>: the result of the last over-the-air update.\<close>

definition OTA_CMD :: string where
  "OTA_CMD = ''cat /sdcard/com.ruijie.rccstu/config.ini | grep updateFlag''"

definition getOtaResult :: "'w platform \<Rightarrow> ('w sys, bool) state" where
  "getOtaResult P = do {
     result \<leftarrow> executeCmd P (Some OTA_CMD) (zeroed SIZE_1K) SIZE_1K;
     if result ! 0 = NUL then State_Monad.return False
     else do {
       let ota_res = (case scan_word ''updateFlag='' (cstr result) of
                        None \<Rightarrow> zeroed SIZE_1K
                      | Some w \<Rightarrow> poke 0 (w @ [NUL]) (zeroed SIZE_1K));
       note_overrun SIZE_1K ota_res;
       State_Monad.return (strncmp_eq ota_res ''UPDATE_SUCCESS'' 15) }}"

context command_frame
begin

lemma keeps_getOtaResult: "keeps R (getOtaResult P)"
  by (auto simp: getOtaResult_def Let_def intro!: keeps_cmd)

end

end
