(* ===== verification/CFloat.thy ===== *)
theory CFloat
  imports CLib
begin

text \<open>
  The floating-point arithmetic the bandwidth check uses: \<open>atof\<close> of a decimal numeral,
  a division of doubles and \<open>%.2f\<close>.  A finite double is the rational it stands for;
  every operation rounds its exact result to 53 bits, ties to even.  Exponents, hexadecimal
  numerals and the ranges of overflow and underflow do not occur in the sizes \<open>du\<close> prints
  and are left out.
\<close>

section \<open>Rounding\<close>

definition round_even :: "rat \<Rightarrow> int" where
  "round_even q =
     (let f = \<lfloor>q\<rfloor>; d = q - of_int f
      in if d < 1 / 2 then f else if 1 / 2 < d then f + 1 else if even f then f else f + 1)"

function bitlen :: "int \<Rightarrow> int" where
  "bitlen n = (if n \<le> 0 then 0 else 1 + bitlen (n div 2))"
  by pat_completeness auto
termination
  by (relation "measure nat") auto

declare bitlen.simps [simp del]

definition pow2 :: "int \<Rightarrow> rat" where
  "pow2 e = (if 0 \<le> e then 2 ^ nat e else 1 / 2 ^ nat (- e))"

text \<open>The positive rational \<open>q\<close> to 53 bits: the scale is found from the sizes of its numerator and denominator.\<close>

definition round53_pos :: "rat \<Rightarrow> rat" where
  "round53_pos q =
     (let (a, b) = quotient_of q;
          e0 = bitlen a - bitlen b - 53;
          e = (if 2 ^ 53 \<le> q / pow2 e0 then e0 + 1 else e0)
      in of_int (round_even (q / pow2 e)) * pow2 e)"

definition round53 :: "rat \<Rightarrow> rat" where
  "round53 q = (if q = 0 then 0 else if q < 0 then - round53_pos (- q) else round53_pos q)"

lemma round_even_of_int [simp]: "round_even (of_int i) = i"
  by (simp add: round_even_def)

lemma round_even_half: "\<bar>of_int (round_even q) - q\<bar> \<le> 1 / 2"
proof -
  have "of_int \<lfloor>q\<rfloor> \<le> q" "q < of_int \<lfloor>q\<rfloor> + 1" by linarith+
  then show ?thesis by (auto simp: round_even_def Let_def)
qed

lemma round_even_mono0: "0 \<le> q \<Longrightarrow> 0 \<le> round_even q"
proof -
  assume "0 \<le> q"
  then have "0 \<le> \<lfloor>q\<rfloor>" by simp
  then show ?thesis by (simp add: round_even_def Let_def)
qed

section \<open>Rounding to any number of bits\<close>

definition round_pos :: "nat \<Rightarrow> rat \<Rightarrow> rat" where
  "round_pos n q =
     (let (a, b) = quotient_of q;
          e0 = bitlen a - bitlen b - int n;
          e = (if 2 ^ n \<le> q / pow2 e0 then e0 + 1 else e0)
      in of_int (round_even (q / pow2 e)) * pow2 e)"

definition round_bits :: "nat \<Rightarrow> rat \<Rightarrow> rat" where
  "round_bits n q = (if q = 0 then 0 else if q < 0 then - round_pos n (- q) else round_pos n q)"

lemma round53_bits: "round53 = round_bits 53"
  by (intro ext) (simp add: round53_def round_bits_def round53_pos_def round_pos_def)

lemma round_bits_0 [simp]: "round_bits n 0 = 0"
  by (simp add: round_bits_def)

lemma round_bits_minus [simp]: "round_bits n (- q) = - round_bits n q"
  by (simp add: round_bits_def)

lemma pow2_powi: "pow2 e = 2 powi e"
  by (simp add: pow2_def power_int_def field_simps)

lemma pow2_pos [simp]: "0 < pow2 e"
  by (simp add: pow2_powi)

lemma bitlen_bounds_int: "0 < n \<Longrightarrow> 0 < bitlen n \<and> 2 ^ nat (bitlen n - 1) \<le> n \<and> n < 2 ^ nat (bitlen n)"
proof (induction n rule: bitlen.induct)
  case (1 n)
  show ?case
  proof (cases "n = 1")
    case True
    then show ?thesis by (simp add: bitlen.simps)
  next
    case False
    let ?m = "n div 2"
    have "0 < ?m" using 1(2) False by auto
    with 1 have IH: "0 < bitlen ?m" "2 ^ nat (bitlen ?m - 1) \<le> ?m" "?m < 2 ^ nat (bitlen ?m)"
      by auto
    have k: "bitlen n = 1 + bitlen ?m" using 1(2) by (subst bitlen.simps) simp
    have "nat (bitlen ?m) = Suc (nat (bitlen ?m - 1))" "nat (1 + bitlen ?m) = Suc (nat (bitlen ?m))"
      using IH(1) by simp_all
    then have "2 ^ nat (bitlen ?m) = (2::int) * 2 ^ nat (bitlen ?m - 1)"
        "2 ^ nat (1 + bitlen ?m) = (2::int) * 2 ^ nat (bitlen ?m)"
      by (simp_all only: power_Suc)
    then show ?thesis unfolding k using IH by (simp, presburger)
  qed
qed

lemma bitlen_bounds: "0 < n \<Longrightarrow> pow2 (bitlen n - 1) \<le> of_int n \<and> of_int n < pow2 (bitlen n)"
proof -
  assume "0 < n"
  note b = bitlen_bounds_int [OF this]
  have "pow2 (bitlen n - 1) = of_int (2 ^ nat (bitlen n - 1))" "pow2 (bitlen n) = of_int (2 ^ nat (bitlen n))"
    using b by (simp_all add: pow2_def)
  then show ?thesis using b by (simp only: of_int_le_iff of_int_less_iff)
qed

lemma round_pos_close:
  assumes "0 < q" "0 < n"
  shows "\<bar>round_pos n q - q\<bar> \<le> q / 2 ^ n"
proof -
  obtain a b where ab: "quotient_of q = (a, b)" by fastforce
  have b: "0 < b" using quotient_of_denom_pos [OF ab] .
  have q: "q = of_int a / of_int b" using quotient_of_div [OF ab] .
  have a: "0 < a" using assms(1) b unfolding q by (simp add: zero_less_divide_iff)
  define e0 where "e0 = bitlen a - bitlen b - int n"
  define e where "e = (if 2 ^ n \<le> q / pow2 e0 then e0 + 1 else e0)"
  have r: "round_pos n q = of_int (round_even (q / pow2 e)) * pow2 e"
    by (simp add: round_pos_def ab e0_def e_def Let_def)
  have q_low: "pow2 (bitlen a - 1) < q * pow2 (bitlen b)"
  proof -
    have "pow2 (bitlen a - 1) \<le> q * of_int b" using bitlen_bounds [OF a] b unfolding q by simp
    also have "\<dots> < q * pow2 (bitlen b)" using bitlen_bounds [OF b] assms(1) by simp
    finally show ?thesis .
  qed
  have e0_pow: "pow2 e0 * pow2 (bitlen b) * 2 ^ n = pow2 (bitlen a)"
    by (simp add: pow2_powi e0_def flip: power_int_add power_int_of_nat)
  have "2 ^ n * pow2 e0 * pow2 (bitlen b) = 2 * pow2 (bitlen a - 1)"
    using e0_pow power_int_add_1 [of "2::rat" "bitlen a - 1"] by (simp add: pow2_powi ac_simps)
  with q_low have low0: "2 ^ n * pow2 e0 * pow2 (bitlen b) < 2 * q * pow2 (bitlen b)" by simp
  then have "2 ^ n * pow2 e0 < 2 * q" by simp
  then have low: "2 ^ n * pow2 e \<le> 2 * q"
    by (auto simp: e_def pow2_powi power_int_add_1 pos_le_divide_eq)
  have "\<bar>of_int (round_even (q / pow2 e)) - q / pow2 e\<bar> \<le> 1 / 2" by (rule round_even_half)
  then have "\<bar>of_int (round_even (q / pow2 e)) - q / pow2 e\<bar> * pow2 e \<le> 1 / 2 * pow2 e"
    by (intro mult_right_mono) (simp_all add: less_imp_le)
  moreover have "\<bar>of_int (round_even (q / pow2 e)) - q / pow2 e\<bar> * pow2 e = \<bar>round_pos n q - q\<bar>"
  proof -
    have "(of_int (round_even (q / pow2 e)) - q / pow2 e) * pow2 e = round_pos n q - q"
      unfolding r using less_imp_neq [OF pow2_pos [of e]] by (simp add: left_diff_distrib)
    then show ?thesis using pow2_pos [of e] by (metis abs_mult abs_of_pos)
  qed
  moreover have "1 / 2 * pow2 e \<le> q / 2 ^ n"
    using low by (simp add: field_simps)
  ultimately show ?thesis by linarith
qed

lemma round_bits_close: "0 < n \<Longrightarrow> \<bar>round_bits n q - q\<bar> \<le> \<bar>q\<bar> / 2 ^ n"
  using round_pos_close [of q n] round_pos_close [of "- q" n] by (auto simp: round_bits_def)

section \<open>Doubles\<close>

datatype double = Fin rat | Inf | NegInf | NaN

text \<open>The decimal part of \<open>strtod\<close>: sign, digits, optional fraction.\<close>

definition atof :: "string \<Rightarrow> double" where
  "atof s =
     (let s1 = dropWhile isspace s;
          neg = (s1 \<noteq> [] \<and> s1 ! 0 = CHR ''-'');
          s2 = (if s1 \<noteq> [] \<and> (s1 ! 0 = CHR ''-'' \<or> s1 ! 0 = CHR ''+'') then drop 1 s1 else s1);
          ip = takeWhile isdigit s2;
          s3 = drop (length ip) s2;
          fp = (if s3 \<noteq> [] \<and> s3 ! 0 = CHR ''.'' then takeWhile isdigit (drop 1 s3) else []);
          v = of_nat (read_base 10 (ip @ fp)) / 10 ^ length fp
      in Fin (round53 (if neg then - v else v)))"

text \<open>\<open>a / b\<close> for a difference of times \<open>b\<close> (an exact double, never a negative zero).\<close>

definition div_double :: "double \<Rightarrow> int \<Rightarrow> double" where
  "div_double a b =
     (case a of
        Fin q \<Rightarrow> if b = 0 then (if q = 0 then NaN else if 0 < q then Inf else NegInf)
                 else Fin (round53 (q / of_int b))
      | Inf \<Rightarrow> if 0 \<le> b then Inf else NegInf
      | NegInf \<Rightarrow> if 0 \<le> b then NegInf else Inf
      | NaN \<Rightarrow> NaN)"

definition show_fixed :: "nat \<Rightarrow> rat \<Rightarrow> string" where
  "show_fixed k q =
     (let t = nat (round_even (10 ^ k * q));
          f = show_base 10 (t mod 10 ^ k)
      in show_base 10 (t div 10 ^ k) @ ''.'' @ pad_zero k f)"

definition show_2f :: "double \<Rightarrow> string" where
  "show_2f a =
     (case a of
        Fin q \<Rightarrow> if q < 0 then CHR ''-'' # show_fixed 2 (- q) else show_fixed 2 q
      | Inf \<Rightarrow> ''inf'' | NegInf \<Rightarrow> ''-inf'' | NaN \<Rightarrow> ''nan'')"

lemma no_nul_show_fixed [simp, buf_simps]: "no_nul (show_fixed k q)"
  by (simp add: show_fixed_def Let_def)

lemma no_nul_show_2f [simp, buf_simps]: "no_nul (show_2f a)"
  by (simp add: show_2f_def split: double.split)

text \<open>What \<open>show_fixed\<close> prints is within half a unit of the last place.\<close>

lemma show_fixed_close:
  assumes "0 \<le> q"
  shows "\<bar>of_nat (nat (round_even (10 ^ k * q))) / 10 ^ k - q\<bar> \<le> 1 / (2 * 10 ^ k)"
proof -
  let ?r = "round_even (10 ^ k * q)"
  have "0 \<le> ?r" using assms by (intro round_even_mono0) simp
  then have "of_nat (nat ?r) = (of_int ?r :: rat)" by simp
  moreover have "of_int ?r / 10 ^ k - q = (of_int ?r - 10 ^ k * q) / 10 ^ k"
    by (simp add: diff_divide_distrib)
  moreover have "\<bar>(of_int ?r - 10 ^ k * q) / 10 ^ k\<bar> = \<bar>of_int ?r - 10 ^ k * q\<bar> / 10 ^ k"
    by (simp add: abs_divide)
  moreover have "\<bar>of_int ?r - 10 ^ k * q\<bar> / 10 ^ k \<le> 1 / 2 / 10 ^ k"
    by (intro divide_right_mono round_even_half) simp
  ultimately show ?thesis by simp
qed

end
