(* ===== verification/Network.thy ===== *)
theory Network
  imports Control CFloat
begin

text \<open>
  \<open>RjcoreServiceNetwork.cpp\<close>: the state and speed of the network card, the avahi daemon,
  the address conflict check and ping.
\<close>

definition check_ipaddr :: "'w platform \<Rightarrow> string \<Rightarrow> cint" where
  "check_ipaddr P str =
     (if str = [] then 1
      else if inet_pton4 P str then 0
      else if inet_pton6 P str then 0
      else 1)"

definition CMD_LINK :: string where
  "CMD_LINK = ''ethtool eth0 | grep '' @ dq ''Link detected:'' @ '' | awk '' @ sq ''{print $3}''"

definition CMD_NETCARDCURSPEED :: string where
  "CMD_NETCARDCURSPEED =
     ''ethtool eth0 | grep '' @ dq ''Speed:'' @ '' | awk '' @ sq ''{print $2}''"

definition CMD_MAXSPEED :: string where
  "CMD_MAXSPEED = ''ethtool eth0 | grep -A2 '' @ dq ''Supported link modes:''"

definition CMD_STOPAVAHI :: string where
  "CMD_STOPAVAHI = ''sh /system/bin/shutdown_avahi.sh''"

definition getNetcardState :: "'w platform \<Rightarrow> ('w sys, bool) state" where
  "getNetcardState P = do {
     result \<leftarrow> executeCmd P (Some CMD_LINK) (zeroed SIZE_1K) SIZE_1K;
     if strncmp_eq result ''yes'' 3 then State_Monad.return True
     else if strncmp_eq result ''no'' 2 then State_Monad.return False
     else State_Monad.return False }"

definition getNetcardCurSpeed :: "'w platform \<Rightarrow> ('w sys, str16) state" where
  "getNetcardCurSpeed P = do {
     result \<leftarrow> executeCmd P (Some CMD_NETCARDCURSPEED) (zeroed SIZE_1K) SIZE_1K;
     check_str16_res P result (State_Monad.return (to16 P (cstr (chomp result)))) }"

definition getNetcardMaxSpeed :: "'w platform \<Rightarrow> ('w sys, str16) state" where
  "getNetcardMaxSpeed P = do {
     result \<leftarrow> executeCmd P (Some CMD_MAXSPEED) (zeroed SIZE_1K) SIZE_1K;
     if contains (cstr result) ''1000baseT/Full'' then State_Monad.return (to16 P ''1000'')
     else if contains (cstr result) ''100baseT/Full'' then State_Monad.return (to16 P ''100'')
     else if contains (cstr result) ''10baseT/Full'' then State_Monad.return (to16 P ''10'')
     else State_Monad.return (to16 P []) }"

definition AVAHI_CONFIG :: string where
  "AVAHI_CONFIG = ''sh /system/bin/config_avahi.sh''"

definition AVAHI_KILL :: string where
  "AVAHI_KILL = ''/system/bin/avahi-autoipd --kill eth0''"

definition AVAHI_START :: string where
  "AVAHI_START = ''/system/bin/avahi-autoipd --no-drop-root --script=/system/bin/avahi-autoipd_action.sh eth0 &''"

definition startAvahi :: "'w platform \<Rightarrow> ('w sys, unit) state" where
  "startAvahi P = do {
     dir \<leftarrow> access P ''/data/data/org.freedesktop.telepathy/files'';
     conf \<leftarrow> (if \<not> dir then access P ''/system/bin/config_avahi.sh'' else State_Monad.return False);
     go \<leftarrow> (if \<not> dir \<and> conf
           then do { ret \<leftarrow> mySystem P (Some AVAHI_CONFIG); State_Monad.return (\<not> sint ret < 0) }
           else State_Monad.return True);
     if \<not> go then State_Monad.return ()
     else do {
       action \<leftarrow> access P ''/system/bin/avahi-autoipd_action.sh'';
       if action then do {
         link \<leftarrow> getNetcardState P;
         pid \<leftarrow> (if link then getProcessId P (to16 P ''avahi-autoipd'')
                else State_Monad.return (to16 P []));
         go2 \<leftarrow> (if link \<and> pid \<noteq> to16 P []
                then do { ret \<leftarrow> mySystem P (Some AVAHI_KILL); State_Monad.return (\<not> sint ret < 0) }
                else State_Monad.return True);
         if \<not> go2 then State_Monad.return ()
         else do {
           _ \<leftarrow> mySystem P (Some AVAHI_START);
           State_Monad.return () }}
       else State_Monad.return () }}"

definition stopAvahi :: "'w platform \<Rightarrow> ('w sys, unit) state" where
  "stopAvahi P = do {
     there \<leftarrow> access P ''/system/bin/shutdown_avahi.sh'';
     if there then do {
       _ \<leftarrow> mySystem P (Some CMD_STOPAVAHI);
       State_Monad.return () }
     else State_Monad.return () }"

definition checkip_line :: "string \<Rightarrow> string" where
  "checkip_line ip = ''checkip '' @ ip @ '' -s | grep srcMac | awk '' @ sq ''{print $2}''"

definition checkIpConflict_block :: "'w platform \<Rightarrow> str16 \<Rightarrow> ('w sys, str16) state" where
  "checkIpConflict_block P ip =
     (if check_ipaddr P (c_str P ip) \<noteq> 0 then State_Monad.return (to16 P [])
      else do {
        link \<leftarrow> getNetcardState P;
        if \<not> link then State_Monad.return (to16 P [])
        else do {
          let cmd = fmt_buf SIZE_1K (checkip_line (c_str P ip));
          result \<leftarrow> executeCmd P (Some cmd) (zeroed SIZE_1K) SIZE_1K;
          check_str16_res P result (State_Monad.return (to16 P (cstr (chomp result)))) }})"

definition ping_line :: "string \<Rightarrow> cint \<Rightarrow> cint \<Rightarrow> cint \<Rightarrow> string" where
  "ping_line ip count timeout deadline =
     ''ping -c '' @ show_dec (sint count) @ '' -W '' @ show_dec (sint timeout) @
     '' -w '' @ show_dec (sint deadline) @ '' '' @ ip @ '' | grep transmitted''"

definition ping_block ::
  "'w platform \<Rightarrow> str16 \<Rightarrow> cint \<Rightarrow> cint \<Rightarrow> cint \<Rightarrow> ('w sys, str16) state" where
  "ping_block P ip count timeout deadline =
     (if check_ipaddr P (c_str P ip) \<noteq> 0 then State_Monad.return (to16 P [])
      else if sint count \<le> 0 \<or> sint timeout < 0 \<or> sint deadline < 0
      then State_Monad.return (to16 P [])
      else do {
        let cmd = fmt_buf SIZE_1K (ping_line (c_str P ip) count timeout deadline);
        result \<leftarrow> executeCmd P (Some cmd) (zeroed SIZE_1K) SIZE_1K;
        check_str16_res P result (State_Monad.return (to16 P (cstr (chomp result)))) })"

section \<open>Bandwidth\<close>

definition bandtmpfile :: string where
  "bandtmpfile = ''/data/data/com.ruijie.rccstu/bandtmpfile''"

definition wget_line :: "string \<Rightarrow> string" where
  "wget_line ip = ''wget -O '' @ bandtmpfile @ '' ftp://'' @ ip @ ''/pub/speed_file &>/dev/null -T 15''"

definition wget_auth_line :: "string \<Rightarrow> string \<Rightarrow> string \<Rightarrow> string" where
  "wget_auth_line user code ip =
     ''wget -O '' @ bandtmpfile @ '' ftp://'' @ user @ '':'' @ code @ ''@'' @ ip @
     ''/pub/speed_file &>/dev/null -T 15''"

definition du_line :: string where
  "du_line = ''busybox du -h '' @ bandtmpfile @ '' | awk '' @ sq ''{print $1}''"

text \<open>What is printed for the output \<open>du\<close> of the size command after \<open>secs\<close> seconds.\<close>

definition rate_text :: "cbuf \<Rightarrow> int \<Rightarrow> string" where
  "rate_text buf_size secs = show_2f (div_double (atof (cstr buf_size)) secs) @ ''Mb/s''"

definition scan_size :: "cbuf \<Rightarrow> cbuf" where
  "scan_size result =
     (case scan_until (CHR ''M'') (cstr result) of
        None \<Rightarrow> zeroed SIZE_1K_HALF
      | Some w \<Rightarrow> poke 0 (w @ [NUL]) (zeroed SIZE_1K_HALF))"

definition bandwidth_locked :: "'w platform \<Rightarrow> str16 \<Rightarrow> str16 \<Rightarrow> str16 \<Rightarrow> ('w sys, str16) state" where
  "bandwidth_locked P serverIp user code =
     (if check_ipaddr P (c_str P serverIp) \<noteq> 0 then State_Monad.return (to16 P [])
      else do {
        let cmd_down = fmt_buf SIZE_1K
              (if length user = 0 \<and> length code = 0 then wget_line (c_str P serverIp)
               else wget_auth_line (c_str P user) (c_str P code) (c_str P serverIp));
        t_start \<leftarrow> on_world (pf_time P);
        _ \<leftarrow> executeCmd P (Some cmd_down) (zeroed SIZE_1K) SIZE_1K;
        there \<leftarrow> access P bandtmpfile;
        if there then do {
          t_end \<leftarrow> on_world (pf_time P);
          let cmd_size = fmt_buf SIZE_1K du_line;
          result \<leftarrow> executeCmd P (Some cmd_size) (zeroed SIZE_1K) SIZE_1K;
          check_str16_res P result (do {
            let buf_size = scan_size result;
            note_overrun SIZE_1K_HALF buf_size;
            let speed_str = fmt_buf SIZE_1K_HALF (rate_text buf_size (t_end - t_start));
            _ \<leftarrow> mySystem P (Some (fmt_buf SIZE_1K (''rm '' @ bandtmpfile)));
            State_Monad.return (to16 P speed_str) }) }
        else State_Monad.return (to16 P []) })"

definition checkBandwidth_block ::
  "'w platform \<Rightarrow> str16 \<Rightarrow> str16 \<Rightarrow> str16 \<Rightarrow> ('w sys, str16) state" where
  "checkBandwidth_block P serverIp user code = with_lock NetLock (bandwidth_locked P serverIp user code)"

section \<open>Frames\<close>

context command_frame
begin

lemma keeps_getNetcardState: "keeps R (getNetcardState P)"
  by (auto simp: getNetcardState_def intro!: keeps_cmd)

lemma keeps_getNetcardCurSpeed: "keeps R (getNetcardCurSpeed P)"
  by (auto simp: getNetcardCurSpeed_def intro!: keeps_cmd keeps_check_str16_res)

lemma keeps_getNetcardMaxSpeed: "keeps R (getNetcardMaxSpeed P)"
  by (auto simp: getNetcardMaxSpeed_def intro!: keeps_cmd)

lemma keeps_startAvahi: "keeps R (startAvahi P)"
  by (auto simp: startAvahi_def intro!: keeps_cmd keeps_getNetcardState keeps_getProcessId)

lemma keeps_stopAvahi: "keeps R (stopAvahi P)"
  by (auto simp: stopAvahi_def intro!: keeps_cmd)

lemma keeps_checkIpConflict_block: "keeps R (checkIpConflict_block P ip)"
  by (auto simp: checkIpConflict_block_def Let_def
      intro!: keeps_cmd keeps_check_str16_res keeps_getNetcardState)

lemma keeps_ping_block: "keeps R (ping_block P ip c t d)"
  by (auto simp: ping_block_def Let_def intro!: keeps_cmd keeps_check_str16_res)

lemma keeps_bandwidth_locked: "keeps R (bandwidth_locked P ip u c)"
  by (auto simp: bandwidth_locked_def Let_def intro!: keeps_cmd keeps_check_str16_res)

lemmas keeps_network = keeps_getNetcardState keeps_getNetcardCurSpeed keeps_getNetcardMaxSpeed
  keeps_startAvahi keeps_stopAvahi keeps_checkIpConflict_block keeps_ping_block

end

context effect_frame
begin

lemma keeps_checkBandwidth: "keeps R (checkBandwidth_block P ip u c)"
  by (auto simp: checkBandwidth_block_def intro!: keeps_with_lock keeps_bandwidth_locked)

end

end
