(* ===== verification/ProductInfo.thy ===== *)
theory ProductInfo
  imports Network
begin

text \<open>
  The queries of \<open>RjcoreServiceProduct.cpp\<close>: processor, versions, board fields, memory and
  storage size, properties.
\<close>

definition SUFFIX :: string where "SUFFIX = '' CPU, @ 1.6GHz''"
definition ANDROID_VERSION_PROPERTY :: string where "ANDROID_VERSION_PROPERTY = ''ro.build.version.release''"
definition SYSTEM_VERSION_PROPERTY :: string where "SYSTEM_VERSION_PROPERTY = ''ro.product.version''"
definition PRODUCT_NAME_PROPERTY :: string where "PRODUCT_NAME_PROPERTY = ''ro.product.name''"
definition BOARD_INFO_PROPERTY :: string where "BOARD_INFO_PROPERTY = ''ro.product.board''"

section \<open>Helpers\<close>

text \<open>\<open>litConverBig\<close> upper-cases the string in an array, in place.\<close>

fun upper_loop :: "cbuf \<Rightarrow> cbuf" where
  "upper_loop [] = []"
| "upper_loop (c # s) = (if c = NUL then c # s else toupper c # upper_loop s)"

definition litConverBig :: "cbuf \<Rightarrow> cbuf" where
  "litConverBig buf = (if cstr buf = [] then buf else upper_loop buf)"

text \<open>
  \<open>property_get\<close> of \<open>libcutils\<close>: the value, or the default when the property is not set
  (a null default leaves an empty string); the result is its length.
\<close>

definition property_get ::
  "'w platform \<Rightarrow> string \<Rightarrow> cbuf \<Rightarrow> string option \<Rightarrow> ('w sys, nat \<times> cbuf) state" where
  "property_get P key value dflt = do {
     v \<leftarrow> getprop P key;
     let w = (if cstr v = [] then (case dflt of None \<Rightarrow> [] | Some d \<Rightarrow> d) else cstr v);
     note_overrun (length value) (poke 0 (w @ [NUL]) value);
     State_Monad.return (length w, poke 0 (w @ [NUL]) value) }"

text \<open>\<open>"%-4.1Lf%c"\<close>: one decimal, rounded to even, left-justified in four columns.\<close>

definition size_text :: "rat \<Rightarrow> char \<Rightarrow> string" where
  "size_text q unit =
     (let s = show_fixed 1 q in s @ replicate (4 - length s) (CHR '' '') @ [unit])"

text \<open>
  \<open>getStorageSize\<close>: the divisions by 1024 are exact in binary floating point, and the product
  is exact as long as it fits the mantissa of a \<open>long double\<close> (53 bits on the smallest target),
  so the sizes are rationals here.
\<close>

definition scale_size :: "rat \<Rightarrow> rat \<times> char" where
  "scale_size bytes =
     (let size1 = bytes / of_nat SIZE_1K;
          (size2, unit2) = (if of_nat SIZE_1K < size1 then (size1 / of_nat SIZE_1K, CHR ''M'')
                            else (size1, CHR ''K''));
          (size3, unit3) = (if of_nat SIZE_1K < size2 then (size2 / of_nat SIZE_1K, CHR ''G'')
                            else (size2, unit2))
      in (size3, unit3))"

definition getStorageSize :: "'w platform \<Rightarrow> string \<Rightarrow> cbuf \<Rightarrow> ('w sys, cbuf) state" where
  "getStorageSize P s result =
     (if s = [] then State_Monad.return (poke 0 (size_text 0 (CHR ''K'') @ [NUL]) result)
      else do {
        st \<leftarrow> asks (\<lambda>t. pf_statfs P s (world t));
        (case st of
           None \<Rightarrow> State_Monad.return (poke 0 (size_text 0 (CHR ''K'') @ [NUL]) result)
         | Some (f_blocks, f_bsize) \<Rightarrow>
             if f_blocks = 0
             then State_Monad.return (poke 0 (size_text 0 (CHR ''K'') @ [NUL]) result)
             else do {
               let (size3, unit3) = scale_size (of_nat f_blocks * of_nat f_bsize);
               State_Monad.return (poke 0 (size_text size3 unit3 @ [NUL]) result) }) })"

section \<open>Processor and properties\<close>

definition CPU_CMD :: string where
  "CPU_CMD = ''cat /proc/cpuinfo | grep Processor | awk '' @ sq ''{print $3,$4,$5,$6,$7}''"

definition getCpuInfo :: "'w platform \<Rightarrow> ('w sys, str16) state" where
  "getCpuInfo P = do {
     res \<leftarrow> executeCmd P (Some CPU_CMD) (zeroed SIZE_1K) SIZE_1K;
     check_str16_res P res (do {
       let len = length (cstr res);
       let res1 = (if res ! (len - 1) = NL then res[len - 1 := CHR '' ''] else res);
       (ret, sub) \<leftarrow> property_get P ''ro.product.name'' (zeroed SIZE_1K) None;
       if ret \<le> 0 then State_Monad.return (to16 P [])
       else do {
         let res2 = strcat res1 (cstr (litConverBig sub));
         let res3 = strcat res2 SUFFIX;
         note_overrun SIZE_1K res3;
         State_Monad.return (to16 P (cstr res3)) }}) }"

definition getAndroidVersion :: "'w platform \<Rightarrow> ('w sys, str16) state" where
  "getAndroidVersion P = do {
     (ret, res) \<leftarrow> property_get P ANDROID_VERSION_PROPERTY (zeroed SIZE_1K) None;
     if ret \<le> 0 then State_Monad.return (to16 P [])
     else State_Monad.return (to16 P (cstr res)) }"

definition getSystemVersion :: "'w platform \<Rightarrow> ('w sys, str16) state" where
  "getSystemVersion P = do {
     (ret, res) \<leftarrow> property_get P SYSTEM_VERSION_PROPERTY (zeroed SIZE_1K) None;
     if ret \<le> 0 then State_Monad.return (to16 P [])
     else State_Monad.return (to16 P (cstr res)) }"

text \<open>\<open>CHECK_INIT\<close> guards the four fields read from the board.\<close>

definition check_init :: "'w platform \<Rightarrow> ('w sys, str16) state \<Rightarrow> ('w sys, str16) state" where
  "check_init P k = do {
     ini \<leftarrow> asks mInit;
     if \<not> ini then State_Monad.return (to16 P []) else k }"

definition getSerialNumber :: "'w platform \<Rightarrow> ('w sys, str16) state" where
  "getSerialNumber P = check_init P (asks mSerialNum)"

definition getProductType :: "'w platform \<Rightarrow> ('w sys, str16) state" where
  "getProductType P = check_init P (asks mProductType)"

definition getHardwareVesion :: "'w platform \<Rightarrow> ('w sys, str16) state" where
  "getHardwareVesion P = check_init P (asks mHardwareVersion)"

definition getProductId :: "'w platform \<Rightarrow> ('w sys, str16) state" where
  "getProductId P = check_init P (asks mProductId)"

definition getProductName :: "'w platform \<Rightarrow> ('w sys, str16) state" where
  "getProductName P = do {
     (ret, res) \<leftarrow> property_get P PRODUCT_NAME_PROPERTY (zeroed SIZE_1K) None;
     if ret \<le> 0 then State_Monad.return (to16 P [])
     else State_Monad.return (to16 P (cstr (litConverBig res))) }"

definition getBaseboardInfo :: "'w platform \<Rightarrow> ('w sys, str16) state" where
  "getBaseboardInfo P = do {
     (ret, res) \<leftarrow> property_get P BOARD_INFO_PROPERTY (zeroed SIZE_1K) None;
     if ret \<le> 0 then State_Monad.return (to16 P [])
     else State_Monad.return (to16 P (cstr res)) }"

definition getPropertyValue :: "'w platform \<Rightarrow> str16 \<Rightarrow> ('w sys, str16) state" where
  "getPropertyValue P key =
     (if length key = 0 then State_Monad.return (to16 P [])
      else do {
        (_, res) \<leftarrow> property_get P (c_str P key) (zeroed (prop_max P)) (Some []);
        State_Monad.return (to16 P (cstr res)) })"

section \<open>Memory and storage\<close>

definition MEM_CMD :: string where
  "MEM_CMD = ''cat /proc/meminfo | grep '' @ dq ''MemTotal:'' @ '' | awk '' @ sq ''{print $2}''"

definition scale_mem :: "int \<Rightarrow> int \<times> char" where
  "scale_mem memval =
     (let (m1, u1) = (if int SIZE_1K < memval then (memval div int SIZE_1K, CHR ''M'')
                      else (memval, CHR ''K''));
          (m2, u2) = (if int SIZE_1K < m1 then (m1 div int SIZE_1K, CHR ''G'') else (m1, u1))
      in (m2, u2))"

definition getMemoryInfo :: "'w platform \<Rightarrow> ('w sys, str16) state" where
  "getMemoryInfo P = do {
     res \<leftarrow> executeCmd P (Some MEM_CMD) (zeroed SIZE_1K) SIZE_1K;
     check_str16_res P res (do {
       let (memval, unit) = scale_mem (sint (atoi (long_bits P) (cstr res)));
       let text = fmt_buf SIZE_1K (show_dec memval @ [unit]);
       State_Monad.return (to16 P text) }) }"

definition getStorageInfo :: "'w platform \<Rightarrow> ('w sys, str16) state" where
  "getStorageInfo P = do {
     res \<leftarrow> getStorageSize P ''/data'' (zeroed SIZE_1K);
     note_overrun SIZE_1K res;
     State_Monad.return (to16 P (cstr res)) }"

section \<open>Frames\<close>

context command_frame
begin

lemma keeps_property_get: "keeps R (property_get P key buf d)"
  by (auto simp: property_get_def Let_def intro!: keeps_cmd)

lemma keeps_check_init: "keeps R k \<Longrightarrow> keeps R (check_init P k)"
  by (auto simp: check_init_def intro!: keeps_cmd)

lemma keeps_getStorageSize: "keeps R (getStorageSize P path buf)"
  by (auto simp: getStorageSize_def Let_def split: prod.split intro!: keeps_cmd)

lemma keeps_getCpuInfo: "keeps R (getCpuInfo P)"
  by (auto simp: getCpuInfo_def Let_def
      intro!: keeps_cmd keeps_check_str16_res keeps_property_get)

lemma keeps_properties:
  "keeps R (getAndroidVersion P)" "keeps R (getSystemVersion P)" "keeps R (getProductName P)"
  "keeps R (getBaseboardInfo P)" "keeps R (getPropertyValue P key)"
  by (auto simp: getAndroidVersion_def getSystemVersion_def getProductName_def
      getBaseboardInfo_def getPropertyValue_def intro!: keeps_cmd keeps_property_get)

lemma keeps_fields:
  "keeps R (getSerialNumber P)" "keeps R (getProductType P)" "keeps R (getHardwareVesion P)"
  "keeps R (getProductId P)"
  by (auto simp: getSerialNumber_def getProductType_def getHardwareVesion_def
      getProductId_def intro!: keeps_cmd keeps_check_init)

lemma keeps_getMemoryInfo: "keeps R (getMemoryInfo P)"
  by (auto simp: getMemoryInfo_def Let_def split: prod.split
      intro!: keeps_cmd keeps_check_str16_res)

lemma keeps_getStorageInfo: "keeps R (getStorageInfo P)"
  by (auto simp: getStorageInfo_def intro!: keeps_cmd keeps_getStorageSize)

lemmas keeps_info = keeps_getCpuInfo keeps_properties keeps_fields keeps_getMemoryInfo
  keeps_getStorageInfo

end

end
