(* ===== verification/ProductFiles.thy ===== *)
theory ProductFiles
  imports ProductInfo
begin

text \<open>
  The file operations of \<open>RjcoreServiceProduct.cpp\<close>: changing the mode of a file or a
  directory and checking the result, removing a file, packing the log files.
\<close>

definition TOMBSTONES :: string where "TOMBSTONES = ''/data/tombstones''"
definition CLIENT_LOG :: string where "CLIENT_LOG = ''/sdcard/com.ruijie.rccstu''"
definition PROC_LAST_LOG :: string where "PROC_LAST_LOG = ''/proc/last_log''"
definition SYSTEM_LOG :: string where "SYSTEM_LOG = ''/data/systemLog''"

lemmas path_defs = TOMBSTONES_def CLIENT_LOG_def PROC_LAST_LOG_def SYSTEM_LOG_def

section \<open>Modes\<close>

definition stat_line3 :: "string \<Rightarrow> string" where
  "stat_line3 path = ''stat '' @ path @ '' | head -n4 |tail -n1 | cut -d '' @ dq ''/'' @
     '' -f1 | cut -d '' @ dq ''('' @ '' -f2 |  sed '' @ sq ''s/.//''"

definition stat_line4 :: "string \<Rightarrow> string" where
  "stat_line4 path = ''stat '' @ path @ '' | head -n4 |tail -n1 | cut -d '' @ dq ''/'' @
     '' -f1 | cut -d '' @ dq ''('' @ '' -f2''"

definition checkFileMode ::
  "'w platform \<Rightarrow> string \<Rightarrow> string \<Rightarrow> nat \<Rightarrow> ('w sys, bool) state" where
  "checkFileMode P path mode modeLen =
     (if modeLen = 3 then do {
        let cmd = fmt_buf SIZE_1K_HALF (stat_line3 path);
        checkMode \<leftarrow> executeCmd P (Some cmd) (zeroed SIZE_1K_HALF) SIZE_1K_HALF;
        if \<not> strncmp_eq checkMode mode 3 then State_Monad.return False
        else State_Monad.return True }
      else if modeLen = 4 then do {
        let cmd = fmt_buf SIZE_1K_HALF (stat_line4 path);
        checkMode \<leftarrow> executeCmd P (Some cmd) (zeroed SIZE_1K_HALF) SIZE_1K_HALF;
        if \<not> strncmp_eq checkMode mode 4 then State_Monad.return False
        else State_Monad.return True }
      else State_Monad.return False)"

definition chmodFile :: "'w platform \<Rightarrow> str16 \<Rightarrow> str16 \<Rightarrow> ('w sys, bool) state" where
  "chmodFile P path mode =
     (if mode = to16 P [] then State_Monad.return False
      else do {
        there \<leftarrow> access P (c_str P path);
        if there then do {
          dir \<leftarrow> opendir P (c_str P path);
          if dir then State_Monad.return False
          else do {
            let res = fmt_buf SIZE_1K (''chmod '' @ c_str P mode @ '' '' @ c_str P path);
            ret \<leftarrow> mySystem P (Some res);
            if sint ret < 0 then State_Monad.return False
            else do {
              ok \<leftarrow> checkFileMode P (c_str P path) (c_str P mode) (length (c_str P mode));
              if \<not> ok then State_Monad.return False
              else State_Monad.return True }}}
        else State_Monad.return False })"

definition chmodDir :: "'w platform \<Rightarrow> str16 \<Rightarrow> str16 \<Rightarrow> ('w sys, bool) state" where
  "chmodDir P path mode =
     (if mode = to16 P [] \<or> path = to16 P [] then State_Monad.return False
      else do {
        dir \<leftarrow> opendir P (c_str P path);
        if dir then do {
          let res = fmt_buf SIZE_1K (''chmod -R '' @ c_str P mode @ '' '' @ c_str P path);
          ret \<leftarrow> mySystem P (Some res);
          if sint ret < 0 then State_Monad.return False
          else do {
            ok \<leftarrow> checkFileMode P (c_str P path) (c_str P mode) (length (c_str P mode));
            if \<not> ok then State_Monad.return False
            else State_Monad.return True }}
        else State_Monad.return False })"

section \<open>Removing a file\<close>

definition rmFile :: "'w platform \<Rightarrow> str16 \<Rightarrow> ('w sys, bool) state" where
  "rmFile P path =
     (if path = to16 P [] then State_Monad.return False
      else do {
        there \<leftarrow> access P (c_str P path);
        if there then do {
          dir \<leftarrow> opendir P (c_str P path);
          if dir then State_Monad.return False
          else do {
            let res = fmt_buf SIZE_1K (''rm -f '' @ c_str P path);
            ret \<leftarrow> mySystem P (Some res);
            if sint ret < 0 then State_Monad.return False
            else State_Monad.return True }}
        else State_Monad.return False })"

section \<open>Packing the logs\<close>

definition tar_line :: "'w platform \<Rightarrow> string" where
  "tar_line P = ''tar zcvf /sdcard/localhost.tar.gz '' @ CLIENT_LOG @ '' '' @ PROC_LAST_LOG @
     '' '' @ TOMBSTONES @ '' '' @ SYSTEM_LOG @ ''> /dev/null''"

definition mv_line :: "string \<Rightarrow> string" where
  "mv_line name = ''mv /sdcard/localhost.tar.gz /sdcard/'' @ name"

text \<open>
  The block that makes sure of \<open>/data/tombstones\<close>: the result says whether to go on.
\<close>

definition ensure_tombstones :: "'w platform \<Rightarrow> ('w sys, bool) state" where
  "ensure_tombstones P = do {
     there \<leftarrow> access P TOMBSTONES;
     if there then State_Monad.return True
     else do {
       ret \<leftarrow> mySystem P (Some ''mkdir /data/tombstones'');
       if sint ret < 0 then State_Monad.return False
       else do {
         ok \<leftarrow> chmodDir P (to16 P ''/data/tombstones'') (to16 P ''766'');
         if \<not> ok then State_Monad.return False else State_Monad.return True }}}"

definition collect_locked :: "'w platform \<Rightarrow> str16 \<Rightarrow> ('w sys, bool) state" where
  "collect_locked P zipFilename = do {
     ret1 \<leftarrow> mySystem P (Some ''save_systeminfo'');
     if sint ret1 < 0 then State_Monad.return False
     else do {
       a1 \<leftarrow> access P SYSTEM_LOG;
       if \<not> a1 then State_Monad.return False
       else do {
         go \<leftarrow> ensure_tombstones P;
         if \<not> go then State_Monad.return False
         else do {
           a2 \<leftarrow> access P CLIENT_LOG;
           if \<not> a2 then State_Monad.return False
           else do {
             a3 \<leftarrow> access P PROC_LAST_LOG;
             if \<not> a3 then State_Monad.return False
             else do {
               ret2 \<leftarrow> mySystem P (Some (fmt_buf SIZE_1K (tar_line P)));
               if sint ret2 < 0 then State_Monad.return False
               else do {
                 ret3 \<leftarrow> mySystem P (Some (fmt_buf SIZE_1K (mv_line (c_str P zipFilename))));
                 if sint ret3 < 0 then State_Monad.return False
                 else do {
                   emit ESync;
                   State_Monad.return True }}}}}}}}"

definition collectLogFiles_block :: "'w platform \<Rightarrow> str16 \<Rightarrow> ('w sys, bool) state" where
  "collectLogFiles_block P zipFilename =
     (if zipFilename = to16 P [] then State_Monad.return False
      else if \<not> contains (c_str P zipFilename) ''.zip'' then State_Monad.return False
      else with_lock LogLock (collect_locked P zipFilename))"

section \<open>Frames\<close>

context command_frame
begin

lemma keeps_checkFileMode: "keeps R (checkFileMode P path mode n)"
  by (auto simp: checkFileMode_def Let_def intro!: keeps_cmd)

end

context effect_frame
begin

lemma keeps_chmodFile: "keeps R (chmodFile P path mode)"
  by (auto simp: chmodFile_def Let_def intro!: keeps_eff keeps_checkFileMode)

lemma keeps_chmodDir: "keeps R (chmodDir P path mode)"
  by (auto simp: chmodDir_def Let_def intro!: keeps_eff keeps_checkFileMode)

lemma keeps_rmFile: "keeps R (rmFile P path)"
  by (auto simp: rmFile_def Let_def intro!: keeps_eff)

lemma keeps_ensure_tombstones: "keeps R (ensure_tombstones P)"
  by (auto simp: ensure_tombstones_def intro!: keeps_eff keeps_chmodDir)

lemma keeps_collect_locked: "keeps R (collect_locked P name)"
  by (auto simp: collect_locked_def intro!: keeps_eff keeps_ensure_tombstones)

lemma keeps_collectLogFiles: "keeps R (collectLogFiles_block P name)"
  by (auto simp: collectLogFiles_block_def intro!: keeps_eff keeps_collect_locked)

lemmas keeps_files = keeps_chmodFile keeps_chmodDir keeps_rmFile keeps_collectLogFiles

end

end
