(* ===== verification/ProductDevice.thy ===== *)
theory ProductDevice
  imports ProductFiles
begin

text \<open>
  The device operations of \<open>RjcoreServiceProduct.cpp\<close>: power mode, LEDs, reboot and the
  display resolution stored in the vendor sector of the flash.
\<close>

definition RKNAND_DEVICE :: string where "RKNAND_DEVICE = ''/dev/rknand_sys_storage''"
definition LCDINFO_PATH :: string where "LCDINFO_PATH = ''/sdcard/com.ruijie.rccstu/lcdinfo.ini''"
definition VENDOR_SECTOR_OP_TAG :: "32 word" where "VENDOR_SECTOR_OP_TAG = 0x444E4556"
definition RKNAND_SYS_STORGAE_DATA_LEN :: nat where "RKNAND_SYS_STORGAE_DATA_LEN = 512"
definition MAX_RESOLUTION_SUPPORT :: nat where "MAX_RESOLUTION_SUPPORT = 10"
definition RESOLUTION_INFO_LEN :: nat where "RESOLUTION_INFO_LEN = 4"

definition resolutionIndex :: "string list" where
  "resolutionIndex = [''800x600'', ''1024x768'', ''1280x720'', ''1280x1024'', ''1360x768'',
     ''1366x768'', ''1440x900'', ''1600x900'', ''1680x1050'', ''1920x1080'']"

section \<open>Power mode and restart\<close>

text \<open>The product types without a power mode.\<close>

definition no_power_mode :: "'w platform \<Rightarrow> str16 \<Rightarrow> bool" where
  "no_power_mode P t \<longleftrightarrow>
     t = to16 P ''Rain100'' \<or> t = to16 P ''Rain100s'' \<or> t = to16 P ''Rain100S'' \<or> t = to16 P []"

definition setPowerState :: "'w platform \<Rightarrow> cint \<Rightarrow> ('w sys, unit) state" where
  "setPowerState P powerState =
     (if sint powerState < 0 \<or> 1 < sint powerState then State_Monad.return ()
      else do {
        t \<leftarrow> asks mProductType;
        if no_power_mode P t then State_Monad.return ()
        else do {
          let res = fmt_buf 128 (''beginmode '' @ show_dec (sint powerState));
          _ \<leftarrow> mySystem P (Some res);
          State_Monad.return () }})"

text \<open>A digit of the output: \<open>res[0] - '0'\<close>, or \<open>-1\<close> when it is below \<open>'0'\<close>.\<close>

definition first_digit :: "'w platform \<Rightarrow> cbuf \<Rightarrow> cint" where
  "first_digit P res =
     (if char_val (char_signed P) (res ! 0) < 48 then - 1
      else word_of_int (char_val (char_signed P) (res ! 0) - 48))"

definition getPowerState :: "'w platform \<Rightarrow> ('w sys, cint) state" where
  "getPowerState P = do {
     t \<leftarrow> asks mProductType;
     if no_power_mode P t then State_Monad.return 0
     else do {
       res \<leftarrow> executeCmd P (Some ''beginmode 2'') (zeroed SIZE_1K) SIZE_1K;
       State_Monad.return (first_digit P res) }}"

definition reboot :: "'w platform \<Rightarrow> ('w sys, unit) state" where
  "reboot P = do { _ \<leftarrow> mySystem P (Some ''reboot''); State_Monad.return () }"

definition shutdown :: "'w platform \<Rightarrow> ('w sys, unit) state" where
  "shutdown P = do { _ \<leftarrow> mySystem P (Some ''reboot -p''); State_Monad.return () }"

section \<open>LEDs\<close>

definition get_led_line :: "cint \<Rightarrow> string" where
  "get_led_line color = ''get_LED_ctrl '' @ show_dec (sint color) @ '' | awk '' @ sq ''{print $4}''"

definition set_led_line :: "cint \<Rightarrow> cint \<Rightarrow> string" where
  "set_led_line color st = ''set_LED_ctrl '' @ show_dec (sint color) @ '' '' @ show_dec (sint st)"

definition getLedStatus :: "'w platform \<Rightarrow> cint \<Rightarrow> ('w sys, cint) state" where
  "getLedStatus P color =
     (if sint color < 0 \<or> 2 < sint color then State_Monad.return (- 1)
      else do {
        t \<leftarrow> asks mProductType;
        if t \<noteq> to16 P ''Rain200S'' then State_Monad.return (- 1)
        else do {
          let cmd = fmt_buf 128 (get_led_line color);
          res \<leftarrow> executeCmd P (Some cmd) (zeroed 128) 128;
          State_Monad.return (first_digit P res) }})"

definition setLedStatus :: "'w platform \<Rightarrow> cint \<Rightarrow> cint \<Rightarrow> ('w sys, unit) state" where
  "setLedStatus P color st =
     (if sint color < 0 \<or> 2 < sint color then State_Monad.return ()
      else if sint st < 0 \<or> 1 < sint st then State_Monad.return ()
      else do {
        t \<leftarrow> asks mProductType;
        if t \<noteq> to16 P ''Rain200S'' then State_Monad.return ()
        else do {
          let res = fmt_buf 128 (set_led_line color st);
          _ \<leftarrow> mySystem P (Some res);
          State_Monad.return () }})"

section \<open>Resolution\<close>

text \<open>
  The vendor sector after the code has put a resolution into it (the target is
  little-endian): byte 1 is the flag, 2-3 and 4-5 the sizes, 6 the refresh rate.
\<close>

definition stamp_sector :: "vsector \<Rightarrow> vsector" where
  "stamp_sector sd = sd\<lparr>vs_tag := VENDOR_SECTOR_OP_TAG,
     vs_len := of_nat (RKNAND_SYS_STORGAE_DATA_LEN - 8)\<rparr>"

definition put_short :: "nat \<Rightarrow> cint \<Rightarrow> 8 word list \<Rightarrow> 8 word list" where
  "put_short i v d = d[i := ucast v, Suc i := ucast (drop_bit 8 (ucast v :: 16 word))]"

definition put_resolution ::
  "cint \<Rightarrow> cint \<Rightarrow> cint \<Rightarrow> cint \<Rightarrow> 8 word list \<Rightarrow> 8 word list" where
  "put_resolution xres yres refresh flag d =
     (let d1 = d[1 := ucast flag]
      in if flag \<noteq> 0
         then (put_short 4 yres (put_short 2 xres (d1[1 := 0xAC])))[6 := ucast refresh]
         else d1)"

definition ioctl :: "'w platform \<Rightarrow> ioctl_req \<Rightarrow> vsector \<Rightarrow> ('w sys, cint \<times> vsector) state" where
  "ioctl P req sd = do {
     emit (case req of GET_VENDOR_SECTOR0 \<Rightarrow> EGetSector | STORE_VENDOR_SECTOR0 \<Rightarrow> EStoreSector);
     on_world (\<lambda>w. case pf_ioctl P req sd w of (r, sd', w') \<Rightarrow> ((r, sd'), w')) }"

definition setDeviceResolution ::
  "'w platform \<Rightarrow> cint \<Rightarrow> cint \<Rightarrow> cint \<Rightarrow> cint \<Rightarrow> ('w sys, bool) state" where
  "setDeviceResolution P xres yres refresh flag =
     (if sint refresh < 0 \<or> 100 < sint refresh then State_Monad.return False
      else if sint flag < 0 \<or> 1 < sint flag then State_Monad.return False
      else if sint xres < 800 \<or> 2560 < sint xres then State_Monad.return False
      else if sint yres < 600 \<or> 1600 < sint yres then State_Monad.return False
      else do {
        fd \<leftarrow> asks (\<lambda>s. pf_open P RKNAND_DEVICE (world s));
        emit (EOpen RKNAND_DEVICE (0 \<le> sint fd));
        if sint fd < 0 then State_Monad.return False
        else do {
          (ret1, sd1) \<leftarrow> ioctl P GET_VENDOR_SECTOR0 (stamp_sector (pf_stack P));
          if sint ret1 < 0 then do { emit EClose; State_Monad.return False }
          else do {
            let sd2 = stamp_sector sd1;
            let sd3 = sd2\<lparr>vs_data := put_resolution xres yres refresh flag (vs_data sd2)\<rparr>;
            (ret2, sd4) \<leftarrow> ioctl P STORE_VENDOR_SECTOR0 sd3;
            if sint ret2 < 0 then do { emit EClose; State_Monad.return False }
            else do {
              (ret3, sd5) \<leftarrow> ioctl P GET_VENDOR_SECTOR0 (stamp_sector sd4);
              if sint ret3 < 0 then do { emit EClose; State_Monad.return False }
              else do {
                emit EClose;
                State_Monad.return True }}}}})"

definition WM_CMD :: string where
  "WM_CMD = ''wm size | grep '' @ dq ''Physical size:'' @ '' | awk '' @ sq ''{print $3}''"

definition getCurrentResolution_block :: "'w platform \<Rightarrow> ('w sys, str16) state" where
  "getCurrentResolution_block P = do {
     res \<leftarrow> executeCmd P (Some WM_CMD) (zeroed SIZE_1K) SIZE_1K;
     check_str16_res P res (State_Monad.return (to16 P (cstr (chomp res)))) }"

text \<open>The mask of supported modes from the first two bytes, and the list printed from it.\<close>

definition support_mask :: "'w platform \<Rightarrow> cbuf \<Rightarrow> cint" where
  "support_mask P buf =
     (let i1 = word_of_int (char_val (char_signed P) (buf ! 1));
          i2 = push_bit 8 i1 OR word_of_int (char_val (char_signed P) (buf ! 0))
      in i2 AND 0x3FF)"

definition support_round :: "cint \<Rightarrow> cbuf \<Rightarrow> nat \<Rightarrow> cbuf" where
  "support_round supportIndex res i =
     (if supportIndex AND push_bit i 1 \<noteq> 0
      then strcat res (fmt_buf 128 (''{'' @ resolutionIndex ! i @ ''},''))
      else res)"

definition drop_comma :: "cbuf \<Rightarrow> cbuf" where
  "drop_comma res =
     (let len = length (cstr res)
      in if len = 0 then res
         else if res ! (len - 1) = CHR '','' then res[len - 1 := NUL] else res)"

definition getSupportResolution :: "'w platform \<Rightarrow> ('w sys, str16) state" where
  "getSupportResolution P = do {
     file \<leftarrow> fopen P LCDINFO_PATH ''rb'';
     (case file of
        None \<Rightarrow> State_Monad.return (to16 P [])
      | Some f \<Rightarrow> do {
          let (bytes, f1) = fread f RESOLUTION_INFO_LEN;
          let buf = poke 0 bytes (zeroed RESOLUTION_INFO_LEN);
          if length bytes \<noteq> RESOLUTION_INFO_LEN
          then do { emit EFclose; State_Monad.return (to16 P []) }
          else do {
            let res = foldl (support_round (support_mask P buf)) (zeroed SIZE_1K)
                        [1..<MAX_RESOLUTION_SUPPORT];
            note_overrun SIZE_1K res;
            emit EFclose;
            State_Monad.return (to16 P (cstr (drop_comma res))) }})}"

section \<open>Frames\<close>

context command_frame
begin

lemma keeps_setPowerState: "keeps R (setPowerState P x)"
  by (auto simp: setPowerState_def Let_def intro!: keeps_cmd)

lemma keeps_getPowerState: "keeps R (getPowerState P)"
  by (auto simp: getPowerState_def intro!: keeps_cmd)

lemma keeps_restart: "keeps R (reboot P)" "keeps R (shutdown P)"
  by (auto simp: reboot_def shutdown_def intro!: keeps_cmd)

lemma keeps_led: "keeps R (getLedStatus P c)" "keeps R (setLedStatus P c x)"
  by (auto simp: getLedStatus_def setLedStatus_def Let_def intro!: keeps_cmd)

lemma keeps_getCurrentResolution: "keeps R (getCurrentResolution_block P)"
  by (auto simp: getCurrentResolution_block_def intro!: keeps_cmd keeps_check_str16_res)

lemmas keeps_device_cmd = keeps_setPowerState keeps_getPowerState keeps_restart keeps_led
  keeps_getCurrentResolution

end

context effect_frame
begin

lemma keeps_ioctl: "keeps R (ioctl P req sd)"
  by (auto simp: ioctl_def intro!: keeps_eff)

lemma keeps_setDeviceResolution: "keeps R (setDeviceResolution P x y r f)"
  by (auto simp: setDeviceResolution_def Let_def intro!: keeps_eff keeps_ioctl)

lemma keeps_getSupportResolution: "keeps R (getSupportResolution P)"
  by (auto simp: getSupportResolution_def Let_def split: prod.split intro!: keeps_eff)

lemmas keeps_device = keeps_device_cmd keeps_setDeviceResolution keeps_getSupportResolution

end

end
