(* ===== verification/Service.thy ===== *)
theory Service
  imports Binder ProductDevice
begin

text \<open>
  The object \<open>RjcoreService\<close>: the interface with every function implemented, served by
  \<open>onTransact\<close>.  The frames of the components add up to frames of the whole server.
\<close>

definition RjcoreService :: "'w platform \<Rightarrow> 'w sys irjcore" where
  "RjcoreService P = \<lparr>
     i_getCpuInfo = getCpuInfo P,
     i_getAndroidVersion = getAndroidVersion P,
     i_getSystemVersion = getSystemVersion P,
     i_getSerialNumber = getSerialNumber P,
     i_getProductType = getProductType P,
     i_getHardwareVesion = getHardwareVesion P,
     i_getProductId = getProductId P,
     i_getProductName = getProductName P,
     i_getBaseboardInfo = getBaseboardInfo P,
     i_getMemoryInfo = getMemoryInfo P,
     i_getStorageInfo = getStorageInfo P,
     i_setPowerState = setPowerState P,
     i_getPowerState = getPowerState P,
     i_collectLogFiles_block = collectLogFiles_block P,
     i_chmodFile = chmodFile P,
     i_chmodDir = chmodDir P,
     i_rmFile = rmFile P,
     i_reboot = reboot P,
     i_shutdown = shutdown P,
     i_getLedStatus = getLedStatus P,
     i_setLedStatus = setLedStatus P,
     i_setDeviceResolution = setDeviceResolution P,
     i_getCurrentResolution_block = getCurrentResolution_block P,
     i_getSupportResolution = getSupportResolution P,
     i_getPropertyValue = getPropertyValue P,
     i_getNetcardState = getNetcardState P,
     i_getNetcardCurSpeed = getNetcardCurSpeed P,
     i_getNetcardMaxSpeed = getNetcardMaxSpeed P,
     i_startAvahi = startAvahi P,
     i_stopAvahi = stopAvahi P,
     i_checkIpConflict_block = checkIpConflict_block P,
     i_ping_block = ping_block P,
     i_checkBandwidth_block = checkBandwidth_block P,
     i_getOtaResult = getOtaResult P,
     i_isProcessRunning = isProcessRunning P,
     i_getProcessId = getProcessId P,
     i_killByProcessName = killByProcessName P \<rparr>"

text \<open>One call into the server process.\<close>

definition serve ::
  "'w platform \<Rightarrow> 'p parcel_ops \<Rightarrow> arg_order \<Rightarrow> (32 word \<Rightarrow> 'p \<Rightarrow> 'p \<Rightarrow> ('w sys, 'p) transacted) \<Rightarrow>
     32 word \<Rightarrow> 'p \<Rightarrow> 'p \<Rightarrow> ('w sys, 'p) transacted" where
  "serve P ops ord parent = onTransact ops ord (RjcoreService P) parent"

section \<open>Frames of the server\<close>

context effect_frame
begin

lemma keeps_perform: "keeps R (perform (RjcoreService P) q)"
  by (cases q)
     (simp_all add: RjcoreService_def keeps_application keeps_getOtaResult keeps_network
        keeps_checkBandwidth keeps_info keeps_files keeps_device)

end

text \<open>What the code never does again after construction: write the fields of the service.\<close>

interpretation members_server: irjcore_frame same_members "RjcoreService P" for P
  by unfold_locales (rule members_frame.keeps_perform)

text \<open>The disposition of \<open>SIGCHLD\<close> is put back by every operation.\<close>

interpretation sigchld_server: irjcore_frame same_sigchld "RjcoreService P" for P
  by unfold_locales (rule sigchld_frame.keeps_perform)

interpretation trace_server: irjcore_frame trace_grows "RjcoreService P" for P
  by unfold_locales (rule trace_frame.keeps_perform)

end
