(* ===== verification/Ledger.thy ===== *)
theory Ledger
  imports Service
begin

text \<open>
  The balance of resources over the trace: pipes, stdio files, the device descriptor and the
  two mutexes are given back by every operation, directory streams by none.
\<close>

lemma keeps_held_opendir: "h \<noteq> HDir \<Longrightarrow> keeps (same_held h) (opendir P path)"
  by (cases h) (simp_all add: keeps_def opendir_def same_held_def)

lemma keeps_held_with_lock: "keeps (same_held h) m \<Longrightarrow> keeps (same_held h) (with_lock l m)"
  by (cases h) (auto simp: keeps_def with_lock_def same_held_def case_prod_beta)

lemma keeps_held_chmodFile: "h \<noteq> HDir \<Longrightarrow> keeps (same_held h) (chmodFile P path mode)"
  by (auto simp: chmodFile_def Let_def
      intro!: held_frame.keeps_cmd held_frame.keeps_checkFileMode keeps_held_opendir)

lemma keeps_held_chmodDir: "h \<noteq> HDir \<Longrightarrow> keeps (same_held h) (chmodDir P path mode)"
  by (auto simp: chmodDir_def Let_def
      intro!: held_frame.keeps_cmd held_frame.keeps_checkFileMode keeps_held_opendir)

lemma keeps_held_rmFile: "h \<noteq> HDir \<Longrightarrow> keeps (same_held h) (rmFile P path)"
  by (auto simp: rmFile_def Let_def intro!: held_frame.keeps_cmd keeps_held_opendir)

lemma keeps_held_collect: "h \<noteq> HDir \<Longrightarrow> keeps (same_held h) (collectLogFiles_block P name)"
  by (auto simp: collectLogFiles_block_def collect_locked_def ensure_tombstones_def
      intro!: held_frame.keeps_cmd keeps_held_with_lock keeps_held_chmodDir)

lemma keeps_held_bandwidth: "keeps (same_held h) (checkBandwidth_block P ip u c)"
  by (auto simp: checkBandwidth_block_def intro!: keeps_held_with_lock held_frame.keeps_bandwidth_locked)

lemma held_getSupportResolution:
  "held h (trace (end_of (getSupportResolution P) s)) = held h (trace s)"
  by (cases h) (auto simp: getSupportResolution_def fopen_def Let_def case_prod_beta split: option.split)

lemma run_ioctl_trace: "trace (end_of (ioctl P req sd) s) =
    trace s @ [case req of GET_VENDOR_SECTOR0 \<Rightarrow> EGetSector | STORE_VENDOR_SECTOR0 \<Rightarrow> EStoreSector]"
  by (simp add: ioctl_def)

lemma held_setDeviceResolution:
  "held h (trace (end_of (setDeviceResolution P x y r f) s)) = held h (trace s)"
  by (cases h) (auto simp: setDeviceResolution_def Let_def case_prod_beta run_ioctl_trace)

lemma keeps_held_device:
  "keeps (same_held h) (getSupportResolution P)" "keeps (same_held h) (setDeviceResolution P x y r f)"
  by (simp_all add: keeps_def same_held_def held_getSupportResolution held_setDeviceResolution)

lemma keeps_held_perform: "h \<noteq> HDir \<Longrightarrow> keeps (same_held h) (perform (RjcoreService P) q)"
  by (cases q)
     (simp_all add: RjcoreService_def held_frame.keeps_application held_frame.keeps_getOtaResult
        held_frame.keeps_network held_frame.keeps_info held_frame.keeps_device_cmd
        keeps_held_bandwidth keeps_held_chmodFile keeps_held_chmodDir keeps_held_rmFile
        keeps_held_collect keeps_held_device)

interpretation pipe_server: irjcore_frame "same_held HPipe" "RjcoreService P" for P
  by unfold_locales (rule keeps_held_perform, simp)

interpretation file_server: irjcore_frame "same_held HFile" "RjcoreService P" for P
  by unfold_locales (rule keeps_held_perform, simp)

interpretation fd_server: irjcore_frame "same_held HFd" "RjcoreService P" for P
  by unfold_locales (rule keeps_held_perform, simp)

interpretation mutex_server: irjcore_frame "same_held (HMutex m)" "RjcoreService P" for m P
  by unfold_locales (rule keeps_held_perform, simp)

interpretation dir_frame: effect_frame "more_held HDir"
  apply unfold_locales
  subgoal by (simp add: more_held_def)
  subgoal by (auto simp: more_held_def)
  subgoal by (simp add: more_held_def)
  subgoal by (simp add: more_held_def)
  subgoal for s e by (cases e) (simp_all add: more_held_def)
  done

interpretation dir_server: irjcore_frame "more_held HDir" "RjcoreService P" for P
  by unfold_locales (rule dir_frame.keeps_perform)

lemma keeps_balanced:
  assumes "h \<noteq> HDir" "\<And>code data reply. keeps (same_held h) (parent code data reply)"
  shows "keeps (same_held h) (serve_requests (serve P ops ord parent) empty_reply qs)"
proof (cases h)
  case HPipe
  then show ?thesis using assms
    by (auto simp: serve_def intro!: pipe_server.keeps_serve_requests pipe_server.keeps_onTransact)
next
  case HFile
  then show ?thesis using assms
    by (auto simp: serve_def intro!: file_server.keeps_serve_requests file_server.keeps_onTransact)
next
  case HFd
  then show ?thesis using assms
    by (auto simp: serve_def intro!: fd_server.keeps_serve_requests fd_server.keeps_onTransact)
next
  case (HMutex m)
  then show ?thesis using assms
    by (auto simp: serve_def intro!: mutex_server.keeps_serve_requests mutex_server.keeps_onTransact)
qed (use assms in simp)

end
