(* ===== verification/Bench.thy ===== *)
theory Bench
  imports CoreService
begin

text \<open>
  A machine to compute on: the world is a table from names (a command, a path, a property)
  to texts.  A command that is not in the table cannot be started, a path that is not in it
  does not exist, and the text \<open><dir>\<close> stands for a directory.
\<close>

type_synonym table = "(string \<times> string) list"

definition bench :: "bool \<Rightarrow> nat \<Rightarrow> table platform" where
  "bench sg L = \<lparr>
     char_signed = sg, long_bits = L, prop_max = 92,
     to16 = map (\<lambda>c. of_char c), to8 = map (\<lambda>x. char_of (unat x)),
     inet_pton4 = (\<lambda>s. list_all (\<lambda>c. isdigit c \<or> c = CHR ''.'') s), inet_pton6 = (\<lambda>s. False),
     pf_popen = (\<lambda>c w. (map_of w c, w)),
     pf_system = (\<lambda>c w. (0, w)),
     pf_access = (\<lambda>p w. map_of w p \<noteq> None),
     pf_opendir = (\<lambda>p w. (map_of w p = Some ''<dir>'', w)),
     pf_fopen = (\<lambda>p m w. map_option (\<lambda>c. (c, True)) (map_of w p)),
     pf_getprop = (\<lambda>k w. case map_of w k of None \<Rightarrow> [] | Some v \<Rightarrow> v),
     pf_statfs = (\<lambda>p w. if map_of w p = None then None else Some (3145728, 4096)),
     pf_open = (\<lambda>p w. 3),
     pf_ioctl = (\<lambda>req sd w. (0, sd, w)),
     pf_stack = \<lparr>vs_tag = 0, vs_len = 0, vs_data = replicate 512 0\<rparr>,
     pf_time = (\<lambda>w. (0, w)) \<rparr>"

definition bench_state :: "table \<Rightarrow> table sys" where
  "bench_state w = \<lparr>
     world = w, trace = [], sigchld = SIG_IGN, overrun = False, mInit = False,
     mSerialNum = [], mProductType = [], mHardwareVersion = [], mProductId = [] \<rparr>"

lemmas bench_simps = bench_def bench_state_def

lemma bench_fields [simp]:
  "char_signed (bench sg L) = sg" "long_bits (bench sg L) = L" "prop_max (bench sg L) = 92"
  "to16 (bench sg L) s = map (\<lambda>c. of_char c) s" "to8 (bench sg L) x = map (\<lambda>x. char_of (unat x)) x"
  "pf_popen (bench sg L) c w = (map_of w c, w)" "pf_system (bench sg L) c w = (0, w)"
  "pf_access (bench sg L) p w = (map_of w p \<noteq> None)"
  "pf_opendir (bench sg L) p w = (map_of w p = Some ''<dir>'', w)"
  "pf_fopen (bench sg L) p m w = map_option (\<lambda>c. (c, True)) (map_of w p)"
  "pf_getprop (bench sg L) k w = (case map_of w k of None \<Rightarrow> [] | Some v \<Rightarrow> v)"
  "pf_statfs (bench sg L) p w = (if map_of w p = None then None else Some (3145728, 4096))"
  "inet_pton4 (bench sg L) s = list_all (\<lambda>c. isdigit c \<or> c = CHR ''.'') s"
  "inet_pton6 (bench sg L) s = False"
  by (simp_all add: bench_def)

lemma bench_state_fields [simp]:
  "world (bench_state w) = w" "trace (bench_state w) = []" "sigchld (bench_state w) = SIG_IGN"
  "overrun (bench_state w) = False" "mInit (bench_state w) = False" "mProductType (bench_state w) = []"
  by (simp_all add: bench_state_def)

text \<open>The two string conversions undo each other on bytes.\<close>

lemma bench_round_trip [simp]: "to8 (bench sg L) (to16 (bench sg L) s) = s"
proof -
  have "char_of (unat (of_char c :: 16 word)) = c" for c
  proof -
    have "(of_char c :: nat) < 2 ^ 16" by (rule less_trans [OF nat_of_char_less_256]) simp
    then have "(of_char c :: nat) mod 2 ^ 16 = of_char c" by (rule mod_less)
    then have "unat (of_char c :: 16 word) = of_char c"
      using unat_of_nat [of "of_char c", where 'a = 16] by (simp add: of_nat_of_char)
    then show ?thesis by simp
  qed
  then show ?thesis by (simp add: comp_def)
qed

lemma bench_c_str [simp]: "no_nul s \<Longrightarrow> c_str (bench sg L) (to16 (bench sg L) s) = s"
  by (simp only: c_str_def bench_round_trip cstr_id)

end
