(* ===== verification/CoreProps.thy ===== *)
theory CoreProps
  imports Bench
begin

text \<open>
  What \<open>RjcoreService.cpp\<close> guarantees: the output of a command is kept within its array,
  \<open>mySystem\<close> leaves the signal disposition alone, and the board information in
  \<open>/proc/sn.info\<close> is read back as it is laid out there.
\<close>

section \<open>Commands\<close>

text \<open>Nothing outside the \<open>n\<close> bytes at \<open>pos\<close> is touched by the loop.\<close>

lemma fill_outside:
  "pos + n \<le> length buf \<Longrightarrow>
   take pos (fill n out pos buf) = take pos buf \<and> drop (pos + n) (fill n out pos buf) = drop (pos + n) buf"
proof (induction n out pos buf rule: fill_induct)
  case (stop n out pos buf)
  then show ?case by simp
next
  case (full n out pos buf chunk rest)
  then show ?case by (simp add: drop_poke_after take_poke_before)
next
  case (round n out pos buf chunk rest)
  let ?k = "length (cstr chunk)"
  have k: "?k \<le> length chunk" by (rule length_cstr_le)
  let ?f = "fill n out pos buf"
  have 1: "take (pos + ?k) ?f = take (pos + ?k) (poke pos (chunk @ [NUL]) buf)"
    and 2: "drop (pos + n) ?f = drop (pos + n) (poke pos (chunk @ [NUL]) buf)"
    using round k by simp_all
  have "take pos (take (pos + ?k) ?f) = take pos buf"
    using 1 round.hyps by (simp add: take_poke_before)
  moreover have "drop (pos + n) ?f = drop (pos + n) buf"
    using 2 round.hyps by (simp add: drop_poke_after)
  ultimately show ?case by simp
qed

text \<open>
  C22: For output without NUL bytes, \<open>executeCmd\<close> leaves in the array exactly the first
  \<open>n - 1\<close> bytes of what the command writes, whatever its lines are, and a terminator; the pipe is
  opened and closed once and nothing else of the machine changes.
\<close>

lemma executeCmd_output:
  assumes "pf_popen P c (world s) = (Some out, w)" "no_nul out" "c \<noteq> []" "0 < n" "n \<le> length result"
  shows "run_state (executeCmd P (Some c) result n) s =
    (if out = [] \<and> 1 < n then result else poke 0 (take (n - 1) out @ [NUL]) result,
     s\<lparr>world := w, trace := trace s @ [EPopen c True, EPclose]\<rparr>)"
  using assms by (simp add: executeCmd_def popen_def Let_def fill_no_nul)

lemma executeCmd_output_witness:
  "run_state (executeCmd (bench False 32) (Some ''pidof init'') (zeroed 4) 4)
     (bench_state [(''pidof init'', ''1'' @ [NL] @ ''2345'')]) =
   (''1'' @ [NL] @ ''2'' @ [NUL],
    (bench_state [(''pidof init'', ''1'' @ [NL] @ ''2345'')])
      \<lparr>trace := [EPopen ''pidof init'' True, EPclose]\<rparr>)"
  using executeCmd_output [of "bench False 32" "''pidof init''"
      "bench_state [(''pidof init'', ''1'' @ [NL] @ ''2345'')]" "''1'' @ [NL] @ ''2345''"
      "[(''pidof init'', ''1'' @ [NL] @ ''2345'')]" 4 "zeroed 4"]
  by (simp add: poke_def zeroed_def bench_state_def)

text \<open>
  C15: Whatever a command writes, NUL bytes and lines of any length included, \<open>executeCmd\<close>
  stays inside the \<open>n\<close> bytes it was given: the bytes after them are the same, no overrun is
  noted, and an array that held a terminator there still holds one.
\<close>

lemma executeCmd_in_bounds:
  assumes "0 < n" "n \<le> length result" "NUL \<in> set (take n result)"
  shows "let (buf, s') = run_state (executeCmd P cmd result n) s in
    length buf = length result \<and> drop n buf = drop n result \<and>
    NUL \<in> set (take n buf) \<and> overrun s' = overrun s"
proof -
  have *: "length (fill n out 0 result) = length result \<and> drop n (fill n out 0 result) = drop n result \<and>
      NUL \<in> set (take n (fill n out 0 result))" for out
    using assms fill_length [of 0 n result out] fill_outside [of 0 n result out]
      fill_terminated [of 0 n result out] by simp
  show ?thesis
    using assms * by (auto simp: executeCmd_def popen_def Let_def split: option.split)
qed

lemma executeCmd_in_bounds_witness:
  "let (buf, s') = run_state (executeCmd (bench False 32) (Some ''x'') (zeroed 6) 3)
       (bench_state [(''x'', ''a'' @ [NUL] @ ''bcd'')]) in
    length buf = length (zeroed 6) \<and> drop 3 buf = drop 3 (zeroed 6) \<and>
    NUL \<in> set (take 3 buf) \<and> overrun s' = overrun (bench_state [(''x'', ''a'' @ [NUL] @ ''bcd'')])"
  by (rule executeCmd_in_bounds) (simp_all add: zeroed_def)

text \<open>
  \<open>mySystem\<close> refuses a null or empty command with \<open>-1\<close> and no effect; otherwise it
  returns what \<open>system\<close> returned, the shell has received exactly the command, and the
  disposition of \<open>SIGCHLD\<close> is the one from before the call.
\<close>

lemma mySystem_contract:
  "run_state (mySystem P cmd) s =
     (case cmd of
        None \<Rightarrow> (- 1, s)
      | Some c \<Rightarrow> if c = [] then (- 1, s)
          else (fst (pf_system P c (world s)),
                s\<lparr>world := snd (pf_system P c (world s)), trace := trace s @ [ESystem c]\<rparr>))"
proof (cases cmd)
  case None
  then show ?thesis by (simp add: mySystem_def)
next
  case (Some c)
  then show ?thesis by (cases "c = []") (simp_all add: run_mySystem, simp add: mySystem_def)
qed


section \<open>The board information\<close>

text \<open>
  The layout of \<open>/proc/sn.info\<close> the offsets of \<open>RjcoreService.h\<close> stand for: a length byte
  in front of each of the three strings, the product id as four bytes.
\<close>

definition padded :: "nat \<Rightarrow> string \<Rightarrow> string" where
  "padded k s = s @ replicate (k - length s) NUL"

definition nand_image :: "string \<Rightarrow> string \<Rightarrow> string \<Rightarrow> string \<Rightarrow> string" where
  "nand_image sn ty hw idb =
     padded PRODUCT_TYPE_OFF (char_of (length sn) # NUL # sn) @
     padded (HARDWARE_VERSION_OFF - PRODUCT_TYPE_OFF) (char_of (length ty) # ty) @
     padded (PRODUCT_ID_OFF - HARDWARE_VERSION_OFF) (char_of (length hw) # hw) @ idb"

definition nand_fits :: "string \<Rightarrow> string \<Rightarrow> string \<Rightarrow> string \<Rightarrow> bool" where
  "nand_fits sn ty hw idb \<longleftrightarrow>
     length sn \<le> 30 \<and> length ty \<le> 15 \<and> length hw \<le> 9 \<and> length idb = PRODUCT_ID_LEN \<and>
     no_nul sn \<and> no_nul ty \<and> no_nul hw"

lemma length_padded [simp]: "length s \<le> k \<Longrightarrow> length (padded k s) = k"
  by (simp add: padded_def)

lemma padded_Cons: "padded k (c # s) = c # s @ replicate (k - Suc (length s)) NUL"
  by (simp add: padded_def)

lemma take_padded [simp]: "n \<le> length s \<Longrightarrow> take n (padded k s) = take n s"
  by (simp add: padded_def)

lemma char_val_length: "n < 128 \<Longrightarrow> char_val sg (char_of n) = int n"
proof -
  assume n: "n < 128"
  have "(of_char (char_of n :: char) :: int) = int (of_char (char_of n :: char))"
    by (simp only: of_nat_of_char)
  also have "\<dots> = int n" using n by simp
  finally show ?thesis using n by (simp add: char_val_def)
qed

text \<open>A string stored with its length in front of it is read back.\<close>

lemma readNand_field:
  assumes "seekable f" "content f = pre @ (char_of (length s) # h) @ s @ post"
    "length pre = off" "length s < 128" "length s < 2 ^ long_bits P" "no_nul s" "length h < SIZE_1K"
    "length s + 1 < SIZE_1K" "\<forall>c \<in> set h. c = NUL"
  shows "\<exists>f'. seekable f' \<and> content f' = content f \<and>
    readNand P f off (1 + length h) (zeroed SIZE_1K) True =
      (True, f', poke 0 s (poke 0 (char_of (length s) # h) (zeroed SIZE_1K)))"
proof -
  have sz: "size_of_int (long_bits P) (int (length s)) = length s"
    using assms(5) by (simp add: size_of_int_def nat_mod_distrib flip: of_nat_power of_nat_mod)
  have 1: "take (1 + length h) (drop off (content f)) = char_of (length s) # h"
    using assms(2,3) by simp
  have 2: "take (length s) (drop (off + (1 + length h)) (content f)) = s"
    using assms(2,3) by simp
  have 3: "length s \<le> length (content f) - Suc (off + length h)"
    using assms(2,3) by simp
  show ?thesis
    using assms(1,4) 1 2 3 sz
    by (auto simp: readNand_def fseek_set_def fread_def Let_def char_val_length poke_def)
qed

lemma cstr_all_nul: "\<forall>c \<in> set t. c = NUL \<Longrightarrow> cstr t = []"
  by (cases t) simp_all

lemma cstr_field:
  assumes "no_nul s" "\<forall>c \<in> set h. c = NUL" "length s < m" "length h < m"
  shows "cstr (poke 0 s (poke 0 (char_of (length s) # h) (zeroed m))) = s"
proof (cases "s = []")
  case True
  moreover have "char_of (0 :: nat) = NUL" by code_simp
  ultimately show ?thesis using assms by (simp add: poke_def)
next
  case False
  let ?t = "drop (length s) (poke 0 (char_of (length s) # h) (zeroed m))"
  have "?t = drop (length s - 1) (h @ zeroed (m - Suc (length h)))"
    using False by (cases "length s") (simp_all add: poke_def)
  moreover have "\<forall>c \<in> set (drop (length s - 1) (h @ zeroed (m - Suc (length h)))). c = NUL"
  proof
    fix c assume "c \<in> set (drop (length s - 1) (h @ zeroed (m - Suc (length h))))"
    then have "c \<in> set h \<or> c \<in> set (zeroed (m - Suc (length h)))" using in_set_dropD by fastforce
    then show "c = NUL" using assms(2) by (metis in_set_replicate zeroed_def)
  qed
  ultimately have "\<forall>c \<in> set ?t. c = NUL" by (simp only:)
  then have "cstr ?t = []" by (rule cstr_all_nul)
  moreover have "poke 0 s (poke 0 (char_of (length s) # h) (zeroed m)) = s @ ?t"
    by (simp only: poke_def take_0 append_Nil add_0)
  ultimately show ?thesis using assms(1) by simp
qed

lemma field_in_bounds:
  "length s \<le> m \<Longrightarrow> Suc (length h) \<le> m \<Longrightarrow>
   length (poke 0 s (poke 0 (char_of (length s) # h) (zeroed m))) = m"
  by simp

lemma readNand_bytes:
  assumes "seekable f" "content f = pre @ b" "length pre = off"
  shows "readNand P f off (length b) (zeroed SIZE_1K) False =
    (True, f\<lparr>fpos := off + length b\<rparr>, poke 0 b (zeroed SIZE_1K))"
  using assms by (simp add: readNand_def fseek_set_def fread_def Let_def)

section \<open>The product id\<close>

definition big_endian :: "string \<Rightarrow> nat" where
  "big_endian bs = foldl (\<lambda>v c. 256 * v + of_char c) 0 bs"

lemma id4: "[0..<PRODUCT_ID_LEN] = [0, 1, 2, 3]"
  by (simp add: PRODUCT_ID_LEN_def upt_rec)


lemma uint_scast_low:
  fixes w :: cint
  assumes "L = 32 \<or> L = 64 \<and> uint w < 2 ^ 31"
  shows "uint (take_bit L (scast w :: 64 word)) = uint w"
proof -
  have s: "sint w = signed_take_bit 31 (uint w)" using sint_uint [of w] by simp
  have u: "uint (take_bit L (scast w :: 64 word)) = take_bit L (take_bit 64 (sint w))"
    by (simp only: unsigned_take_bit_eq scast_eq uint_word_of_int_eq len_num1 len_num0 len_bit0) simp
  have t: "take_bit n (uint w) = uint w" if "32 \<le> n" for n
    using that by transfer (simp add: min_def)
  show ?thesis
  proof (cases "L = 32")
    case True
    then show ?thesis using u s t [of 32] by (simp add: take_bit_signed_take_bit)
  next
    case False
    then have "L = 64" "uint w < 2 ^ 31" using assms by simp_all
    moreover from this have "sint w = uint w"
      unfolding s by (intro signed_take_bit_int_eq_self) (simp_all add: order_trans [of _ 0])
    ultimately show ?thesis using u t [of 64] by simp
  qed
qed

lemma uint_byte:
  fixes v :: int
  assumes "0 \<le> v" "v < 256" "k \<le> 24"
  shows "uint (push_bit k (word_of_int v) :: cint) = push_bit k v"
proof -
  have "v * 2 ^ k \<le> v * 2 ^ 24" using assms by (intro mult_left_mono power_increasing) simp_all
  then have "v * 2 ^ k < 2 ^ 32" using assms(2) by simp
  then have "take_bit 32 (push_bit k v) = push_bit k v"
    using assms(1) by (intro take_bit_int_eq_self) (simp_all add: push_bit_eq_mult)
  then show ?thesis
    by (simp add: unsigned_push_bit_eq uint_word_of_int_eq take_bit_push_bit)
qed

lemma or_is_add: "0 \<le> (y :: int) \<Longrightarrow> y < 2 ^ n \<Longrightarrow> push_bit n x OR y = x * 2 ^ n + y"
  using concat_bit_eq [of n y x] by (simp add: concat_bit_def or.commute take_bit_int_eq_self push_bit_eq_mult)

lemma or4_add:
  fixes a b c d :: int
  assumes "0 \<le> b" "b < 256" "0 \<le> c" "c < 256" "0 \<le> d" "d < 256"
  shows "((push_bit 24 a OR push_bit 16 b) OR push_bit 8 c) OR d = ((a * 256 + b) * 256 + c) * 256 + d"
proof -
  have 1: "push_bit 8 c OR d = c * 256 + d" using or_is_add [of d 8 c] assms by simp
  have 2: "push_bit 16 b OR (c * 256 + d) = b * 65536 + (c * 256 + d)"
    using or_is_add [of "c * 256 + d" 16 b] assms by simp
  have 3: "push_bit 24 a OR (b * 65536 + (c * 256 + d)) = a * 16777216 + (b * 65536 + (c * 256 + d))"
    using or_is_add [of "b * 65536 + (c * 256 + d)" 24 a] assms by simp
  show ?thesis by (simp only: or.assoc 1 2 3) simp
qed

text \<open>One byte shifted into its place and read back as an \<open>unsigned long\<close>.\<close>

lemma uint_shifted_byte:
  fixes v :: int
  assumes v: "0 \<le> v" "v < 256" and i: "i < 4" and L: "L = 32 \<or> L = 64 \<and> (i = 0 \<longrightarrow> v < 128)"
  shows "uint (take_bit L (scast (push_bit (24 - 8 * i) (word_of_int v) :: cint) :: 64 word)) = push_bit (24 - 8 * i) v"
proof -
  have u: "uint (push_bit (24 - 8 * i) (word_of_int v) :: cint) = push_bit (24 - 8 * i) v"
    by (rule uint_byte) (simp_all add: v)
  have "push_bit (24 - 8 * i) v < 2 ^ 31" if "L = 64"
  proof (cases "i = 0")
    case True
    then show ?thesis using L that by (simp add: push_bit_eq_mult)
  next
    case False
    have "v * 2 ^ (24 - 8 * i) \<le> v * 2 ^ 16" using False v by (intro mult_left_mono power_increasing) simp_all
    also have "\<dots> < 256 * 2 ^ 16" using v by (intro mult_strict_right_mono) simp_all
    finally show ?thesis by (simp add: push_bit_eq_mult)
  qed
  then show ?thesis using L by (subst uint_scast_low) (auto simp: u)
qed

lemma big_endian_bytes:
  assumes "length idb = 4"
  shows "int (big_endian idb) = ((of_char (idb ! 0) * 256 + of_char (idb ! 1)) * 256 + of_char (idb ! 2)) * 256 + of_char (idb ! 3)"
proof -
  obtain a b c d where "idb = [a, b, c, d]"
    using assms by (auto simp: length_Suc_conv numeral_eq_Suc)
  then show ?thesis by (simp add: big_endian_def of_nat_of_char)
qed

text \<open>When no byte is read as a negative number the four shifts assemble the big-endian value.\<close>

lemma product_id_big_endian:
  assumes "length idb = 4" "\<forall>c \<in> set idb. char_val (char_signed P) c = of_char c"
    "long_bits P = 32 \<or> long_bits P = 64 \<and> (of_char (idb ! 0) :: nat) < 128"
  shows "product_id_of P (idb @ rest) = big_endian idb"
proof -
  define v :: "nat \<Rightarrow> int" where "v i = of_char (idb ! i)" for i
  define w :: "nat \<Rightarrow> cint" where "w i = push_bit (24 - 8 * i) (word_of_int (v i))" for i
  let ?L = "long_bits P"
  have v: "0 \<le> v i" "v i < 256" for i using of_char_bounds by (simp_all add: v_def)
  have val: "char_val (char_signed P) ((idb @ rest) ! i) = v i" if "i < 4" for i
    using assms(1,2) that by (simp add: v_def nth_append)
  have "v 0 = int (of_char (idb ! 0))" by (simp only: v_def of_nat_of_char)
  then have low: "uint (take_bit ?L (scast (w i) :: 64 word)) = push_bit (24 - 8 * i) (v i)" if "i < 4" for i
    unfolding w_def using that v assms(3) by (intro uint_shifted_byte) auto
  have "foldl (id_round (char_signed P) (idb @ rest)) 0 [0..<PRODUCT_ID_LEN] =
      ((scast (w 0) OR scast (w 1)) OR scast (w 2)) OR scast (w 3)"
    by (simp add: id4 id_round_def val w_def del: push_bit_numeral)
  moreover have "int (product_id_of P (idb @ rest)) =
      uint (take_bit ?L (foldl (id_round (char_signed P) (idb @ rest)) 0 [0..<PRODUCT_ID_LEN]))"
    by (simp only: product_id_of_def of_nat_unat)
  ultimately have "int (product_id_of P (idb @ rest)) =
      ((push_bit 24 (v 0) OR push_bit 16 (v 1)) OR push_bit 8 (v 2)) OR v 3"
    using low [of 0] low [of 1] low [of 2] low [of 3]
    by (simp only: take_bit_or unsigned_or_eq) simp
  also have "\<dots> = ((v 0 * 256 + v 1) * 256 + v 2) * 256 + v 3"
    by (rule or4_add) (rule v)+
  also have "\<dots> = int (big_endian idb)"
    by (simp only: v_def big_endian_bytes [OF assms(1)])
  finally show ?thesis by simp
qed


section \<open>Construction\<close>

lemma readNand_image:
  assumes fits: "nand_fits sn ty hw idb" and L: "long_bits P = 32 \<or> long_bits P = 64"
    and f: "seekable f" "content f = nand_image sn ty hw idb"
  shows "\<exists>f'. seekable f' \<and> content f' = nand_image sn ty hw idb \<and>
      readNand P f 0 SERIAL_NUMBER_LEN (zeroed SIZE_1K) True =
        (True, f', poke 0 sn (poke 0 (char_of (length sn) # [NUL]) (zeroed SIZE_1K)))" (is ?sn)
    and "\<exists>f'. seekable f' \<and> content f' = nand_image sn ty hw idb \<and>
      readNand P f PRODUCT_TYPE_OFF 1 (zeroed SIZE_1K) True =
        (True, f', poke 0 ty (poke 0 (char_of (length ty) # []) (zeroed SIZE_1K)))" (is ?ty)
    and "\<exists>f'. seekable f' \<and> content f' = nand_image sn ty hw idb \<and>
      readNand P f HARDWARE_VERSION_OFF 1 (zeroed SIZE_1K) True =
        (True, f', poke 0 hw (poke 0 (char_of (length hw) # []) (zeroed SIZE_1K)))" (is ?hw)
    and "\<exists>f'. readNand P f PRODUCT_ID_OFF PRODUCT_ID_LEN (zeroed SIZE_1K) False =
        (True, f', poke 0 idb (zeroed SIZE_1K))" (is ?id)
proof -
  have Lbig: "n < 2 ^ long_bits P" if "n < 128" for n :: nat
    using that L by auto
  have len: "length sn \<le> 30" "length ty \<le> 15" "length hw \<le> 9" "length idb = PRODUCT_ID_LEN"
    and nn: "no_nul sn" "no_nul ty" "no_nul hw"
    using fits by (simp_all add: nand_fits_def)
  let ?A = "padded PRODUCT_TYPE_OFF (char_of (length sn) # NUL # sn)"
  let ?B = "padded (HARDWARE_VERSION_OFF - PRODUCT_TYPE_OFF) (char_of (length ty) # ty)"
  let ?C = "padded (PRODUCT_ID_OFF - HARDWARE_VERSION_OFF) (char_of (length hw) # hw)"
  have lA: "length ?A = PRODUCT_TYPE_OFF" and lB: "length ?B = HARDWARE_VERSION_OFF - PRODUCT_TYPE_OFF"
    and lC: "length ?C = PRODUCT_ID_OFF - HARDWARE_VERSION_OFF"
    using len by (simp_all add: nand_defs)
  note img = nand_image_def padded_def
  show ?sn
    using readNand_field [of f "[]" sn "[NUL]" "drop (2 + length sn) (nand_image sn ty hw idb)" 0 P]
      f len nn Lbig [of "length sn"] by (simp add: img SERIAL_NUMBER_LEN_def size_defs numeral_2_eq_2)
  have cB: "nand_image sn ty hw idb =
      ?A @ (char_of (length ty) # []) @ ty @ (replicate (15 - length ty) NUL @ ?C @ idb)"
    by (simp add: nand_image_def padded_Cons nand_defs)
  show ?ty
    using readNand_field [OF f(1) trans [OF f(2) cB] lA, of P] f len nn Lbig [of "length ty"]
    by (simp add: size_defs)
  have cC: "nand_image sn ty hw idb =
      (?A @ ?B) @ (char_of (length hw) # []) @ hw @ (replicate (9 - length hw) NUL @ idb)"
    by (simp add: nand_image_def padded_Cons nand_defs)
  have lAB: "length (?A @ ?B) = HARDWARE_VERSION_OFF" using lA lB by (simp add: nand_defs)
  show ?hw
    using readNand_field [OF f(1) trans [OF f(2) cC] lAB, of P] f len nn Lbig [of "length hw"]
    by (simp add: size_defs)
  show ?id
    using readNand_bytes [of f "?A @ ?B @ ?C" idb PRODUCT_ID_OFF P] f len lA lB lC
    by (simp add: nand_image_def nand_defs)
qed

text \<open>The four reads of construction, one after the other on the open board file.\<close>

lemma board_reads:
  assumes fits: "nand_fits sn ty hw idb" and L: "long_bits P = 32 \<or> long_bits P = 64"
  obtains f1 f2 f3 f4 where
    "readNand P \<lparr>content = nand_image sn ty hw idb, fpos = 0, seekable = True\<rparr> 0 SERIAL_NUMBER_LEN (zeroed SIZE_1K) True =
      (True, f1, poke 0 sn (poke 0 (char_of (length sn) # [NUL]) (zeroed SIZE_1K)))"
    "readNand P f1 PRODUCT_TYPE_OFF 1 (zeroed SIZE_1K) True =
      (True, f2, poke 0 ty (poke 0 (char_of (length ty) # []) (zeroed SIZE_1K)))"
    "readNand P f2 HARDWARE_VERSION_OFF 1 (zeroed SIZE_1K) True =
      (True, f3, poke 0 hw (poke 0 (char_of (length hw) # []) (zeroed SIZE_1K)))"
    "readNand P f3 PRODUCT_ID_OFF PRODUCT_ID_LEN (zeroed SIZE_1K) False = (True, f4, poke 0 idb (zeroed SIZE_1K))"
proof -
  note img = readNand_image [OF fits L]
  let ?f = "\<lparr>content = nand_image sn ty hw idb, fpos = 0, seekable = True\<rparr>"
  have "seekable ?f" "content ?f = nand_image sn ty hw idb" by simp_all
  from img(1) [OF this] obtain f1 where f1: "seekable f1" "content f1 = nand_image sn ty hw idb"
    "readNand P ?f 0 SERIAL_NUMBER_LEN (zeroed SIZE_1K) True =
      (True, f1, poke 0 sn (poke 0 (char_of (length sn) # [NUL]) (zeroed SIZE_1K)))" by blast
  from img(2) [OF f1(1,2)] obtain f2 where f2: "seekable f2" "content f2 = nand_image sn ty hw idb"
    "readNand P f1 PRODUCT_TYPE_OFF 1 (zeroed SIZE_1K) True =
      (True, f2, poke 0 ty (poke 0 (char_of (length ty) # []) (zeroed SIZE_1K)))" by blast
  from img(3) [OF f2(1,2)] obtain f3 where f3: "seekable f3" "content f3 = nand_image sn ty hw idb"
    "readNand P f2 HARDWARE_VERSION_OFF 1 (zeroed SIZE_1K) True =
      (True, f3, poke 0 hw (poke 0 (char_of (length hw) # []) (zeroed SIZE_1K)))" by blast
  from img(4) [OF f3(1,2)] that [OF f1(3) f2(3) f3(3)] show thesis by blast
qed

lemma product_id_text:
  assumes "length idb = 4"
  shows "cstr (snprintf SIZE_1K (pad_zero 8 (show_base 16 (big_endian idb))) buf) =
    pad_zero 8 (show_base 16 (big_endian idb))"
proof -
  have bound: "((a * 256 + b) * 256 + c) * 256 + d < 4294967296"
    if "a < 256" "b < 256" "c < 256" "d < 256" for a b c d :: int
  proof -
    have "((a * 256 + b) * 256 + c) * 256 + d = 16777216 * a + 65536 * b + 256 * c + d" by (simp add: distrib_right)
    then show ?thesis using that by linarith
  qed
  have "int (big_endian idb) < 4294967296"
    unfolding big_endian_bytes [OF assms] by (rule bound) (simp_all add: of_char_bounds)
  then have "big_endian idb < 16 ^ 8" by simp
  then have "length (show_base 16 (big_endian idb)) \<le> 8" by (intro length_show_base) simp_all
  then show ?thesis by (simp add: size_defs)
qed

text \<open>The state that construction ends in.\<close>

lemma construction_run:
  assumes "nand_fits sn ty hw idb"
    "pf_fopen P INFO_PATH ''r+'' (world s) = Some (nand_image sn ty hw idb, True)"
    "\<forall>c \<in> set idb. char_val (char_signed P) c = of_char c"
    "long_bits P = 32 \<or> long_bits P = 64 \<and> (of_char (idb ! 0) :: nat) < 128"
  shows "end_of (RjcoreService_new P) s = s\<lparr>
    trace := trace s @ [EFopen INFO_PATH True, EFclose],
    mInit := True, mSerialNum := to16 P sn, mProductType := to16 P ty,
    mHardwareVersion := to16 P hw,
    mProductId := to16 P (pad_zero 8 (show_base 16 (big_endian idb)))\<rparr>"
proof -
  have L: "long_bits P = 32 \<or> long_bits P = 64" using assms(4) by blast
  have len: "length sn < SIZE_1K" "length ty < SIZE_1K" "length hw < SIZE_1K" "length idb = 4"
    and nn: "no_nul sn" "no_nul ty" "no_nul hw"
    using assms(1) by (simp_all add: nand_fits_def nand_defs size_defs)
  define f0 where "f0 = \<lparr>content = nand_image sn ty hw idb, fpos = 0, seekable = True\<rparr>"
  note reads = board_reads [OF assms(1) L, folded f0_def]
  obtain f1 f2 f3 f4 where f: "readNand P f0 0 SERIAL_NUMBER_LEN (zeroed SIZE_1K) True =
      (True, f1, poke 0 sn (poke 0 (char_of (length sn) # [NUL]) (zeroed SIZE_1K)))"
    "readNand P f1 PRODUCT_TYPE_OFF 1 (zeroed SIZE_1K) True =
      (True, f2, poke 0 ty (poke 0 (char_of (length ty) # []) (zeroed SIZE_1K)))"
    "readNand P f2 HARDWARE_VERSION_OFF 1 (zeroed SIZE_1K) True =
      (True, f3, poke 0 hw (poke 0 (char_of (length hw) # []) (zeroed SIZE_1K)))"
    "readNand P f3 PRODUCT_ID_OFF PRODUCT_ID_LEN (zeroed SIZE_1K) False = (True, f4, poke 0 idb (zeroed SIZE_1K))"
    by (rule reads)
  have id: "product_id_of P (poke 0 idb (zeroed SIZE_1K)) = big_endian idb"
    using product_id_big_endian [OF len(4) assms(3,4)] by (simp add: poke_def)
  have texts: "cstr (poke 0 sn (poke 0 (char_of (length sn) # [NUL]) (zeroed SIZE_1K))) = sn"
    "cstr (poke 0 ty (poke 0 (char_of (length ty) # []) (zeroed SIZE_1K))) = ty"
    "cstr (poke 0 hw (poke 0 (char_of (length hw) # []) (zeroed SIZE_1K))) = hw"
    using len nn by (simp_all add: cstr_field size_defs)
  have lens: "length (poke 0 sn (poke 0 (char_of (length sn) # [NUL]) (zeroed SIZE_1K))) = SIZE_1K"
    "length (poke 0 ty (poke 0 (char_of (length ty) # []) (zeroed SIZE_1K))) = SIZE_1K"
    "length (poke 0 hw (poke 0 (char_of (length hw) # []) (zeroed SIZE_1K))) = SIZE_1K"
    "length (poke 0 idb (zeroed SIZE_1K)) = SIZE_1K"
    using len by (simp_all add: size_defs)
  show ?thesis
    using assms(2)
    by (simp add: RjcoreService_new_def init_def getNandStoreInfo_def run_fopen_Some Let_def
        flip: f0_def One_nat_def)
      (simp add: f id product_id_text [OF len(4)] texts lens flip: One_nat_def)
qed

text \<open>
  C3: Round trip through the board file: when \<open>/proc/sn.info\<close> holds a serial number, a type,
  a hardware version and an id laid out with their lengths, construction ends initialised with
  exactly those three strings and the id in eight hexadecimal digits, the file closed again and no
  array overrun.  The bytes of the id must come without a sign out of a \<open>char\<close>, and \<open>long\<close> must have 32
  bits or the first of them be below 128.
\<close>

lemma construction_reads_board:
  assumes "nand_fits sn ty hw idb"
    "pf_fopen P INFO_PATH ''r+'' (world s) = Some (nand_image sn ty hw idb, True)"
    "\<forall>c \<in> set idb. char_val (char_signed P) c = of_char c"
    "long_bits P = 32 \<or> long_bits P = 64 \<and> (of_char (idb ! 0) :: nat) < 128"
  shows "end_of (RjcoreService_new P) s = s\<lparr>
    trace := trace s @ [EFopen INFO_PATH True, EFclose],
    mInit := True, mSerialNum := to16 P sn, mProductType := to16 P ty,
    mHardwareVersion := to16 P hw,
    mProductId := to16 P (pad_zero 8 (show_base 16 (big_endian idb)))\<rparr>"
  using assms by (rule construction_run)

definition sample_board :: string where
  "sample_board = nand_image ''G1AB2'' ''Rain200S'' ''V1.2'' [CHR 0x12, CHR 0x34, CHR 0x56, CHR 0x9A]"

lemma construction_reads_board_witness:
  "end_of (RjcoreService_new (bench False 32)) (bench_state [(INFO_PATH, sample_board)]) =
   (bench_state [(INFO_PATH, sample_board)])\<lparr>
     trace := trace (bench_state [(INFO_PATH, sample_board)]) @ [EFopen INFO_PATH True, EFclose],
     mInit := True, mSerialNum := to16 (bench False 32) ''G1AB2'',
     mProductType := to16 (bench False 32) ''Rain200S'',
     mHardwareVersion := to16 (bench False 32) ''V1.2'',
     mProductId := to16 (bench False 32) (pad_zero 8 (show_base 16
       (big_endian [CHR 0x12, CHR 0x34, CHR 0x56, CHR 0x9A])))\<rparr>"
  by (rule construction_reads_board)
     (simp_all add: nand_fits_def PRODUCT_ID_LEN_def sample_board_def char_val_def)

text \<open>The rest of the board file has to be there.\<close>

lemma readNand_content: "content (fst (snd (readNand P f off len res flag))) = content f"
  by (simp add: readNand_def fseek_set_def fread_def Let_def split: option.split)

lemma readNand_short:
  "length (content f) < off + len \<Longrightarrow> 0 < len \<Longrightarrow> \<not> fst (readNand P f off len res flag)"
  by (auto simp: readNand_def fseek_set_def fread_def Let_def split: option.split)

text \<open>
  A board file that cannot be opened, or that ends before the product id is complete, leaves
  the service uninitialised, and an opened file is closed on every path.
\<close>

lemma construction_needs_whole_file:
  assumes "case pf_fopen P INFO_PATH ''r+'' (world s) of
    None \<Rightarrow> True | Some (c, sk) \<Rightarrow> length c < PRODUCT_ID_OFF + PRODUCT_ID_LEN"
  shows "\<not> mInit (end_of (RjcoreService_new P) s) \<and>
    held HFile (trace (end_of (RjcoreService_new P) s)) = held HFile (trace s)"
proof (cases "pf_fopen P INFO_PATH ''r+'' (world s)")
  case None
  then show ?thesis
    by (simp add: RjcoreService_new_def init_def getNandStoreInfo_def run_fopen_None)
next
  case (Some csk)
  obtain c sk where csk: "csk = (c, sk)" by (cases csk)
  have short: "length c < PRODUCT_ID_OFF + PRODUCT_ID_LEN" using assms Some csk by simp
  have last: "\<not> fst (readNand P f PRODUCT_ID_OFF PRODUCT_ID_LEN res flag)" if "content f = c" for f res flag
    using that short by (intro readNand_short) (simp_all add: nand_defs)
  define f0 where "f0 = \<lparr>content = c, fpos = 0, seekable = sk\<rparr>"
  obtain ok1 f1 res1 where r1: "readNand P f0 0 SERIAL_NUMBER_LEN (zeroed SIZE_1K) True = (ok1, f1, res1)"
    by (metis prod_cases3)
  obtain ok2 f2 res2 where r2: "readNand P f1 PRODUCT_TYPE_OFF 1 (zeroed SIZE_1K) True = (ok2, f2, res2)"
    by (metis prod_cases3)
  obtain ok3 f3 res3 where r3: "readNand P f2 HARDWARE_VERSION_OFF 1 (zeroed SIZE_1K) True = (ok3, f3, res3)"
    by (metis prod_cases3)
  obtain ok4 f4 res4 where r4: "readNand P f3 PRODUCT_ID_OFF PRODUCT_ID_LEN (zeroed SIZE_1K) False = (ok4, f4, res4)"
    by (metis prod_cases3)
  have "content f3 = c"
    using readNand_content [of P f0 0 SERIAL_NUMBER_LEN "zeroed SIZE_1K" True]
      readNand_content [of P f1 PRODUCT_TYPE_OFF 1 "zeroed SIZE_1K" True]
      readNand_content [of P f2 HARDWARE_VERSION_OFF 1 "zeroed SIZE_1K" True]
    unfolding r1 r2 r3 by (simp add: f0_def)
  then have "\<not> ok4" using last [of f3 "zeroed SIZE_1K" False] r4 by simp
  with Some csk r1 r2 r3 r4 show ?thesis
    by (simp add: RjcoreService_new_def init_def getNandStoreInfo_def run_fopen_Some flip: f0_def One_nat_def)
qed

lemma construction_needs_whole_file_witness:
  "\<not> mInit (end_of (RjcoreService_new (bench False 32)) (bench_state [(INFO_PATH, take 40 sample_board)])) \<and>
    held HFile (trace (end_of (RjcoreService_new (bench False 32)) (bench_state [(INFO_PATH, take 40 sample_board)]))) =
    held HFile (trace (bench_state [(INFO_PATH, take 40 sample_board)]))"
  by (rule construction_needs_whole_file) (simp add: nand_defs)

section \<open>Where the product id goes wrong\<close>

lemma bit_shifted_byte:
  "bit (scast (push_bit m (word_of_int v) :: cint) :: 64 word) k \<longleftrightarrow>
     k < 64 \<and> m \<le> min k 31 \<and> bit v (min k 31 - m)"
proof -
  have w: "bit (push_bit m (word_of_int v) :: cint) j \<longleftrightarrow> j < 32 \<and> m \<le> j \<and> bit v (j - m)" for j
    by (auto simp: bit_push_bit_iff bit_word_of_int_iff)
  have "bit (scast (push_bit m (word_of_int v) :: cint) :: 64 word) k \<longleftrightarrow>
      k < 64 \<and> bit (push_bit m (word_of_int v) :: cint) (min k 31)"
  proof (cases "k \<le> 31")
    case True
    then show ?thesis by (simp add: bit_word_scast_iff)
  next
    case False
    then show ?thesis using w [of k] by (simp add: bit_word_scast_iff)
  qed
  moreover have "min k 31 < 32" by simp
  ultimately show ?thesis unfolding w by simp
qed

lemma bit_id_round:
  "bit (id_round sg res acc i) k \<longleftrightarrow> bit acc k \<or>
     (k < 64 \<and> 32 - 8 * (i + 1) \<le> min k 31 \<and>
        bit (char_val sg (res ! i)) (min k 31 - (32 - 8 * (i + 1))))"
  unfolding id_round_def bit_or_iff bit_shifted_byte ..

text \<open>Every byte leaves its bits and, when it is read as negative, every bit above them.\<close>

lemma bit_product_id:
  "bit (product_id_of P res) k \<longleftrightarrow> k < long_bits P \<and> k < 64 \<and>
     (\<exists>i < 4. 24 - 8 * i \<le> min k 31 \<and>
        bit (char_val (char_signed P) (res ! i)) (min k 31 - (24 - 8 * i)))"
proof -
  have **: "(\<exists>i < 4. Q i) \<longleftrightarrow> Q 0 \<or> Q 1 \<or> Q 2 \<or> Q (3 :: nat)" for Q
    by (auto simp: less_Suc_eq numeral_eq_Suc)
  have "bit (product_id_of P res) k \<longleftrightarrow> k < long_bits P \<and>
      bit (foldl (id_round (char_signed P) res) 0 [0..<PRODUCT_ID_LEN]) k"
    by (simp add: product_id_of_def bit_unsigned_iff bit_take_bit_iff)
  then show ?thesis
    unfolding ** by (simp add: id4 bit_id_round del: min_def) blast
qed

lemma drop_bit_ones:
  fixes x :: nat
  assumes "\<And>j. bit x (n + j) \<longleftrightarrow> j < m"
  shows "drop_bit n x = 2 ^ m - 1"
proof -
  have "drop_bit n x = mask m"
    by (rule bit_eqI) (simp add: bit_drop_bit_eq bit_mask_iff assms)
  then show ?thesis by (simp add: mask_eq_exp_minus_1)
qed

lemma bit_negative_byte:
  fixes v :: int
  assumes "- 128 \<le> v" "v < 0" "7 \<le> k"
  shows "bit v k"
proof -
  have "(2 :: int) ^ 7 \<le> 2 ^ k" using assms(3) by (intro power_increasing) simp_all
  then have "v div 2 ^ k = - 1" using assms by (intro int_div_pos_eq [where r = "v + 2 ^ k"] ) simp_all
  then show ?thesis by (simp add: bit_iff_odd)
qed

text \<open>
  Where \<open>char\<close> is signed a byte of the product id of 128 or more turns every byte in
  front of it into \<open>ff\<close>: different boards get the same id.
\<close>

lemma product_id_signed_bytes:
  assumes "char_signed P" "long_bits P = 32" "i < 4" "128 \<le> (of_char (res ! i) :: int)"
  shows "drop_bit (32 - 8 * i) (product_id_of P res) = 2 ^ (8 * i) - 1"
proof -
  have v: "- 128 \<le> char_val True (res ! i)" "char_val True (res ! i) < 0"
    using assms(4) of_char_bounds [of "res ! i"] char_val_bounds(1) [of True "res ! i"]
    by (simp_all add: char_val_def)
  have "bit (product_id_of P res) (32 - 8 * i + j) \<longleftrightarrow> j < 8 * i" for j
  proof (cases "j < 8 * i")
    case True
    then have j: "32 - 8 * i + j - (24 - 8 * i) = j + 8" "24 - 8 * i \<le> min (32 - 8 * i + j) 31"
      "min (32 - 8 * i + j) 31 = 32 - 8 * i + j" "32 - 8 * i + j < 32"
      using assms(3) by simp_all
    then have "bit (char_val True (res ! i)) (min (32 - 8 * i + j) 31 - (24 - 8 * i))"
      using v by (intro bit_negative_byte) simp_all
    with j True assms show ?thesis by (fastforce simp: bit_product_id)
  next
    case False
    then have "32 \<le> 32 - 8 * i + j" using assms(3) by simp
    with False assms show ?thesis by (simp only: bit_product_id) simp
  qed
  then show ?thesis by (rule drop_bit_ones)
qed

text \<open>
  Where \<open>long\<close> has 64 bits an id whose first byte is 128 or more is sign-extended: its upper
  32 bits are all set, so that it prints with sixteen digits instead of eight.
\<close>

lemma product_id_long64:
  assumes "long_bits P = 64" "128 \<le> (of_char (res ! 0) :: int)"
  shows "drop_bit 32 (product_id_of P res) = 2 ^ 32 - 1"
proof -
  have b: "bit (char_val sg (res ! 0)) 7" for sg
  proof (cases "sg")
    case True
    have "char_val sg (res ! 0) < 0" "- 128 \<le> char_val sg (res ! 0)"
      using True assms(2) of_char_bounds [of "res ! 0"] char_val_bounds(1) [of sg "res ! 0"]
      by (simp_all add: char_val_def)
    then show ?thesis by (intro bit_negative_byte) simp_all
  next
    case False
    then have "char_val sg (res ! 0) div 2 ^ 7 = 1"
      using assms(2) of_char_bounds [of "res ! 0"] by (simp add: char_val_def)
    then show ?thesis by (simp only: bit_iff_odd) simp
  qed
  have "bit (product_id_of P res) (32 + j) \<longleftrightarrow> j < 32" for j
    using assms(1) b [of "char_signed P"] by (auto simp: bit_product_id intro!: exI [of _ 0])
  then show ?thesis by (rule drop_bit_ones)
qed

lemma product_id_signed_bytes_witness:
  "drop_bit (32 - 8 * 3) (product_id_of (bench True 32) [CHR 0x12, CHR 0x34, CHR 0x56, CHR 0x9A]) =
     2 ^ (8 * 3) - 1"
  by (rule product_id_signed_bytes) simp_all

lemma product_id_long64_witness:
  "drop_bit 32 (product_id_of (bench False 64) [CHR 0x92, CHR 0x34, CHR 0x56, CHR 0x1A]) = 2 ^ 32 - 1"
  by (rule product_id_long64) simp_all


end
