(* ===== verification/ServerProps.thy ===== *)
theory ServerProps
  imports Ledger Bench CoreProps
begin

text \<open>
  What the server process guarantees as a whole: a call through the proxy is a call of the
  service, a transaction is dispatched by its code and refused without the token, the board
  fields never change after construction, and every handle but directory streams is given back.
\<close>

section \<open>Calls through the binder\<close>

text \<open>
  C1: With parcels that give back what was written in its order, a transport that delivers, and
  the stub reading the arguments of a call from left to right, the proxy object equals the
  service object: all 37 functions have the same results and the same effects.
\<close>

lemma proxy_is_service:
  assumes "parcel_laws ops pw pr" "delivers ops (serve P ops LeftToRight parent) transact"
  shows "BpRjcoreService ops transact = RjcoreService P"
  using assms unfolding serve_def by (rule proxy_is_interface)

lemma proxy_is_service_witness:
  "BpRjcoreService list_ops
     (local_transport list_ops (serve (bench False 32) list_ops LeftToRight unknown_code)) =
   RjcoreService (bench False 32)"
  by (rule proxy_is_service [OF list_parcel_laws]) (rule local_transport_delivers)

text \<open>
  C38: The stub reads several arguments inside one argument list, whose order of evaluation C++
  leaves open.  Where it is from right to left, \<open>chmodFile\<close>, \<open>chmodDir\<close>, \<open>setLedStatus\<close>,
  \<open>setDeviceResolution\<close> and \<open>checkBandwidth_block\<close> receive their arguments reversed;
  every other function but \<open>ping_block\<close> is unaffected.
\<close>

lemma proxy_reverses_arguments:
  assumes "parcel_laws ops pw pr" "delivers ops (serve P ops RightToLeft parent) transact"
  shows "BpRjcoreService ops transact =
    (reversed_args (RjcoreService P)) \<lparr> i_ping_block := bp_ping_block ops transact \<rparr>"
  using assms unfolding serve_def by (rule proxy_is_reversed)

lemma proxy_reverses_arguments_witness:
  "i_chmodFile (BpRjcoreService list_ops
     (local_transport list_ops (serve (bench False 32) list_ops RightToLeft unknown_code))) [1] [2] =
   chmodFile (bench False 32) [2] [1]"
  by (subst proxy_reverses_arguments [OF list_parcel_laws, where P = "bench False 32" and parent = unknown_code])
     (rule local_transport_delivers, simp add: reversed_args_def RjcoreService_def)

text \<open>
  C14: Dispatch is total: a code of the enumeration is served when the parcel starts with the
  interface token, and then answers \<open>NO_ERROR\<close>; without the token it is refused with
  \<open>PERMISSION_DENIED\<close>, an empty reply and no effect; every other code goes to
  \<open>BBinder::onTransact\<close>.
\<close>

lemma dispatch_total:
  "serve P ops ord parent code data reply =
     (if code \<in> range code_of
      then if fst (enforce ops descriptor data)
           then do { r \<leftarrow> serve P ops ord parent code data reply; State_Monad.return (NO_ERROR, snd r) }
           else State_Monad.return (PERMISSION_DENIED, reply)
      else parent code data reply)"
proof (cases "code \<in> range code_of")
  case True
  then obtain t where t: "code = code_of t" by blast
  show ?thesis
  proof (rule state_ext)
    fix s
    show "run_state (serve P ops ord parent code data reply) s = run_state
      (if code \<in> range code_of
       then if fst (enforce ops descriptor data)
            then do { r \<leftarrow> serve P ops ord parent code data reply; State_Monad.return (NO_ERROR, snd r) }
            else State_Monad.return (PERMISSION_DENIED, reply)
       else parent code data reply) s"
      using onTransact_status [of ops ord "RjcoreService P" parent t data reply s]
        onTransact_denied [of ops data code t ord "RjcoreService P" parent reply] t
      by (auto simp: serve_def case_prod_beta prod_eq_iff)
  qed
next
  case False
  then show ?thesis by (simp add: serve_def onTransact_def switch_None_iff [THEN iffD2])
qed

text \<open>
  A caller cannot tell a dead server from an unlucky one: when the reply of the transport is
  empty every call of the proxy returns the empty string, \<open>0\<close>, \<open>false\<close> or nothing,
  and changes nothing.
\<close>

lemma dead_server_defaults:
  assumes "parcel_laws ops pw pr" "pr r = []" "transact = (\<lambda>code data. State_Monad.return r)"
  shows "run_state (perform (BpRjcoreService ops transact) q) s \<in>
    {(RStr [], s), (RInt 0, s), (RBool False, s), (RUnit, s)}"
proof -
  note dead = parcels.bp_dead_remote [OF parcels.intro [OF assms(1)], of transact r, unfolded assms(3), OF refl assms(2)]
  show ?thesis
    by (cases q) (simp_all add: BpRjcoreService_def bp_defs dead assms(3) respond_def)
qed

lemma dead_server_defaults_witness:
  "run_state (perform (BpRjcoreService list_ops (\<lambda>code data. State_Monad.return ([], []))) Req_getOtaResult) (5 :: nat) \<in>
    {(RStr [], 5), (RInt 0, 5), (RBool False, 5), (RUnit, 5)}"
  by (rule dead_server_defaults [OF list_parcel_laws]) simp_all

section \<open>Over the life of the server\<close>

text \<open>
  The four getters of the board give, after any number of transactions of any clients, what
  construction read: the field when the board file was complete, the empty string otherwise.
\<close>

lemma getters_stable:
  fixes P :: "'w platform"
  assumes "\<And>code data reply. keeps same_members (parent code data reply)"
    "s = end_of (RjcoreService_new P) s0"
    "s' = end_of (serve_requests (serve P ops ord parent) empty_reply qs) s"
  shows "map (\<lambda>get. run_state (get P) s') [getSerialNumber, getProductType, getHardwareVesion, getProductId] =
    map (\<lambda>field. (if mInit s then field s else to16 P [], s'))
      [mSerialNum, mProductType, mHardwareVersion, mProductId]"
proof -
  have "keeps same_members (serve_requests (serve P ops ord parent) empty_reply qs)"
    using assms(1) unfolding serve_def
    by (intro members_server.keeps_serve_requests members_server.keeps_onTransact)
  then have "members s' = members s"
    unfolding assms(3) by (auto dest!: keepsD simp: same_members_def)
  then show ?thesis
    by (simp add: members_def getSerialNumber_def getProductType_def getHardwareVesion_def
        getProductId_def check_init_def)
qed

lemma keeps_unknown_members: "keeps same_members (unknown_code code data reply)"
  by (simp add: unknown_code_def members_frame.keeps_return)

lemma keeps_unknown_held: "keeps (same_held h) (unknown_code code data reply)"
  by (simp add: unknown_code_def held_frame.keeps_return)

lemma getters_stable_witness:
  "let P = bench False 32;
       s = end_of (RjcoreService_new P) (bench_state [(INFO_PATH, sample_board)]);
       s' = end_of (serve_requests (serve P list_ops LeftToRight unknown_code) ([], [])
              [(code_of SHUTDOWN, ([], [IToken descriptor]))]) s
   in map (\<lambda>get. run_state (get P) s') [getSerialNumber, getProductType, getHardwareVesion, getProductId] =
      map (\<lambda>field. (if mInit s then field s else to16 P [], s'))
        [mSerialNum, mProductType, mHardwareVersion, mProductId]"
  unfolding Let_def by (rule getters_stable [OF keeps_unknown_members refl refl])

text \<open>
  Pipes, stdio files, the device descriptor and the mutexes are given back: after any
  sequence of transactions as many of each are held as before it.
\<close>

lemma handles_balanced:
  assumes "h \<noteq> HDir" "\<And>code data reply. keeps (same_held h) (parent code data reply)"
  shows "held h (trace (end_of (serve_requests (serve P ops ord parent) empty_reply qs) s)) = held h (trace s)"
  using keepsD [OF keeps_balanced [OF assms]] by (simp add: same_held_def)

lemma handles_balanced_witness:
  "held HFile (trace (end_of (serve_requests (serve (bench False 32) list_ops LeftToRight unknown_code) ([], [])
      [(code_of GET_SUPPORT_RESOLUTION, ([], [IToken descriptor]))]) (bench_state []))) =
   held HFile (trace (bench_state []))"
  by (rule handles_balanced) (simp_all add: keeps_unknown_held)

text \<open>
  Directory streams are not given back: every successful \<open>opendir\<close> of
  \<open>chmodDir\<close> stays open, so that \<open>n\<close> calls on a directory hold \<open>n\<close> more of them.
\<close>

lemma chmodDir_opens:
  assumes "mode \<noteq> to16 P []" "path \<noteq> to16 P []" "fst (pf_opendir P (c_str P path) (world s))"
  shows "held HDir (trace (end_of (chmodDir P path mode) s)) = held HDir (trace s) + 1"
proof -
  define rest where "rest = do {
    ret \<leftarrow> mySystem P (Some (fmt_buf SIZE_1K (''chmod -R '' @ c_str P mode @ '' '' @ c_str P path)));
    if sint ret < 0 then State_Monad.return False
    else do {
      ok \<leftarrow> checkFileMode P (c_str P path) (c_str P mode) (length (c_str P mode));
      if \<not> ok then State_Monad.return False else State_Monad.return True }}"
  have "keeps (same_held HDir) rest"
    unfolding rest_def by (intro held_frame.keeps_cmd held_frame.keeps_checkFileMode)
  moreover have "end_of (chmodDir P path mode) s = end_of rest
      (s\<lparr>world := snd (pf_opendir P (c_str P path) (world s)),
         trace := trace s @ [EOpendir (c_str P path) True]\<rparr>)"
    using assms by (simp add: chmodDir_def opendir_def rest_def Let_def)
  ultimately show ?thesis by (simp add: keeps_def same_held_def)
qed

lemma chmodDir_leaks_streams:
  assumes "mode \<noteq> to16 P []" "path \<noteq> to16 P []" "\<And>w. fst (pf_opendir P (c_str P path) w)"
  shows "held HDir (trace (end_of (repeat_op n (chmodDir P path mode)) s)) = held HDir (trace s) + int n"
proof (induction n arbitrary: s)
  case (Suc n)
  then show ?case using chmodDir_opens [OF assms(1,2,3)] by (simp add: case_prod_beta)
qed simp

lemma chmodDir_leaks_streams_witness:
  "held HDir (trace (end_of (repeat_op 1000 (chmodDir ((bench False 32)\<lparr>pf_opendir := \<lambda>p w. (True, w)\<rparr>) [47] [55])) (bench_state []))) =
   held HDir (trace (bench_state [])) + int 1000"
  by (rule chmodDir_leaks_streams) simp_all

end
