(* ===== verification/SigRace.thy ===== *)
theory SigRace
  imports CoreService
begin

text \<open>
  \<open>mySystem\<close> on several threads.  The disposition of \<open>SIGCHLD\<close> belongs to the process,
  the variable \<open>old_handler\<close> to the call, and \<open>main\<close> lets a pool of threads serve calls; so
  the three statements of the body are three steps that calls on other threads may separate.
\<close>

datatype phase =
    Outside                  \<comment> \<open>before the first call of \<open>signal\<close>, and after the second\<close>
  | Saved sig_handler        \<comment> \<open>\<open>old_handler\<close> is set, \<open>SIG_DFL\<close> installed\<close>
  | Returned sig_handler     \<comment> \<open>\<open>system\<close> has returned\<close>

record sig_state =
  disp :: sig_handler
  pc :: "nat \<Rightarrow> phase"

text \<open>
  \<open>excl\<close> says whether a call waits until no other is inside, which the code does not do.
\<close>

inductive sig_step :: "bool \<Rightarrow> sig_state \<Rightarrow> sig_state \<Rightarrow> bool" for excl :: bool where
  sig_save: "pc s t = Outside \<Longrightarrow> (excl \<Longrightarrow> \<forall>u. pc s u = Outside) \<Longrightarrow>
     sig_step excl s (s\<lparr>disp := SIG_DFL, pc := (pc s)(t := Saved (disp s))\<rparr>)"
| sig_system: "pc s t = Saved h \<Longrightarrow> sig_step excl s (s\<lparr>pc := (pc s)(t := Returned h)\<rparr>)"
| sig_restore: "pc s t = Returned h \<Longrightarrow>
     sig_step excl s (s\<lparr>disp := h, pc := (pc s)(t := Outside)\<rparr>)"

definition sig_start :: "sig_handler \<Rightarrow> sig_state \<Rightarrow> bool" where
  "sig_start h s \<longleftrightarrow> disp s = h \<and> (\<forall>t. pc s t = Outside)"

text \<open>What is saved or installed is the first handler or the default.\<close>

definition known_handlers :: "sig_handler \<Rightarrow> sig_state \<Rightarrow> bool" where
  "known_handlers h s \<longleftrightarrow> disp s \<in> {h, SIG_DFL} \<and>
     (\<forall>t. pc s t \<in> {Outside, Saved h, Saved SIG_DFL, Returned h, Returned SIG_DFL})"

text \<open>With calls one at a time: either all are outside and the handler is in place, or one is inside.\<close>

definition one_inside :: "sig_handler \<Rightarrow> sig_state \<Rightarrow> bool" where
  "one_inside h s \<longleftrightarrow>
     (disp s = h \<and> (\<forall>t. pc s t = Outside)) \<or>
     (\<exists>t. pc s t \<in> {Saved h, Returned h} \<and> (\<forall>u. u \<noteq> t \<longrightarrow> pc s u = Outside))"

lemma known_savedD:
  "known_handlers h s \<Longrightarrow> pc s t = Saved g \<Longrightarrow> g \<in> {h, SIG_DFL}"
  "known_handlers h s \<Longrightarrow> pc s t = Returned g \<Longrightarrow> g \<in> {h, SIG_DFL}"
  by (auto simp: known_handlers_def dest: spec [of _ t])

lemma one_insideD:
  "one_inside h s \<Longrightarrow> pc s u \<noteq> Outside \<Longrightarrow>
   pc s u \<in> {Saved h, Returned h} \<and> (\<forall>v. v \<noteq> u \<longrightarrow> pc s v = Outside)"
  unfolding one_inside_def by (metis insertCI)

interpretation any_calls: step_system "sig_start h" "sig_step excl" "known_handlers h" for h excl
proof unfold_locales
  show "known_handlers h s" if "sig_start h s" for s
    using that by (simp add: known_handlers_def sig_start_def)
  show "known_handlers h t" if "known_handlers h s" "sig_step excl s t" for s t
    using that(2,1)
  proof (cases rule: sig_step.cases)
    case (sig_system u g)
    with that(1) show ?thesis using known_savedD(1) [OF that(1), of u g] by (auto simp: known_handlers_def)
  next
    case (sig_restore u g)
    with that(1) show ?thesis using known_savedD(2) [OF that(1), of u g] by (auto simp: known_handlers_def)
  qed (auto simp: known_handlers_def)
qed

interpretation serial_calls: step_system "sig_start h" "sig_step True" "one_inside h" for h
proof unfold_locales
  show "one_inside h s" if "sig_start h s" for s
    using that by (simp add: one_inside_def sig_start_def)
  show "one_inside h t" if "one_inside h s" "sig_step True s t" for s t
    using that(2,1)
  proof (cases rule: sig_step.cases)
    case (sig_save u)
    then have "\<forall>v. pc s v = Outside" by simp
    with that(1) have "disp s = h" by (auto simp: one_inside_def)
    with sig_save show ?thesis by (auto simp: one_inside_def)
  next
    case (sig_system u g)
    with one_insideD [OF that(1), of u] show ?thesis by (auto simp: one_inside_def)
  next
    case (sig_restore u g)
    with one_insideD [OF that(1), of u] show ?thesis by (auto simp: one_inside_def)
  qed
qed

text \<open>One call with no other in between does to the disposition what \<open>mySystem\<close> does.\<close>

lemma alone_is_mySystem:
  assumes "c \<noteq> []" "\<forall>t. pc s t = Outside" "disp s = sigchld m"
  shows "\<exists>s1 s2. sig_step excl s s1 \<and> sig_step excl s1 s2 \<and>
    sig_step excl s2 (s\<lparr>disp := sigchld (end_of (mySystem P (Some c)) m)\<rparr>)"
proof (intro exI conjI)
  let ?s1 = "s\<lparr>disp := SIG_DFL, pc := (pc s)(0 := Saved (disp s))\<rparr>"
  let ?s2 = "?s1\<lparr>pc := (pc ?s1)(0 := Returned (disp s))\<rparr>"
  show "sig_step excl s ?s1" using assms(2) by (intro sig_save) simp_all
  show "sig_step excl ?s1 ?s2" by (rule sig_system) simp
  have "s\<lparr>disp := sigchld (end_of (mySystem P (Some c)) m)\<rparr> =
      ?s2\<lparr>disp := disp s, pc := (pc ?s2)(0 := Outside)\<rparr>"
    using assms by (cases s) (simp add: run_mySystem fun_eq_iff)
  then show "sig_step excl ?s2 (s\<lparr>disp := sigchld (end_of (mySystem P (Some c)) m)\<rparr>)"
    using sig_restore [of ?s2 0 "disp s" excl] by simp
qed

text \<open>
  Two overlapping calls of \<open>mySystem\<close> can lose the handler of \<open>SIGCHLD\<close> for good:
  from every initial handler a state is reachable in which all calls are over and the disposition
  is \<open>SIG_DFL\<close>.
\<close>

lemma sigchld_race:
  "\<exists>s. reach (sig_start h) (sig_step False) s \<and> (\<forall>t. pc s t = Outside) \<and> disp s = SIG_DFL"
proof -
  define s0 :: sig_state where "s0 = \<lparr>disp = h, pc = (\<lambda>_. Outside)\<rparr>"
  define s1 where "s1 = s0\<lparr>disp := SIG_DFL, pc := (pc s0)(0 := Saved (disp s0))\<rparr>"
  define s2 where "s2 = s1\<lparr>disp := SIG_DFL, pc := (pc s1)(1 := Saved (disp s1))\<rparr>"
  define s3 where "s3 = s2\<lparr>pc := (pc s2)(0 := Returned h)\<rparr>"
  define s4 where "s4 = s3\<lparr>disp := h, pc := (pc s3)(0 := Outside)\<rparr>"
  define s5 where "s5 = s4\<lparr>pc := (pc s4)(1 := Returned SIG_DFL)\<rparr>"
  define s6 where "s6 = s5\<lparr>disp := SIG_DFL, pc := (pc s5)(1 := Outside)\<rparr>"
  note defs = s0_def s1_def s2_def s3_def s4_def s5_def s6_def
  have "reach (sig_start h) (sig_step False) s0"
    by (rule reach_start) (simp add: s0_def sig_start_def)
  then have "reach (sig_start h) (sig_step False) s1"
    unfolding s1_def by (rule reach_step) (rule sig_save; simp add: defs)
  then have "reach (sig_start h) (sig_step False) s2"
    unfolding s2_def by (rule reach_step) (rule sig_save; simp add: defs)
  then have "reach (sig_start h) (sig_step False) s3"
    unfolding s3_def by (rule reach_step) (rule sig_system; simp add: defs)
  then have "reach (sig_start h) (sig_step False) s4"
    unfolding s4_def by (rule reach_step) (rule sig_restore; simp add: defs)
  then have "reach (sig_start h) (sig_step False) s5"
    unfolding s5_def by (rule reach_step) (rule sig_system; simp add: defs)
  then have "reach (sig_start h) (sig_step False) s6"
    unfolding s6_def by (rule reach_step) (rule sig_restore; simp add: defs)
  moreover have "pc s6 t = Outside" for t by (simp add: defs)
  moreover have "disp s6 = SIG_DFL" by (simp add: s6_def)
  ultimately show ?thesis by blast
qed

text \<open>
  Whatever the calls do to each other, the disposition is only ever the handler the process
  started with or the default; and when calls come one at a time it is the handler again
  whenever no call is running.
\<close>

lemma sigchld_serial:
  "(\<forall>s. reach (sig_start h) (sig_step excl) s \<longrightarrow> disp s \<in> {h, SIG_DFL}) \<and>
   (\<forall>s. reach (sig_start h) (sig_step True) s \<longrightarrow> (\<forall>t. pc s t = Outside) \<longrightarrow> disp s = h)"
proof (intro conjI allI impI)
  show "disp s \<in> {h, SIG_DFL}" if "reach (sig_start h) (sig_step excl) s" for s
    using any_calls.inv_reach [OF that] by (simp add: known_handlers_def)
  show "disp s = h" if "reach (sig_start h) (sig_step True) s" "\<forall>t. pc s t = Outside" for s
    using serial_calls.inv_reach [OF that(1)] that(2) by (auto simp: one_inside_def)
qed

lemma sigchld_serial_witness:
  "disp \<lparr>disp = SIG_IGN, pc = (\<lambda>_. Outside)\<rparr> = SIG_IGN"
proof -
  have "reach (sig_start SIG_IGN) (sig_step True) \<lparr>disp = SIG_IGN, pc = (\<lambda>_. Outside)\<rparr>"
    by (rule reach_start) (simp add: sig_start_def)
  then show ?thesis using sigchld_serial [of SIG_IGN True] by simp
qed

end
