(* ===== verification/CmdFacts.thy ===== *)
theory CmdFacts
  imports Application
begin

text \<open>
  The steps the callers of \<open>executeCmd\<close> share, as equations over the text a command leaves:
  the test for an empty result and the removal of the final newline.
\<close>

lemma cmd_buf_empty: "0 < n \<Longrightarrow> cmd_buf P c n w ! 0 = NUL \<longleftrightarrow> cmd_text P c n w = []"
  using length_cmd_buf [of P c n w] by (cases "cmd_buf P c n w") (auto simp: cmd_text_def cstr_eq_Nil)

lemma cmd_text_nth: "i < length (cmd_text P c n w) \<Longrightarrow> cmd_buf P c n w ! i = cmd_text P c n w ! i"
  by (simp add: cmd_text_def cstr_def takeWhile_nth)

lemma run_cmd_check:
  assumes "c \<noteq> []" "0 < n"
  shows "run_state (do { res \<leftarrow> executeCmd P (Some c) (zeroed n) n; check_str16_res P res (k res) }) s =
    (if cmd_text P c n (world s) = [] then (to16 P [], after_cmd P c s)
     else run_state (k (cmd_buf P c n (world s))) (after_cmd P c s))"
  using assms by (simp add: run_executeCmd check_str16_res_def cmd_buf_empty)

text \<open>The text without the newline that ends it.\<close>

definition one_line :: "string \<Rightarrow> string" where
  "one_line t = (if t \<noteq> [] \<and> last t = NL then butlast t else t)"

lemma buf_cases: obtains t u where "buf = t @ u" "no_nul t" "cstr u = []"
proof
  show "buf = cstr buf @ dropWhile (\<lambda>c. c \<noteq> NUL) buf" by (simp add: cstr_def)
  show "no_nul (cstr buf)" by simp
  show "cstr (dropWhile (\<lambda>c. c \<noteq> NUL) buf) = []" by (induction buf) simp_all
qed

text \<open>The last byte of the string in an array, and what is left when it is overwritten.\<close>

lemma cstr_last:
  assumes "cstr buf \<noteq> []"
  shows "buf ! (length (cstr buf) - 1) = last (cstr buf)"
    and "cstr (buf[length (cstr buf) - 1 := NUL]) = butlast (cstr buf)"
    and "x \<noteq> NUL \<Longrightarrow> cstr (buf[length (cstr buf) - 1 := x]) = butlast (cstr buf) @ [x]"
proof -
  obtain t u where buf: "buf = t @ u" and t: "no_nul t" and u: "cstr u = []"
    by (rule buf_cases [of buf])
  then have c: "cstr buf = t" by simp
  with assms obtain a b where ab: "t = a @ [b]" by (metis append_butlast_last_id)
  then have nn: "no_nul a" using t by simp
  have upd: "buf[length t - 1 := y] = a @ y # u" for y by (simp add: buf ab list_update_append)
  show "buf ! (length (cstr buf) - 1) = last (cstr buf)" unfolding c by (simp add: buf ab nth_append)
  show "cstr (buf[length (cstr buf) - 1 := NUL]) = butlast (cstr buf)" unfolding c upd using nn by (simp add: ab)
  show "x \<noteq> NUL \<Longrightarrow> cstr (buf[length (cstr buf) - 1 := x]) = butlast (cstr buf) @ [x]"
    unfolding c upd using nn u by (simp add: ab)
qed

lemma cstr_chomp: "cstr buf \<noteq> [] \<Longrightarrow> cstr (chomp buf) = one_line (cstr buf)"
  using cstr_last [of buf] by (simp add: chomp_def Let_def one_line_def)

lemma run_cmd_line:
  assumes "c \<noteq> []" "0 < n"
  shows "run_state (do { res \<leftarrow> executeCmd P (Some c) (zeroed n) n;
      check_str16_res P res (State_Monad.return (to16 P (cstr (chomp res)))) }) s =
    (to16 P (one_line (cmd_text P c n (world s))), after_cmd P c s)"
  unfolding run_cmd_check [OF assms, of P "\<lambda>res. State_Monad.return (to16 P (cstr (chomp res)))" s]
  using cstr_chomp [of "cmd_buf P c n (world s)"]
  by (simp add: cmd_text_def [symmetric] one_line_def)

lemma one_line_print: "NL \<notin> set t \<Longrightarrow> one_line (t @ [NL]) = t" "NL \<notin> set t \<Longrightarrow> one_line t = t"
  by (auto simp: one_line_def dest: last_in_set)

end
