(* ===== verification/NetProps.thy ===== *)
theory NetProps
  imports Network CmdFacts Bench
begin

text \<open>
  What the queries of processes, updates and the network promise: their results as functions
  of the output of the commands, and the exact commands the shell receives.
\<close>

section \<open>Processes\<close>

definition pidof_line :: "'w platform \<Rightarrow> str16 \<Rightarrow> string" where
  "pidof_line P name = take (SIZE_1K_HALF - 1) (''pidof '' @ c_str P name)"

lemma pidof_buf: "fmt_buf SIZE_1K_HALF (''pidof '' @ c_str P name) = pidof_line P name"
  by (simp add: pidof_line_def size_defs)

lemma pidof_line_nonempty [simp]: "pidof_line P name \<noteq> []"
  by (simp add: pidof_line_def size_defs)

text \<open>
  A process is reported as running exactly when \<open>pidof\<close> prints something; the shell
  receives the name the client sent as it is, cut to the 505 bytes that fit.
\<close>

lemma isProcessRunning_spec:
  "run_state (isProcessRunning P name) s =
     (cmd_text P (pidof_line P name) SIZE_1K (world s) \<noteq> [], after_cmd P (pidof_line P name) s)"
  unfolding isProcessRunning_def pidof_buf Let_def
  by (simp add: run_executeCmd cmd_buf_empty size_defs)

lemma run_getProcessId:
  "run_state (getProcessId P name) s =
     (to16 P (cmd_text P (pidof_line P name) SIZE_1K_HALF (world s)), after_cmd P (pidof_line P name) s)"
  unfolding getProcessId_def pidof_buf Let_def
  by (subst run_cmd_check) (simp_all add: size_defs cmd_text_def)

definition kill_line :: "string \<Rightarrow> string" where
  "kill_line pids = take (SIZE_1K_HALF - 1) (''kill -9 '' @ pids)"

text \<open>
  \<open>killByProcessName\<close> kills what \<open>pidof\<close> found and nothing else: the shell receives
  the lookup, and then \<open>kill -9\<close> with the text of the lookup when that is not empty.
\<close>

lemma killByProcessName_spec:
  assumes "\<And>x. no_nul x \<Longrightarrow> c_str P (to16 P x) = x"
    "pids = cmd_text P (pidof_line P name) SIZE_1K_HALF (world s)"
  shows "trace (end_of (killByProcessName P name) s) =
    trace s @ cmd_events P (pidof_line P name) (world s) @
    (if pids = [] then [] else [ESystem (kill_line pids)])"
proof -
  have inj: "to16 P pids = to16 P [] \<longleftrightarrow> pids = []"
    using assms(1) [of pids] assms(1) [of "[]"] by (auto simp: assms(2))
  have k: "fmt_buf SIZE_1K_HALF (''kill -9 '' @ pids) = kill_line pids" "kill_line pids \<noteq> []"
    unfolding kill_line_def by (simp_all add: size_defs assms(2))
  show ?thesis
    using inj k assms(1) [of pids]
    unfolding killByProcessName_def Let_def
    by (simp add: run_getProcessId run_mySystem flip: assms(2)) (simp add: assms(2) run_mySystem)
qed

lemma bench_conversions: "no_nul x \<Longrightarrow> c_str (bench sg L) (to16 (bench sg L) x) = x"
  by (rule bench_c_str)

definition sample_net :: table where
  "sample_net = [(''pidof vold'', ''132'' @ [NL])]"

lemma killByProcessName_spec_witness:
  "let P = bench False 32; name = to16 P ''vold''; s = bench_state sample_net;
       pids = cmd_text P (pidof_line P name) SIZE_1K_HALF (world s) in
   trace (end_of (killByProcessName P name) s) =
    trace s @ cmd_events P (pidof_line P name) (world s) @
    (if pids = [] then [] else [ESystem (kill_line pids)])"
  unfolding Let_def by (rule killByProcessName_spec [OF bench_conversions refl])

section \<open>The update result\<close>

text \<open>
  An update counts as successful exactly when the line found starts with
  \<open>updateFlag=\<close> and its word is \<open>UPDATE_SUCCESS\<close>; a longer or a shorter word is not.
\<close>

lemma getOtaResult_spec:
  "res_of (getOtaResult P) s \<longleftrightarrow>
     scan_word ''updateFlag='' (cmd_text P OTA_CMD SIZE_1K (world s)) = Some ''UPDATE_SUCCESS''"
proof -
  have nn: "no_nul ''UPDATE_SUCCESS''" "OTA_CMD \<noteq> []" by (simp_all add: OTA_CMD_def)
  have w: "no_nul w" if "scan_word lit t = Some w" "no_nul t" for lit t w
  proof -
    have "set w \<subseteq> set t"
      using that(1) by (auto simp: scan_word_def Let_def split: if_splits
          dest!: set_takeWhileD set_dropWhileD in_set_dropD)
    then show ?thesis using that(2) by (auto simp: no_nul_def)
  qed
  have cmp: "strncmp_eq a ''UPDATE_SUCCESS'' 15 \<longleftrightarrow> cstr a = ''UPDATE_SUCCESS''" for a
  proof -
    have "15 = Suc (length ''UPDATE_SUCCESS'')" by simp
    then show ?thesis using strncmp_whole [OF nn(1), of a] by (simp only:)
  qed
  show ?thesis
  proof (cases "scan_word ''updateFlag='' (cmd_text P OTA_CMD SIZE_1K (world s))")
    case None
    with nn(2) show ?thesis
      by (simp add: getOtaResult_def run_executeCmd cmp Let_def flip: cmd_text_def)
  next
    case (Some v)
    then have "no_nul v" by (rule w) simp
    moreover from Some have "cmd_text P OTA_CMD SIZE_1K (world s) \<noteq> []"
      by (auto simp: scan_word_def)
    ultimately show ?thesis
      using Some nn(2) by (simp add: getOtaResult_def run_executeCmd cmp Let_def cmd_buf_empty
          size_defs poke_def flip: cmd_text_def)
  qed
qed

section \<open>The network card\<close>

lemma cmd_lines_nonempty [simp]: "CMD_LINK \<noteq> []" "CMD_NETCARDCURSPEED \<noteq> []" "CMD_MAXSPEED \<noteq> []"
  by (simp_all add: CMD_LINK_def CMD_NETCARDCURSPEED_def CMD_MAXSPEED_def)

lemma run_getNetcardState:
  "run_state (getNetcardState P) s =
     (prefix ''yes'' (cmd_text P CMD_LINK SIZE_1K (world s)), after_cmd P CMD_LINK s)"
proof -
  have y: "strncmp_eq a ''yes'' 3 \<longleftrightarrow> prefix ''yes'' (cstr a)" for a
    using strncmp_prefix [of "''yes''" a] by (simp add: numeral_3_eq_3)
  show ?thesis by (simp add: getNetcardState_def run_executeCmd y cmd_text_def)
qed

text \<open>The speeds in the order of preference.\<close>

definition best_speed :: "string \<Rightarrow> string" where
  "best_speed t =
     (if sublist ''1000baseT/Full'' t then ''1000''
      else if sublist ''100baseT/Full'' t then ''100''
      else if sublist ''10baseT/Full'' t then ''10'' else [])"

text \<open>
  The queries of the card: the link is up exactly when the output starts with \<open>yes\<close>,
  the current speed is the output without its newline, the maximal speed is the largest full-duplex mode
  listed; each runs its one command and nothing else.
\<close>

lemma netcard_queries:
  "run_state (getNetcardState P) s =
     (prefix ''yes'' (cmd_text P CMD_LINK SIZE_1K (world s)), after_cmd P CMD_LINK s) \<and>
   run_state (getNetcardCurSpeed P) s =
     (to16 P (one_line (cmd_text P CMD_NETCARDCURSPEED SIZE_1K (world s))), after_cmd P CMD_NETCARDCURSPEED s) \<and>
   run_state (getNetcardMaxSpeed P) s =
     (to16 P (best_speed (cmd_text P CMD_MAXSPEED SIZE_1K (world s))), after_cmd P CMD_MAXSPEED s)"
proof (intro conjI)
  show "run_state (getNetcardCurSpeed P) s =
     (to16 P (one_line (cmd_text P CMD_NETCARDCURSPEED SIZE_1K (world s))), after_cmd P CMD_NETCARDCURSPEED s)"
    unfolding getNetcardCurSpeed_def by (rule run_cmd_line) (simp_all add: size_defs)
  show "run_state (getNetcardMaxSpeed P) s =
     (to16 P (best_speed (cmd_text P CMD_MAXSPEED SIZE_1K (world s))), after_cmd P CMD_MAXSPEED s)"
    by (simp add: getNetcardMaxSpeed_def run_executeCmd contains_sublist best_speed_def flip: cmd_text_def)
qed (rule run_getNetcardState)

section \<open>Addresses\<close>

text \<open>The characters \<open>inet_pton\<close> accepts in an address, and the ones a shell treats specially.\<close>

definition addr_char :: "char \<Rightarrow> bool" where
  "addr_char c \<longleftrightarrow> isdigit c \<or> c \<in> set ''abcdefABCDEF.:''"

definition shell_special :: "char \<Rightarrow> bool" where
  "shell_special c \<longleftrightarrow> c \<in> set '' ;&|<>()$`*?[]{}!#~'' \<union> {CHR 0x22, CHR 0x27, CHR 0x5C, NL, CHR 0x09}"

definition valid_addr :: "'w platform \<Rightarrow> str16 \<Rightarrow> bool" where
  "valid_addr P ip \<longleftrightarrow> c_str P ip \<noteq> [] \<and> (inet_pton4 P (c_str P ip) \<or> inet_pton6 P (c_str P ip))"

lemma check_ipaddr_iff: "check_ipaddr P (c_str P ip) = 0 \<longleftrightarrow> valid_addr P ip"
  by (simp add: check_ipaddr_def valid_addr_def)

definition ping_cmd :: "'w platform \<Rightarrow> str16 \<Rightarrow> cint \<Rightarrow> cint \<Rightarrow> cint \<Rightarrow> string" where
  "ping_cmd P ip count timeout deadline = take (SIZE_1K - 1) (ping_line (c_str P ip) count timeout deadline)"

lemma ping_buf: "fmt_buf SIZE_1K (ping_line (c_str P ip) c t d) = ping_cmd P ip c t d"
  "ping_cmd P ip c t d \<noteq> []"
  by (simp_all add: ping_cmd_def ping_line_def size_defs)

lemma run_ping_block:
  "run_state (ping_block P ip count timeout deadline) s =
     (if valid_addr P ip \<and> 0 < sint count \<and> 0 \<le> sint timeout \<and> 0 \<le> sint deadline
      then (to16 P (one_line (cmd_text P (ping_cmd P ip count timeout deadline) SIZE_1K (world s))),
            after_cmd P (ping_cmd P ip count timeout deadline) s)
      else (to16 P [], s))"
proof (cases "valid_addr P ip \<and> 0 < sint count \<and> 0 \<le> sint timeout \<and> 0 \<le> sint deadline")
  case True
  then have "run_state (ping_block P ip count timeout deadline) s = run_state (do {
      res \<leftarrow> executeCmd P (Some (ping_cmd P ip count timeout deadline)) (zeroed SIZE_1K) SIZE_1K;
      check_str16_res P res (State_Monad.return (to16 P (cstr (chomp res)))) }) s"
    unfolding ping_block_def ping_buf Let_def by (auto simp: check_ipaddr_iff)
  also have "\<dots> = (to16 P (one_line (cmd_text P (ping_cmd P ip count timeout deadline) SIZE_1K (world s))),
      after_cmd P (ping_cmd P ip count timeout deadline) s)"
    by (rule run_cmd_line) (simp_all add: ping_buf size_defs)
  finally show ?thesis using True by simp
next
  case False
  then show ?thesis by (auto simp: ping_block_def check_ipaddr_iff)
qed

definition checkip_cmd :: "'w platform \<Rightarrow> str16 \<Rightarrow> string" where
  "checkip_cmd P ip = take (SIZE_1K - 1) (checkip_line (c_str P ip))"

lemma checkip_buf: "fmt_buf SIZE_1K (checkip_line (c_str P ip)) = checkip_cmd P ip" "checkip_cmd P ip \<noteq> []"
  by (simp_all add: checkip_cmd_def checkip_line_def size_defs)

lemma run_checkIpConflict:
  "run_state (checkIpConflict_block P ip) s =
     (if \<not> valid_addr P ip then (to16 P [], s)
      else if \<not> prefix ''yes'' (cmd_text P CMD_LINK SIZE_1K (world s)) then (to16 P [], after_cmd P CMD_LINK s)
      else let s1 = after_cmd P CMD_LINK s
        in (to16 P (one_line (cmd_text P (checkip_cmd P ip) SIZE_1K (world s1))), after_cmd P (checkip_cmd P ip) s1))"
proof (cases "valid_addr P ip")
  case True
  then have "run_state (checkIpConflict_block P ip) s =
      (if prefix ''yes'' (cmd_text P CMD_LINK SIZE_1K (world s))
       then run_state (do {
          res \<leftarrow> executeCmd P (Some (checkip_cmd P ip)) (zeroed SIZE_1K) SIZE_1K;
          check_str16_res P res (State_Monad.return (to16 P (cstr (chomp res)))) }) (after_cmd P CMD_LINK s)
       else (to16 P [], after_cmd P CMD_LINK s))"
    unfolding checkIpConflict_block_def checkip_buf Let_def
    by (simp add: check_ipaddr_iff run_getNetcardState)
  with True show ?thesis
    unfolding run_cmd_line [OF checkip_buf(2) SIZE_1K_pos] by (simp add: Let_def)
next
  case False
  then show ?thesis by (simp add: checkIpConflict_block_def check_ipaddr_iff)
qed

text \<open>
  \<open>ping_block\<close> and \<open>checkIpConflict_block\<close> run nothing and answer the empty string for an
  invalid address; \<open>ping_block\<close> also unless the count is positive and the two times are not negative,
  and \<open>checkIpConflict_block\<close> stops after the link query when the link is down; otherwise they run the one
  command built from their arguments and answer its output line.
\<close>

lemma address_queries_spec:
  "run_state (ping_block P ip count timeout deadline) s =
     (if valid_addr P ip \<and> 0 < sint count \<and> 0 \<le> sint timeout \<and> 0 \<le> sint deadline
      then (to16 P (one_line (cmd_text P (ping_cmd P ip count timeout deadline) SIZE_1K (world s))),
            after_cmd P (ping_cmd P ip count timeout deadline) s)
      else (to16 P [], s)) \<and>
   run_state (checkIpConflict_block P ip) s =
     (if \<not> valid_addr P ip then (to16 P [], s)
      else if \<not> prefix ''yes'' (cmd_text P CMD_LINK SIZE_1K (world s)) then (to16 P [], after_cmd P CMD_LINK s)
      else let s1 = after_cmd P CMD_LINK s
        in (to16 P (one_line (cmd_text P (checkip_cmd P ip) SIZE_1K (world s1))), after_cmd P (checkip_cmd P ip) s1))"
  by (intro conjI run_ping_block run_checkIpConflict)

text \<open>
  C30: Where \<open>inet_pton\<close> accepts only hexadecimal digits, dots and colons, the address a
  client sends reaches the shell without any character the shell treats specially: every command
  \<open>ping_block\<close> and \<open>checkIpConflict_block\<close> run is the link query or one of the two
  lines around such an address.
\<close>

lemma address_commands_safe:
  assumes "\<And>t. inet_pton4 P t \<or> inet_pton6 P t \<Longrightarrow> list_all addr_char t"
    "m = ping_block P ip c t d \<or> m = checkIpConflict_block P ip"
  shows "\<exists>es a. trace (end_of m s) = trace s @ es \<and> list_all addr_char a \<and> (\<forall>x \<in> set a. \<not> shell_special x) \<and>
    set (commands es) \<subseteq> {CMD_LINK, take (SIZE_1K - 1) (ping_line a c t d), take (SIZE_1K - 1) (checkip_line a)}"
proof (cases "valid_addr P ip")
  case True
  then have a: "list_all addr_char (c_str P ip)"
    using assms(1) by (auto simp: valid_addr_def)
  moreover have "\<forall>x \<in> set (c_str P ip). \<not> shell_special x"
  proof
    fix x assume "x \<in> set (c_str P ip)"
    with a have "addr_char x" by (simp add: list_all_iff)
    then show "\<not> shell_special x" unfolding addr_char_def shell_special_def
      by (auto simp: isdigit_def)
  qed
  moreover have "\<exists>es. trace (end_of m s) = trace s @ es \<and>
    set (commands es) \<subseteq> {CMD_LINK, take (SIZE_1K - 1) (ping_line (c_str P ip) c t d), take (SIZE_1K - 1) (checkip_line (c_str P ip))}"
  proof (cases "m = ping_block P ip c t d")
    case ping: True
    then show ?thesis by (simp add: run_ping_block ping_cmd_def)
  next
    case False
    then have "m = checkIpConflict_block P ip" using assms(2) by blast
    then show ?thesis using True by (simp add: run_checkIpConflict checkip_cmd_def Let_def)
  qed
  ultimately show ?thesis by blast
next
  case False
  then have "end_of m s = s"
    using assms(2) by (auto simp: run_ping_block checkIpConflict_block_def check_ipaddr_iff)
  then show ?thesis by (intro exI [of _ "[]"]) simp
qed

lemma bench_addr: "inet_pton4 (bench sg L) t \<or> inet_pton6 (bench sg L) t \<Longrightarrow> list_all addr_char t"
proof -
  assume "inet_pton4 (bench sg L) t \<or> inet_pton6 (bench sg L) t"
  then have "list_all (\<lambda>c. isdigit c \<or> c = CHR ''.'') t" by simp
  then show "list_all addr_char t" by (rule list.pred_mono_strong) (auto simp: addr_char_def)
qed

lemma address_commands_safe_witness:
  "\<exists>es a. trace (end_of (ping_block (bench False 32) (map of_char ''10.0.0.1'') 1 2 3) (bench_state [])) =
      trace (bench_state []) @ es \<and> list_all addr_char a \<and> (\<forall>x \<in> set a. \<not> shell_special x) \<and>
    set (commands es) \<subseteq> {CMD_LINK, take (SIZE_1K - 1) (ping_line a 1 2 3), take (SIZE_1K - 1) (checkip_line a)}"
  by (rule address_commands_safe [where P = "bench False 32" and ip = "map of_char ''10.0.0.1''"])
     (rule bench_addr, assumption, simp)

end
