(* ===== verification/BandProps.thy ===== *)
theory BandProps
  imports NetProps
begin

text \<open>
  \<open>checkBandwidth_block\<close> and \<open>startAvahi\<close>: the commands they run, in their order, and
  the rate that is printed.
\<close>

section \<open>Bandwidth\<close>

definition download_cmd :: "'w platform \<Rightarrow> str16 \<Rightarrow> str16 \<Rightarrow> str16 \<Rightarrow> string" where
  "download_cmd P ip user code = take (SIZE_1K - 1)
     (if user = [] \<and> code = [] then wget_line (c_str P ip)
      else wget_auth_line (c_str P user) (c_str P code) (c_str P ip))"

definition rm_cmd :: string where "rm_cmd = ''rm '' @ bandtmpfile"

lemma no_nul_bandtmpfile [simp]: "no_nul bandtmpfile"
  by (simp add: bandtmpfile_def)

lemma download_buf: "fmt_buf SIZE_1K (if length user = 0 \<and> length code = 0 then wget_line (c_str P ip)
    else wget_auth_line (c_str P user) (c_str P code) (c_str P ip)) = download_cmd P ip user code"
  by (simp add: download_cmd_def wget_line_def wget_auth_line_def SIZE_1K_pos)

lemma fixed_bufs: "fmt_buf SIZE_1K du_line = du_line" "fmt_buf SIZE_1K (''rm '' @ bandtmpfile) = rm_cmd"
  by (simp_all add: du_line_def rm_cmd_def bandtmpfile_def sq_def size_defs)

lemma band_cmds_nonempty [simp]: "download_cmd P ip user code \<noteq> []" "du_line \<noteq> []" "rm_cmd \<noteq> []"
  by (simp_all add: download_cmd_def wget_line_def wget_auth_line_def size_defs du_line_def rm_cmd_def)

text \<open>The machine after the download, when the clock has been read again.\<close>

definition downloaded :: "'w platform \<Rightarrow> str16 \<Rightarrow> str16 \<Rightarrow> str16 \<Rightarrow> 'w \<Rightarrow> 'w" where
  "downloaded P ip user code w = snd (pf_popen P (download_cmd P ip user code) (snd (pf_time P w)))"

text \<open>
  C40: The bandwidth test runs its commands with the network mutex held and releases it on every
  path: nothing for an invalid address; the download, with the user and the code as the client sent
  them; then, when the file is there, its size; and the file is removed only when a size was printed.
\<close>

lemma checkBandwidth_commands:
  "\<exists>es. trace (end_of (checkBandwidth_block P ip user code) s) = trace s @ ELock NetLock # es @ [EUnlock NetLock] \<and>
     (\<forall>m. ELock m \<notin> set es \<and> EUnlock m \<notin> set es) \<and>
     commands es =
       (if \<not> valid_addr P ip then []
        else let w = downloaded P ip user code (world s) in
          download_cmd P ip user code #
          (if \<not> pf_access P bandtmpfile w then []
           else du_line # (if cmd_text P du_line SIZE_1K (snd (pf_time P w)) = [] then [] else [rm_cmd])))"
proof -
  have no_lock: "ELock m \<notin> set (cmd_events P c w) \<and> EUnlock m \<notin> set (cmd_events P c w)" for m c w
    by (simp add: cmd_events_def)
  show ?thesis
    unfolding checkBandwidth_block_def with_lock_def bandwidth_locked_def download_buf fixed_bufs Let_def
    by (simp add: check_ipaddr_iff run_executeCmd access_def check_str16_res_def cmd_buf_empty SIZE_1K_pos
        downloaded_def run_mySystem no_lock split: prod.split)
qed

text \<open>Integers of at most 53 bits are exact.\<close>

lemma bitlen_le: "n < 2 ^ k \<Longrightarrow> bitlen n \<le> int k"
proof (induction k arbitrary: n)
  case 0
  then show ?case by (simp add: bitlen.simps [of n])
next
  case (Suc k)
  show ?case
  proof (cases "n \<le> 0")
    case True
    then show ?thesis by (simp add: bitlen.simps [of n])
  next
    case False
    have "n div 2 < 2 ^ k" using Suc.prems by simp
    with Suc.IH have "bitlen (n div 2) \<le> int k" by blast
    with False show ?thesis by (subst bitlen.simps) simp
  qed
qed

lemma round53_of_nat:
  assumes "n < 2 ^ 53"
  shows "round53 (of_nat n) = of_nat n"
proof (cases "n = 0")
  case True
  then show ?thesis by (simp add: round53_def)
next
  case False
  have b: "bitlen (int n) \<le> 53"
  proof -
    have "int n < 2 ^ 53" using assms by (metis of_nat_less_iff of_nat_numeral of_nat_power)
    then show ?thesis using bitlen_le [of "int n" 53] by simp
  qed
  have q: "quotient_of (of_nat n) = (int n, 1)" 
  proof -
    have "(of_nat n :: rat) = Fract (int n) 1" by (metis Fract_of_int_eq of_int_of_nat_eq)
    then show ?thesis by (simp add: quotient_of_Fract)
  qed
  have "bitlen 1 = 1" by (simp add: bitlen.simps)
  have exact: "of_int (round_even (of_nat n / pow2 e)) * pow2 e = of_nat n" if "e \<le> 0" for e
  proof -
    have "pow2 e = 1 / 2 ^ nat (- e)" using that by (cases "e = 0") (simp_all add: pow2_def)
    moreover have "round_even (of_nat n * 2 ^ nat (- e)) = int n * 2 ^ nat (- e)"
      using round_even_of_int [of "int n * 2 ^ nat (- e)"] by simp
    ultimately show ?thesis by simp
  qed
  have "round53 (of_nat n) = round53_pos (of_nat n)" using False by (simp add: round53_def)
  also have "\<dots> = of_nat n"
    unfolding round53_pos_def q Let_def prod.case \<open>bitlen 1 = 1\<close>
    by (rule exact) (use b in simp)
  finally show ?thesis .
qed

lemma atof_show:
  assumes "n < 2 ^ 53" "u = [] \<or> \<not> isdigit (u ! 0) \<and> u ! 0 \<noteq> CHR ''.''"
  shows "atof (show_base 10 n @ u) = Fin (of_nat n)"
proof -
  let ?s = "show_base 10 n"
  obtain c v where cv: "?s = c # v" by (cases ?s) auto
  then have c: "isdigit c" using show_base_10_digits [of n] by simp
  have dig: "takeWhile isdigit (?s @ u) = ?s"
    using show_base_10_digits [of n] assms(2) by (cases u) (auto simp: takeWhile_eq_self)
  have sp: "dropWhile isspace (?s @ u) = ?s @ u"
    using c isdigit_not_space by (simp add: cv)
  have hd: "(?s @ u) ! 0 = c" "?s @ u \<noteq> []" by (simp_all add: cv)
  have dot: "\<not> (u \<noteq> [] \<and> u ! 0 = CHR ''.'')" using assms(2) by blast
  show ?thesis
    using isdigit_not_space [OF c] assms(1)
    by (simp add: atof_def sp hd dig Let_def read_show_base round53_of_nat) (use dot in blast)
qed

lemma cstr_scan_size:
  assumes "\<forall>c \<in> set d. c \<noteq> CHR ''M'' \<and> c \<noteq> NUL" "d \<noteq> []"
  shows "cstr (scan_size (d @ t)) = d @ takeWhile (\<lambda>c. c \<noteq> CHR ''M'') (cstr t)"
proof -
  define w where "w = takeWhile (\<lambda>c. c \<noteq> CHR ''M'') (cstr t)"
  have nd: "no_nul d" using assms(1) by (auto simp: no_nul_def)
  have "set w \<subseteq> set (cstr t)" using set_takeWhileD by (fastforce simp: w_def)
  then have nw: "no_nul w" using no_nul_cstr [of t] by (auto simp: no_nul_def)
  have "scan_until (CHR ''M'') (cstr (d @ t)) = Some (d @ w)"
    using assms nd by (simp add: scan_until_def w_def)
  then show ?thesis using nd nw by (simp add: scan_size_def poke_def w_def)
qed

text \<open>
  What the bandwidth test reports ignores the unit \<open>du\<close> printed, so that kilobytes count
  as megabytes, and is \<open>infMb/s\<close> for a download within one tick of the clock.
\<close>

lemma rate_faults:
  assumes "0 < n" "n < 2 ^ 53"
  shows "rate_text (scan_size (show_base 10 n @ ''K'' @ t)) secs =
      rate_text (scan_size (show_base 10 n @ ''M'' @ t)) secs \<and>
    rate_text (scan_size (show_base 10 n @ ''M'' @ t)) 0 = ''infMb/s''"
proof -
  have d: "\<forall>c \<in> set (show_base 10 n). c \<noteq> CHR ''M'' \<and> c \<noteq> NUL"
    using show_base_10_digits [of n] by (auto simp: isdigit_def)
  have "atof (cstr (scan_size (show_base 10 n @ ''K'' @ t))) = Fin (of_nat n)"
    unfolding cstr_scan_size [OF d show_base_not_Nil]
    by (rule atof_show [OF assms(2)]) (simp add: isdigit_def)
  moreover have "atof (cstr (scan_size (show_base 10 n @ ''M'' @ t))) = Fin (of_nat n)"
    unfolding cstr_scan_size [OF d show_base_not_Nil]
    by (rule atof_show [OF assms(2)]) (simp add: isdigit_def)
  ultimately show ?thesis
    using assms(1) by (simp add: rate_text_def div_double_def show_2f_def)
qed

lemma rate_faults_witness:
  "rate_text (scan_size (show_base 10 512 @ ''K'' @ [NL])) 4 =
      rate_text (scan_size (show_base 10 512 @ ''M'' @ [NL])) 4 \<and>
    rate_text (scan_size (show_base 10 512 @ ''M'' @ [NL])) 0 = ''infMb/s''"
  by (rule rate_faults) simp_all

section \<open>Avahi\<close>

lemma avahi_cmds_nonempty [simp]: "AVAHI_CONFIG \<noteq> []" "AVAHI_KILL \<noteq> []" "AVAHI_START \<noteq> []"
  by (simp_all add: AVAHI_CONFIG_def AVAHI_KILL_def AVAHI_START_def)

text \<open>
  On a machine the commands leave as it is, \<open>startAvahi\<close> first runs the configuration
  script when its directory is missing and gives up if that cannot be run; without the action script it does
  nothing more; otherwise it asks for the link, kills a daemon that runs only while the link is up, and
  starts a daemon whether the link is up or not, unless the kill could not be run.
\<close>

lemma startAvahi_commands:
  assumes "\<And>c w. snd (pf_popen P c w) = w" "\<And>c w. snd (pf_system P c w) = w"
    "\<And>x. no_nul x \<Longrightarrow> c_str P (to16 P x) = x"
    "w = world s" "pidof = pidof_line P (to16 P ''avahi-autoipd'')"
    "cfg \<longleftrightarrow> \<not> pf_access P ''/data/data/org.freedesktop.telepathy/files'' w \<and> pf_access P ''/system/bin/config_avahi.sh'' w"
    "link \<longleftrightarrow> prefix ''yes'' (cmd_text P CMD_LINK SIZE_1K w)"
    "running \<longleftrightarrow> link \<and> cmd_text P pidof SIZE_1K_HALF w \<noteq> []"
  shows "commands (trace (end_of (startAvahi P) s)) = commands (trace s) @
    (if cfg then [AVAHI_CONFIG] else []) @
    (if cfg \<and> sint (fst (pf_system P AVAHI_CONFIG w)) < 0 then []
     else if \<not> pf_access P ''/system/bin/avahi-autoipd_action.sh'' w then []
     else [CMD_LINK] @ (if link then [pidof] else []) @ (if running then [AVAHI_KILL] else []) @
       (if running \<and> sint (fst (pf_system P AVAHI_KILL w)) < 0 then [] else [AVAHI_START]))"
proof -
  have inj: "to16 P (cmd_text P c n v) = to16 P [] \<longleftrightarrow> cmd_text P c n v = []" for c n v
    using assms(3) [of "cmd_text P c n v"] assms(3) [of "[]"] by auto
  show ?thesis
    unfolding startAvahi_def assms(4-8)
    by (simp add: access_def run_mySystem_after run_getNetcardState run_getProcessId assms(1,2) inj)
qed

lemma startAvahi_commands_witness:
  "commands (trace (end_of (startAvahi (bench False 32))
     (bench_state [(''/system/bin/avahi-autoipd_action.sh'', ''x''), (CMD_LINK, ''no'')]))) =
   [CMD_LINK, AVAHI_START]"
  by (subst startAvahi_commands [OF _ _ bench_conversions refl refl refl refl refl])
    (simp_all add: cmd_text_def cmd_buf_def fill_no_nul size_defs poke_def, simp add: CMD_LINK_def)

end
