(* ===== verification/InfoProps.thy ===== *)
theory InfoProps
  imports ProductInfo CmdFacts BandProps
begin

text \<open>
  What the product queries print: the processor text, upper-casing, memory and storage sizes,
  properties.
\<close>

section \<open>Upper case\<close>

lemma upper_loop_split: "upper_loop buf = map toupper (cstr buf) @ drop (length (cstr buf)) buf"
  by (induction buf) simp_all

lemma of_char_toupper:
  "(of_char (toupper c) :: nat) =
     (if 97 \<le> (of_char c :: nat) \<and> (of_char c :: nat) \<le> 122 then of_char c - 32 else of_char c)"
proof (cases "97 \<le> (of_char c :: nat) \<and> (of_char c :: nat) \<le> 122")
  case True
  then have "((of_char c :: nat) - 32) mod 256 = of_char c - 32" by (intro mod_less) linarith
  with True show ?thesis by (simp add: toupper_def)
next
  case False
  then show ?thesis by (auto simp: toupper_def)
qed

lemma toupper_not_NUL: "c \<noteq> NUL \<Longrightarrow> toupper c \<noteq> NUL"
proof
  assume c: "c \<noteq> NUL" and "toupper c = NUL"
  then have "(of_char (toupper c) :: nat) = 0" by simp
  then have "(of_char c :: nat) = 0" by (auto simp: of_char_toupper split: if_splits)
  then have "c = char_of (0 :: nat)" by (metis char_of_char)
  moreover have "char_of (0 :: nat) = NUL" by code_simp
  ultimately show False using c by simp
qed

lemma toupper_idem: "toupper (toupper c) = toupper c"
  using of_char_toupper [of c] by (auto simp: toupper_def [of "toupper c"] split: if_splits)

text \<open>The string is upper-cased in place and nothing behind it changes.\<close>

lemma litConverBig_upper:
  "cstr (litConverBig buf) = map toupper (cstr buf) \<and>
   drop (length (cstr buf)) (litConverBig buf) = drop (length (cstr buf)) buf \<and>
   length (litConverBig buf) = length buf \<and>
   litConverBig (litConverBig buf) = litConverBig buf"
proof -
  obtain t u where buf: "buf = t @ u" and t: "no_nul t" and u: "cstr u = []"
    by (rule buf_cases [of buf])
  have t': "no_nul (map toupper t)" using t unfolding no_nul_def set_map by (metis imageE toupper_not_NUL)
  have l: "litConverBig (v @ u) = map toupper v @ u" if "no_nul v" for v
  proof -
    have "cstr (v @ u) = v" using that u by simp
    then show ?thesis unfolding litConverBig_def upper_loop_split by simp
  qed
  have m: "map toupper (map toupper t) = map toupper t" by (simp add: toupper_idem)
  have 1: "cstr buf = t" using t u by (simp add: buf)
  have 2: "litConverBig buf = map toupper t @ u" unfolding buf by (rule l [OF t])
  have 3: "litConverBig (litConverBig buf) = litConverBig buf" unfolding 2 l [OF t'] m ..
  have 4: "cstr (map toupper t @ u) = map toupper t" using t' u by simp
  show ?thesis unfolding 3 unfolding 1 2 4 by (simp add: buf)
qed

section \<open>Memory and storage\<close>

definition mem_text :: "nat \<Rightarrow> string" where
  "mem_text n =
     (if n \<le> 1024 then show_base 10 n @ ''K''
      else if n < 1025 * 1024 then show_base 10 (n div 1024) @ ''M''
      else show_base 10 (n div (1024 * 1024)) @ ''G'')"

lemma MEM_CMD_nonempty [simp]: "MEM_CMD \<noteq> []"
  by (simp add: MEM_CMD_def)

lemma scale_mem_text:
  "(let (v, u) = scale_mem (int n) in show_dec v @ [u]) = mem_text n"
proof -
  have k: "int SIZE_1K = 1024" by (simp add: size_defs)
  consider "n \<le> 1024" | "1024 < n" "n < 1025 * 1024" | "1025 * 1024 \<le> n" by linarith
  then show ?thesis
  proof cases
    case 1
    then show ?thesis by (simp add: scale_mem_def k mem_text_def show_dec_def)
  next
    case 2
    then have "int n div 1024 \<le> 1024" by linarith
    moreover have "nat (int n div 1024) = n div 1024" by (simp add: nat_div_distrib)
    ultimately show ?thesis using 2 by (simp add: scale_mem_def k mem_text_def show_dec_def)
  next
    case 3
    then have "1024 < int n div 1024" by linarith
    moreover have "nat (int n div 1024 div 1024) = n div (1024 * 1024)"
      by (simp add: nat_div_distrib div_mult2_eq)
    moreover have "0 \<le> int n div 1024 div 1024" by simp
    ultimately show ?thesis using 3 by (simp add: scale_mem_def k mem_text_def show_dec_def)
  qed
qed

text \<open>
  When the command prints a number of kilobytes, \<open>getMemoryInfo\<close> prints it in the
  largest of the units K, M and G that leaves more than 1024 of the next smaller one, rounded down;
  when it prints nothing the answer is empty.
\<close>

lemma getMemoryInfo_spec:
  assumes "cmd_text P MEM_CMD SIZE_1K (world s) = show_base 10 n @ t" "t = [] \<or> \<not> isdigit (t ! 0)"
    "n < 2 ^ 31" "32 \<le> long_bits P"
  shows "run_state (getMemoryInfo P) s = (to16 P (mem_text n), after_cmd P MEM_CMD s)"
proof -
  have "(2 :: int) ^ 31 \<le> 2 ^ (long_bits P - 1)" using assms(4) by (intro power_increasing) simp_all
  moreover have "int n < 2 ^ 31" using assms(3) by (metis of_nat_less_iff of_nat_numeral of_nat_power)
  ultimately have st: "strtol10 (long_bits P) (show_base 10 n @ t) = int n"
    by (intro strtol10_show [OF _ assms(2)]) linarith
  have "sint (atoi (long_bits P) (show_base 10 n @ t)) = int n"
  proof -
    have "signed_take_bit 31 (int n) = int n"
      using \<open>int n < 2 ^ 31\<close> by (intro signed_take_bit_int_eq_self) simp_all
    then have "sint (word_of_int (int n) :: cint) = int n" by (simp only: signed_of_int) simp
    then show ?thesis unfolding atoi_def
      unfolding st .
  qed
  moreover have "length (mem_text n) < 1024"
  proof -
    have "length (show_base 10 m) \<le> 10" if "m \<le> n" for m
      using that assms(3) by (intro length_show_base) simp_all
    then show ?thesis by (simp add: mem_text_def le_less_trans [of _ 10])
  qed
  moreover have "no_nul (mem_text n)" by (simp add: mem_text_def)
  moreover have "run_state (getMemoryInfo P) s = (to16 P (fmt_buf SIZE_1K
      (let (v, u) = scale_mem (sint (atoi (long_bits P) (show_base 10 n @ t))) in show_dec v @ [u])),
      after_cmd P MEM_CMD s)"
    unfolding getMemoryInfo_def
    by (subst run_cmd_check)
      (simp_all add: SIZE_1K_pos assms(1) Let_def case_prod_beta flip: cmd_text_def)
  ultimately show ?thesis by (simp add: scale_mem_text size_defs)
qed

lemma getMemoryInfo_spec_witness:
  "run_state (getMemoryInfo (bench False 32)) (bench_state [(MEM_CMD, ''2067788'' @ [NL])]) =
   (to16 (bench False 32) (mem_text 2067788), after_cmd (bench False 32) MEM_CMD (bench_state [(MEM_CMD, ''2067788'' @ [NL])]))"
proof (rule getMemoryInfo_spec [where t = "[NL]"])
  have "show_base 10 2067788 = ''2067788''"
    by (simp add: show_base.simps digit_char_def char_of_def bit_Suc_0_iff)
  then show "cmd_text (bench False 32) MEM_CMD SIZE_1K (world (bench_state [(MEM_CMD, ''2067788'' @ [NL])])) =
      show_base 10 2067788 @ [NL]"
    by (simp add: cmd_text_def cmd_buf_def fill_no_nul size_defs poke_def)
qed (simp_all add: isdigit_def)

definition unit_size :: "char \<Rightarrow> rat" where
  "unit_size u = (if u = CHR ''K'' then 1024 else if u = CHR ''M'' then 1024 ^ 2 else 1024 ^ 3)"

lemma scale_size_value:
  assumes "scale_size b = (q, u)"
  shows "q * unit_size u = b" "u \<in> {CHR ''K'', CHR ''M'', CHR ''G''}"
    "u \<noteq> CHR ''G'' \<Longrightarrow> q \<le> 1024" "u \<noteq> CHR ''K'' \<Longrightarrow> 1 < q"
proof -
  have k: "(of_nat SIZE_1K :: rat) = 1024" by (simp add: size_defs)
  note eq = assms [unfolded scale_size_def k Let_def]
  show "q * unit_size u = b" "u \<in> {CHR ''K'', CHR ''M'', CHR ''G''}"
    "u \<noteq> CHR ''G'' \<Longrightarrow> q \<le> 1024" "u \<noteq> CHR ''K'' \<Longrightarrow> 1 < q"
    using eq by (auto simp: unit_size_def power2_eq_square power3_eq_cube split: if_splits)
qed

lemma scale_size_nonneg: "0 \<le> b \<Longrightarrow> scale_size b = (q, u) \<Longrightarrow> 0 \<le> q"
  by (auto simp: scale_size_def Let_def split: if_splits)

lemma no_nul_size_text: "u \<noteq> NUL \<Longrightarrow> no_nul (size_text q u)"
  by (auto simp: size_text_def Let_def no_nul_def) (metis no_nul_def no_nul_show_fixed)

text \<open>
  \<open>getStorageInfo\<close> prints the size of \<open>/data\<close> as a number of tenths of K, M or G, the
  smallest unit that leaves at most 1024 of it (G for more): the number printed is within half a tenth of
  the true size in that unit.  Without a size it prints \<open>0.0 K\<close>, with the padding of the format.
\<close>

lemma getStorageInfo_spec:
  "\<exists>t q u. run_state (getStorageInfo P) s = (to16 P (size_text q u), t) \<and>
     (case pf_statfs P ''/data'' (world s) of
        None \<Rightarrow> size_text q u = ''0.0 K''
      | Some (blocks, bsize) \<Rightarrow>
          (if blocks = 0 then size_text q u = ''0.0 K''
           else q * unit_size u = of_nat blocks * of_nat bsize \<and> u \<in> set ''KMG'' \<and>
             (u = CHR ''G'' \<or> q \<le> 1024) \<and> (u = CHR ''K'' \<or> 1 < q) \<and>
             (\<exists>tenths. \<bar>of_nat tenths / 10 - q\<bar> \<le> 1 / 20 \<and>
                prefix (show_base 10 (tenths div 10) @ ''.'' @ show_base 10 (tenths mod 10)) (size_text q u))))"
proof -
  have zero: "size_text 0 (CHR ''K'') = ''0.0 K''"
    by (simp add: size_text_def show_fixed_def round_even_def show_base.simps pad_zero_def Let_def
        digit_char_def char_of_def bit_Suc_0_iff)
  have run: "\<exists>t. run_state (getStorageInfo P) s = (to16 P (size_text 0 (CHR ''K'')), t)"
    if "case pf_statfs P ''/data'' (world s) of None \<Rightarrow> True | Some (b, z) \<Rightarrow> b = 0"
    using that no_nul_size_text [of "CHR ''K''" 0]
    by (auto simp: getStorageInfo_def getStorageSize_def poke_def split: option.splits)
  show ?thesis
  proof (cases "case pf_statfs P ''/data'' (world s) of None \<Rightarrow> True | Some (b, z) \<Rightarrow> b = 0")
    case True
    then show ?thesis using run zero by (fastforce split: option.splits)
  next
    case False
    then obtain b z where bz: "pf_statfs P ''/data'' (world s) = Some (b, z)" "b \<noteq> 0"
      by (auto split: option.splits)
    obtain q u where qu: "scale_size (of_nat b * of_nat z) = (q, u)" by fastforce
    note v = scale_size_value [OF qu]
    have "u \<noteq> NUL" using v(2) by auto
    then have "\<exists>t. run_state (getStorageInfo P) s = (to16 P (size_text q u), t)"
      using bz qu no_nul_size_text [of u q]
      by (simp add: getStorageInfo_def getStorageSize_def poke_def)
    then obtain t where t: "run_state (getStorageInfo P) s = (to16 P (size_text q u), t)" by blast
    have q0: "0 \<le> q" by (rule scale_size_nonneg [OF _ qu]) simp
    define n where "n = nat (round_even (10 * q))"
    have n: "\<bar>of_nat n / 10 - q\<bar> \<le> 1 / 20"
      using show_fixed_close [OF q0, of 1] by (simp add: n_def)
    have "prefix (show_base 10 (n div 10) @ ''.'' @ show_base 10 (n mod 10)) (size_text q u)"
    proof -
      have "pad_zero 1 (show_base 10 (n mod 10)) = show_base 10 (n mod 10)"
        by (cases "show_base 10 (n mod 10)") (simp_all add: pad_zero_def)
      then show ?thesis by (simp add: size_text_def show_fixed_def Let_def prefix_def flip: n_def)
    qed
    with t n bz v show ?thesis
      by (intro exI [of _ t] exI [of _ q] exI [of _ u]) auto
  qed
qed

section \<open>Properties and the processor\<close>

lemma run_property_get:
  assumes "no_nul v" "v \<noteq> []" "pf_getprop P key (world s) = v" "length v < n"
  shows "run_state (property_get P key (zeroed n) d) s =
    ((length v, poke 0 (v @ [NUL]) (zeroed n)), s\<lparr>overrun := overrun s\<rparr>)"
  using assms by (simp add: property_get_def getprop_def Let_def)

lemma CPU_CMD_nonempty [simp]: "CPU_CMD \<noteq> []"
  by (simp add: CPU_CMD_def)

text \<open>The last newline turned into a space.\<close>

definition spaced :: "string \<Rightarrow> string" where
  "spaced t = (if last t = NL then butlast t @ '' '' else t)"

lemma cstr_spaced:
  assumes "cstr buf \<noteq> []"
  shows "cstr (if buf ! (length (cstr buf) - 1) = NL then buf[length (cstr buf) - 1 := CHR '' ''] else buf) =
    spaced (cstr buf)"
  using assms cstr_last [of buf] cstr_last(3) [of buf "CHR '' ''"] by (simp add: spaced_def)

text \<open>
  \<open>getCpuInfo\<close> answers the output of its command, the final newline made a space, the upper-cased
  product name and the suffix; and it writes past its array of 1024 bytes exactly when the three together
  with the terminator are longer, which nothing in the code prevents.
\<close>

lemma getCpuInfo_spec:
  assumes "t = cmd_text P CPU_CMD SIZE_1K (world s)" "t \<noteq> []"
    "v = pf_getprop P ''ro.product.name'' (snd (pf_popen P CPU_CMD (world s)))" "no_nul v" "v \<noteq> []" "length v < SIZE_1K"
  shows "res_of (getCpuInfo P) s = to16 P (spaced t @ map toupper v @ SUFFIX) \<and>
    overrun (end_of (getCpuInfo P) s) = (overrun s \<or> SIZE_1K \<le> length t + length v + length SUFFIX)"
proof -
  let ?buf = "cmd_buf P CPU_CMD SIZE_1K (world s)"
  let ?res1 = "if ?buf ! (length (cstr ?buf) - 1) = NL then ?buf[length (cstr ?buf) - 1 := CHR '' ''] else ?buf"
  let ?s1 = "after_cmd P CPU_CMD s"
  let ?sub = "poke 0 (v @ [NUL]) (zeroed SIZE_1K)"
  let ?up = "cstr (litConverBig ?sub)"
  have t: "cstr ?buf = t" by (simp add: assms(1) cmd_text_def)
  have up: "?up = map toupper v"
    using litConverBig_upper [of ?sub] assms(4) by (simp add: poke_def)
  have nn: "no_nul ?up" "no_nul SUFFIX" by (simp_all add: SUFFIX_def)
  have c1: "cstr ?res1 = spaced t" using cstr_spaced [of ?buf] t assms(2) by simp
  have l1: "length ?res1 = SIZE_1K" by simp
  have sp: "length (spaced t) = length t" using assms(2) by (simp add: spaced_def)
  have tn: "length t < SIZE_1K" by (simp add: assms(1) cmd_text_short SIZE_1K_pos)
  have run: "run_state (getCpuInfo P) s =
      (to16 P (cstr (strcat (strcat ?res1 ?up) SUFFIX)),
       ?s1\<lparr>overrun := overrun ?s1 \<or> SIZE_1K < length (strcat (strcat ?res1 ?up) SUFFIX)\<rparr>)"
  proof -
    have ne: "cmd_text P CPU_CMD SIZE_1K (world s) \<noteq> []" using assms(1,2) by simp
    have pg: "run_state (property_get P ''ro.product.name'' (zeroed SIZE_1K) None) ?s1 =
        ((length v, ?sub), ?s1\<lparr>overrun := overrun ?s1\<rparr>)"
      using assms(4-6) by (intro run_property_get) (simp_all add: assms(3))
    show ?thesis
      unfolding getCpuInfo_def
      by (subst run_cmd_check [OF CPU_CMD_nonempty SIZE_1K_pos])
        (use assms(5) in \<open>simp add: ne Let_def pg del: One_nat_def\<close>)
  qed
  have "cstr (strcat (strcat ?res1 ?up) SUFFIX) = spaced t @ map toupper v @ SUFFIX"
    using nn c1 up by simp
  moreover have "length (strcat (strcat ?res1 ?up) SUFFIX) = max SIZE_1K (length t + length v + length SUFFIX + 1)"
    using nn(1) c1 up l1 sp tn by (simp add: length_strcat)
  ultimately show ?thesis by (auto simp: run)
qed

lemma getCpuInfo_spec_witness:
  "let P = bench False 32; s = bench_state [(CPU_CMD, ''ARMv7'' @ [NL]), (''ro.product.name'', ''rain'')];
       t = cmd_text P CPU_CMD SIZE_1K (world s); v = pf_getprop P ''ro.product.name'' (snd (pf_popen P CPU_CMD (world s)))
   in res_of (getCpuInfo P) s = to16 P (spaced t @ map toupper v @ SUFFIX) \<and>
      overrun (end_of (getCpuInfo P) s) = (overrun s \<or> SIZE_1K \<le> length t + length v + length SUFFIX)"
  unfolding Let_def
  by (rule getCpuInfo_spec [OF refl _ refl])
    (simp_all add: cmd_text_def cmd_buf_def fill_no_nul size_defs poke_def CPU_CMD_def)

definition prop_text :: "'w platform \<Rightarrow> string \<Rightarrow> 'w \<Rightarrow> string" where
  "prop_text P key w = cstr (pf_getprop P key w)"

lemma run_property_text:
  "run_state (property_get P key (zeroed n) d) s =
     (let w = (if prop_text P key (world s) = [] then (case d of None \<Rightarrow> [] | Some x \<Rightarrow> x) else prop_text P key (world s))
      in ((length w, poke 0 (w @ [NUL]) (zeroed n)), s\<lparr>overrun := overrun s \<or> n < max n (length w + 1)\<rparr>))"
  by (auto simp: property_get_def getprop_def Let_def prop_text_def max_def not_le poke_def)

text \<open>
  The property queries answer the value of their property, the product name in upper case,
  and the empty string for one that is not set or for an empty key; a value that fits the buffer of
  \<open>PROPERTY_VALUE_MAX\<close> bytes is copied without an overrun.
\<close>

lemma property_queries:
  "map (\<lambda>get. res_of (get P) s) [getAndroidVersion, getSystemVersion, getBaseboardInfo, getProductName] =
     map (to16 P) [prop_text P ANDROID_VERSION_PROPERTY (world s), prop_text P SYSTEM_VERSION_PROPERTY (world s),
       prop_text P BOARD_INFO_PROPERTY (world s), map toupper (prop_text P PRODUCT_NAME_PROPERTY (world s))] \<and>
   res_of (getPropertyValue P key) s =
     to16 P (if key = [] then [] else prop_text P (c_str P key) (world s)) \<and>
   overrun (end_of (getPropertyValue P key) s) =
     (overrun s \<or> (key \<noteq> [] \<and> prop_max P \<le> length (prop_text P (c_str P key) (world s))))"
proof -
  have nn: "no_nul (prop_text P k w)" for k w by (simp add: prop_text_def)
  have c: "cstr (poke 0 (prop_text P k w @ [NUL]) (zeroed n)) = prop_text P k w" for k w n
    using nn [of k w] by (simp add: poke_def)
  have e: "cstr (poke 0 [NUL] (zeroed n)) = []" for n by (simp add: poke_def)
  have u: "cstr (litConverBig (poke 0 (prop_text P k w @ [NUL]) (zeroed n))) = map toupper (prop_text P k w)" for k w n
    using litConverBig_upper [of "poke 0 (prop_text P k w @ [NUL]) (zeroed n)"] c by simp
  show ?thesis
    by (simp add: getAndroidVersion_def getSystemVersion_def getBaseboardInfo_def getProductName_def
        getPropertyValue_def run_property_text Let_def c e u) (auto simp: max_def)
qed

end
