(* ===== verification/FileProps.thy ===== *)
theory FileProps
  imports ProductFiles CmdFacts NetProps
begin

text \<open>
  What the file operations promise: when they refuse, the exact commands they run, and what
  their boolean means.
\<close>

section \<open>Modes\<close>

definition stat_cmd :: "string \<Rightarrow> string \<Rightarrow> string" where
  "stat_cmd path mode = take (SIZE_1K_HALF - 1) (if length mode = 3 then stat_line3 path else stat_line4 path)"

lemma stat_cmd_nonempty [simp]: "stat_cmd path mode \<noteq> []"
  by (simp add: stat_cmd_def stat_line3_def stat_line4_def size_defs)

lemma stat_buf:
  "no_nul path \<Longrightarrow> length mode = 3 \<Longrightarrow> fmt_buf SIZE_1K_HALF (stat_line3 path) = stat_cmd path mode"
  "no_nul path \<Longrightarrow> length mode = 4 \<Longrightarrow> fmt_buf SIZE_1K_HALF (stat_line4 path) = stat_cmd path mode"
  by (simp_all add: stat_cmd_def stat_line3_def stat_line4_def size_defs)

lemma run_checkFileMode:
  assumes "no_nul path" "no_nul mode"
  shows "run_state (checkFileMode P path mode (length mode)) s =
    (if length mode = 3 \<or> length mode = 4
     then (prefix mode (cmd_text P (stat_cmd path mode) SIZE_1K_HALF (world s)), after_cmd P (stat_cmd path mode) s)
     else (False, s))"
proof -
  have p: "strncmp_eq buf mode (length mode) \<longleftrightarrow> prefix mode (cstr buf)" for buf
    by (rule strncmp_prefix [OF assms(2)])
  consider "length mode = 3" | "length mode = 4" | "length mode \<noteq> 3" "length mode \<noteq> 4" by blast
  then show ?thesis
  proof cases
    case 1
    then show ?thesis using p stat_buf(1) [OF assms(1) 1]
      by (simp add: checkFileMode_def run_executeCmd cmd_text_def Let_def)
  next
    case 2
    then show ?thesis using p stat_buf(2) [OF assms(1) 2]
      by (simp add: checkFileMode_def run_executeCmd cmd_text_def Let_def)
  next
    case 3
    then show ?thesis by (simp add: checkFileMode_def)
  qed
qed

definition chmod_cmd :: "'w platform \<Rightarrow> string \<Rightarrow> str16 \<Rightarrow> str16 \<Rightarrow> string" where
  "chmod_cmd P opt path mode = take (SIZE_1K - 1) (''chmod '' @ opt @ c_str P mode @ '' '' @ c_str P path)"

lemma chmod_buf:
  "fmt_buf SIZE_1K (''chmod '' @ c_str P mode @ '' '' @ c_str P path) = chmod_cmd P [] path mode"
  "fmt_buf SIZE_1K (''chmod -R '' @ c_str P mode @ '' '' @ c_str P path) = chmod_cmd P ''-R '' path mode"
  "chmod_cmd P opt path mode \<noteq> []"
  by (simp_all add: chmod_cmd_def size_defs)

text \<open>The change of a mode once the checks have passed: change, then check.\<close>

definition change_mode :: "'w platform \<Rightarrow> string \<Rightarrow> str16 \<Rightarrow> str16 \<Rightarrow> ('w sys, bool) state" where
  "change_mode P opt path mode = do {
     ret \<leftarrow> mySystem P (Some (chmod_cmd P opt path mode));
     if sint ret < 0 then State_Monad.return False
     else checkFileMode P (c_str P path) (c_str P mode) (length (c_str P mode)) }"

lemma return_bool_eta:
  "(do { ok \<leftarrow> m; if \<not> ok then State_Monad.return False else State_Monad.return True }) = (m :: ('s, bool) state)"
  by (rule state_ext) (simp add: case_prod_beta prod_eq_iff)

lemma chmodFile_alt:
  "chmodFile P path mode =
     (if mode = to16 P [] then State_Monad.return False
      else do {
        there \<leftarrow> access P (c_str P path);
        if there then do {
          dir \<leftarrow> opendir P (c_str P path);
          if dir then State_Monad.return False else change_mode P [] path mode }
        else State_Monad.return False })"
  unfolding chmodFile_def change_mode_def Let_def chmod_buf return_bool_eta ..

lemma chmodDir_alt:
  "chmodDir P path mode =
     (if mode = to16 P [] \<or> path = to16 P [] then State_Monad.return False
      else do {
        dir \<leftarrow> opendir P (c_str P path);
        if dir then change_mode P ''-R '' path mode else State_Monad.return False })"
  unfolding chmodDir_def change_mode_def Let_def chmod_buf return_bool_eta ..

text \<open>When a change counts as made, and the commands it takes.\<close>

definition mode_changed :: "'w platform \<Rightarrow> string \<Rightarrow> str16 \<Rightarrow> str16 \<Rightarrow> 'w \<Rightarrow> bool" where
  "mode_changed P opt path mode w =
     (let c = chmod_cmd P opt path mode; m = c_str P mode
      in 0 \<le> sint (fst (pf_system P c w)) \<and> length m \<in> {3, 4} \<and>
         prefix m (cmd_text P (stat_cmd (c_str P path) m) SIZE_1K_HALF (snd (pf_system P c w))))"

definition mode_commands :: "'w platform \<Rightarrow> string \<Rightarrow> str16 \<Rightarrow> str16 \<Rightarrow> 'w \<Rightarrow> string list" where
  "mode_commands P opt path mode w =
     (let c = chmod_cmd P opt path mode; m = c_str P mode
      in c # (if 0 \<le> sint (fst (pf_system P c w)) \<and> length m \<in> {3, 4} then [stat_cmd (c_str P path) m] else []))"

lemma run_change_mode:
  "res_of (change_mode P opt path mode) s = mode_changed P opt path mode (world s)"
  "commands (trace (end_of (change_mode P opt path mode) s)) =
     commands (trace s) @ mode_commands P opt path mode (world s)"
  by (auto simp: change_mode_def run_mySystem_after chmod_buf(3) run_checkFileMode
      mode_changed_def mode_commands_def Let_def not_less)

text \<open>
  C27: \<open>chmodFile\<close> and \<open>chmodDir\<close> answer true exactly when the target passes their
  checks (an existing path that is no directory; a directory), \<open>chmod\<close> could be run and \<open>stat\<close>
  then shows a mode of three or four characters.  When a check fails no command is run; otherwise the shell
  receives mode and path as the client sent them, and a mode of another length is applied although the
  answer is false.
\<close>

lemma chmod_spec:
  "res_of (chmodFile P path mode) s =
     (mode \<noteq> to16 P [] \<and> pf_access P (c_str P path) (world s) \<and> \<not> fst (pf_opendir P (c_str P path) (world s)) \<and>
      mode_changed P [] path mode (snd (pf_opendir P (c_str P path) (world s)))) \<and>
   commands (trace (end_of (chmodFile P path mode) s)) = commands (trace s) @
     (if mode \<noteq> to16 P [] \<and> pf_access P (c_str P path) (world s) \<and> \<not> fst (pf_opendir P (c_str P path) (world s))
      then mode_commands P [] path mode (snd (pf_opendir P (c_str P path) (world s))) else []) \<and>
   res_of (chmodDir P path mode) s =
     (mode \<noteq> to16 P [] \<and> path \<noteq> to16 P [] \<and> fst (pf_opendir P (c_str P path) (world s)) \<and>
      mode_changed P ''-R '' path mode (snd (pf_opendir P (c_str P path) (world s)))) \<and>
   commands (trace (end_of (chmodDir P path mode) s)) = commands (trace s) @
     (if mode \<noteq> to16 P [] \<and> path \<noteq> to16 P [] \<and> fst (pf_opendir P (c_str P path) (world s))
      then mode_commands P ''-R '' path mode (snd (pf_opendir P (c_str P path) (world s))) else [])"
  by (simp add: chmodFile_alt chmodDir_alt access_def opendir_def run_change_mode)

section \<open>Removing a file\<close>

definition rm_line :: "'w platform \<Rightarrow> str16 \<Rightarrow> string" where
  "rm_line P path = take (SIZE_1K - 1) (''rm -f '' @ c_str P path)"

lemma rm_buf: "fmt_buf SIZE_1K (''rm -f '' @ c_str P path) = rm_line P path" "rm_line P path \<noteq> []"
  by (simp_all add: rm_line_def size_defs)

text \<open>
  \<open>rmFile\<close> runs its one command exactly for a non-empty path that exists and is no
  directory; the command removes what is left of the path after 1017 bytes, and the answer is true
  whatever the command's exit status is, as long as it could be run.
\<close>

lemma rmFile_spec:
  "run_state (rmFile P path) s =
     (if path \<noteq> to16 P [] \<and> pf_access P (c_str P path) (world s)
      then let s1 = s\<lparr>world := snd (pf_opendir P (c_str P path) (world s)),
                      trace := trace s @ [EOpendir (c_str P path) (fst (pf_opendir P (c_str P path) (world s)))]\<rparr>
        in if fst (pf_opendir P (c_str P path) (world s)) then (False, s1)
           else (0 \<le> sint (fst (pf_system P (rm_line P path) (world s1))), after_sys P (rm_line P path) s1)
      else (False, s))"
  unfolding rmFile_def rm_buf Let_def
  by (simp add: access_def opendir_def run_mySystem_after rm_buf(2) not_less Let_def)

section \<open>Packing the logs\<close>

text \<open>
  What packing should do, as a script: commands, tests of what exists, and the check of a mode,
  done one after the other until one fails.  Its meaning is on the world alone: whether all of it
  succeeded, the events, and the world it leaves.
\<close>

datatype log_step =
    Command string
  | Exists string
  | Directory string
  | Mode string string
  | Unless string "log_step list"  \<comment> \<open>done when the path does not exist\<close>
  | Sync

fun script :: "'w platform \<Rightarrow> log_step list \<Rightarrow> 'w \<Rightarrow> bool \<times> event list \<times> 'w"
  and stage :: "'w platform \<Rightarrow> log_step \<Rightarrow> 'w \<Rightarrow> bool \<times> event list \<times> 'w" where
  "script P [] w = (True, [], w)"
| "script P (a # as) w =
     (case stage P a w of (ok, es, w1) \<Rightarrow>
        if ok then (case script P as w1 of (ok2, es2, w2) \<Rightarrow> (ok2, es @ es2, w2)) else (False, es, w1))"
| "stage P (Command c) w = (0 \<le> sint (fst (pf_system P c w)), [ESystem c], snd (pf_system P c w))"
| "stage P (Exists p) w = (pf_access P p w, [], w)"
| "stage P (Directory p) w =
     (fst (pf_opendir P p w), [EOpendir p (fst (pf_opendir P p w))], snd (pf_opendir P p w))"
| "stage P (Mode p m) w =
     (prefix m (cmd_text P (stat_cmd p m) SIZE_1K_HALF w), cmd_events P (stat_cmd p m) w, snd (pf_popen P (stat_cmd p m) w))"
| "stage P (Unless p as) w = (if pf_access P p w then (True, [], w) else script P as w)"
| "stage P Sync w = (True, [ESync], w)"




text \<open>A routine that does what a script says.\<close>

definition plays :: "'w platform \<Rightarrow> ('w sys, bool) state \<Rightarrow> log_step list \<Rightarrow> bool" where
  "plays P m as \<longleftrightarrow> (\<forall>s. run_state m s =
     (case script P as (world s) of (ok, es, w) \<Rightarrow> (ok, s\<lparr>world := w, trace := trace s @ es\<rparr>)))"

lemma plays_True: "plays P (State_Monad.return True) []"
  by (simp add: plays_def)














end
