(* ===== verification/DeviceProps.thy ===== *)
theory DeviceProps
  imports ProductDevice CmdFacts CoreProps
begin

text \<open>
  What the device operations promise: which calls have an effect at all, the bytes a resolution
  is stored as, the list of resolutions that is printed.
\<close>

section \<open>Power mode and LEDs\<close>

lemma length_show_dec_small: "0 \<le> i \<Longrightarrow> i < 10 \<Longrightarrow> length (show_dec i) = 1"
  by (simp add: show_dec_def show_base.simps)

lemma led_bufs:
  "0 \<le> sint color \<Longrightarrow> sint color \<le> 2 \<Longrightarrow> fmt_buf 128 (get_led_line color) = get_led_line color"
  "0 \<le> sint color \<Longrightarrow> sint color \<le> 2 \<Longrightarrow> 0 \<le> sint st \<Longrightarrow> sint st \<le> 1 \<Longrightarrow>
     fmt_buf 128 (set_led_line color st) = set_led_line color st"
  "0 \<le> sint st \<Longrightarrow> sint st \<le> 1 \<Longrightarrow>
     fmt_buf 128 (''beginmode '' @ show_dec (sint st)) = ''beginmode '' @ show_dec (sint st)"
  using length_show_dec_small [of "sint color"] length_show_dec_small [of "sint st"]
  by (simp_all add: get_led_line_def set_led_line_def sq_def)

lemma led_lines_nonempty [simp]: "get_led_line c \<noteq> []" "set_led_line c x \<noteq> []"
  by (simp_all add: get_led_line_def set_led_line_def)

text \<open>
  The LEDs are set only on a \<open>Rain200S\<close>, for colors 0 to 2 and states 0 and 1, and the power
  mode only to 0 or 1 on a board that is not one of the \<open>Rain100\<close> family; then exactly one command
  with those numbers runs, and otherwise the call leaves the machine as it is.
\<close>

lemma set_calls_gated:
  "end_of (setLedStatus P color st) s =
     (if 0 \<le> sint color \<and> sint color \<le> 2 \<and> 0 \<le> sint st \<and> sint st \<le> 1 \<and> mProductType s = to16 P ''Rain200S''
      then after_sys P (set_led_line color st) s else s) \<and>
   end_of (setPowerState P st) s =
     (if 0 \<le> sint st \<and> sint st \<le> 1 \<and> \<not> no_power_mode P (mProductType s)
      then after_sys P (''beginmode '' @ show_dec (sint st)) s else s)"
proof
  show "end_of (setLedStatus P color st) s =
     (if 0 \<le> sint color \<and> sint color \<le> 2 \<and> 0 \<le> sint st \<and> sint st \<le> 1 \<and> mProductType s = to16 P ''Rain200S''
      then after_sys P (set_led_line color st) s else s)"
    by (auto simp: setLedStatus_def Let_def led_bufs run_mySystem_after not_less)
  show "end_of (setPowerState P st) s =
     (if 0 \<le> sint st \<and> sint st \<le> 1 \<and> \<not> no_power_mode P (mProductType s)
      then after_sys P (''beginmode '' @ show_dec (sint st)) s else s)"
    using led_bufs(3) [of st] by (auto simp: setPowerState_def Let_def run_mySystem_after not_less)
qed

text \<open>The digit the output starts with: \<open>-1\<close> below \<open>'0'\<close>, NUL for no output included.\<close>

lemma first_digit_value:
  "sint (first_digit P buf) =
     (if char_val (char_signed P) (buf ! 0) < 48 then - 1 else char_val (char_signed P) (buf ! 0) - 48)"
proof -
  have w: "sint (word_of_int v :: cint) = v" if "- 128 \<le> v" "v < 256" for v
  proof -
    have "signed_take_bit 31 v = v" using that by (intro signed_take_bit_int_eq_self) simp_all
    then show ?thesis by (simp only: signed_of_int) simp
  qed
  then show ?thesis
    using char_val_bounds(1,2) [of "char_signed P" "buf ! 0"]
      w [of "char_val (char_signed P) (buf ! 0) - 48"] by (simp add: first_digit_def)
qed

definition status_of :: "string \<Rightarrow> int" where
  "status_of t = (if t = [] then - 1 else if char_val False (t ! 0) < 48 then - 1 else char_val False (t ! 0) - 48)"

lemma first_digit_cmd:
  assumes "0 < n" "\<not> char_signed P"
  shows "sint (first_digit P (cmd_buf P c n w)) = status_of (cmd_text P c n w)"
proof -
  have "char_val False NUL = 0" by (simp add: char_val_def)
  then show ?thesis
    using assms cmd_buf_first [OF assms(1), of P c w]
    by (auto simp: first_digit_value status_of_def)
qed

text \<open>
  Where \<open>char\<close> is unsigned, \<open>getLedStatus\<close> and \<open>getPowerState\<close> answer the distance of
  the first character of the output from \<open>'0'\<close>, with \<open>-1\<close> for no output or a character below
  it, and \<open>-1\<close> and \<open>0\<close> without running anything when the board or the color has no such
  function.  Nothing bounds the answer by the states that exist: it is at most 207.
\<close>

lemma get_calls_value:
  assumes "\<not> char_signed P"
  shows "sint (res_of (getLedStatus P color) s) =
     (if 0 \<le> sint color \<and> sint color \<le> 2 \<and> mProductType s = to16 P ''Rain200S''
      then status_of (cmd_text P (get_led_line color) 128 (world s)) else - 1) \<and>
   sint (res_of (getPowerState P) s) =
     (if no_power_mode P (mProductType s) then 0
      else status_of (cmd_text P ''beginmode 2'' SIZE_1K (world s))) \<and>
   status_of t \<in> {- 1..207}"
proof (intro conjI)
  show "sint (res_of (getLedStatus P color) s) =
     (if 0 \<le> sint color \<and> sint color \<le> 2 \<and> mProductType s = to16 P ''Rain200S''
      then status_of (cmd_text P (get_led_line color) 128 (world s)) else - 1)"
    using assms by (auto simp: getLedStatus_def Let_def led_bufs run_executeCmd not_less first_digit_cmd)
  show "sint (res_of (getPowerState P) s) =
     (if no_power_mode P (mProductType s) then 0
      else status_of (cmd_text P ''beginmode 2'' SIZE_1K (world s)))"
    using assms by (simp add: getPowerState_def run_executeCmd first_digit_cmd SIZE_1K_pos)
  show "status_of t \<in> {- 1..207}"
    using char_val_bounds(2) [of False "t ! 0"] by (auto simp: status_of_def)
qed

lemma get_calls_value_witness:
  "sint (res_of (getLedStatus (bench False 32) 1) (bench_state [])) =
     (if 0 \<le> sint (1 :: cint) \<and> sint (1 :: cint) \<le> 2 \<and> mProductType (bench_state []) = to16 (bench False 32) ''Rain200S''
      then status_of (cmd_text (bench False 32) (get_led_line 1) 128 (world (bench_state []))) else - 1) \<and>
   sint (res_of (getPowerState (bench False 32)) (bench_state [])) =
     (if no_power_mode (bench False 32) (mProductType (bench_state [])) then 0
      else status_of (cmd_text (bench False 32) ''beginmode 2'' SIZE_1K (world (bench_state [])))) \<and>
   status_of ''1'' \<in> {- 1..207}"
  by (rule get_calls_value) simp

section \<open>Storing a resolution\<close>

definition resolution_ok :: "cint \<Rightarrow> cint \<Rightarrow> cint \<Rightarrow> cint \<Rightarrow> bool" where
  "resolution_ok xres yres refresh flag \<longleftrightarrow>
     0 \<le> sint refresh \<and> sint refresh \<le> 100 \<and> 0 \<le> sint flag \<and> sint flag \<le> 1 \<and>
     800 \<le> sint xres \<and> sint xres \<le> 2560 \<and> 600 \<le> sint yres \<and> sint yres \<le> 1600"

text \<open>
  \<open>setDeviceResolution\<close> touches nothing unless the rate is in 0 to 100, the flag 0 or 1, the width in
  800 to 2560 and the height in 600 to 1600; then it opens the device, reads the sector, stores it and reads it
  again, in this order, stops at the first failure, closes the device whenever it was opened, and answers
  true exactly when all of it was done.
\<close>

lemma setDeviceResolution_steps:
  "if \<not> resolution_ok xres yres refresh flag
   then run_state (setDeviceResolution P xres yres refresh flag) s = (False, s)
   else \<exists>es. trace (end_of (setDeviceResolution P xres yres refresh flag) s) = trace s @ es \<and>
     (if res_of (setDeviceResolution P xres yres refresh flag) s
      then es = [EOpen RKNAND_DEVICE True, EGetSector, EStoreSector, EGetSector, EClose]
      else es = [EOpen RKNAND_DEVICE False] \<or>
        (\<exists>k \<in> {1..3}. es = EOpen RKNAND_DEVICE True # take k [EGetSector, EStoreSector, EGetSector] @ [EClose]))"
proof (cases "resolution_ok xres yres refresh flag")
  case False
  then show ?thesis by (auto simp: setDeviceResolution_def resolution_ok_def not_le not_less)
next
  case True
  have k: "(\<exists>k \<in> {1..3}. Q k) \<longleftrightarrow> Q 1 \<or> Q 2 \<or> Q (3 :: nat)" for Q
    by (auto simp: atLeastAtMost_iff le_Suc_eq numeral_eq_Suc)
  show ?thesis
    using True unfolding if_not_P [OF not_not [THEN iffD2, OF True]] k
    by (simp add: setDeviceResolution_def resolution_ok_def ioctl_def case_prod_beta Let_def)
qed

text \<open>The fields of the sector read back: flag byte, width, height, rate.\<close>

definition short_at :: "nat \<Rightarrow> 8 word list \<Rightarrow> nat" where
  "short_at i d = unat (d ! i) + 256 * unat (d ! Suc i)"

lemma short_bytes: "unat (ucast v :: 8 word) + 256 * unat (ucast (drop_bit 8 v :: 16 word) :: 8 word) = unat v"
  for v :: "16 word"
proof -
  have "unat (ucast v :: 8 word) = unat v mod 256"
    by (simp add: unsigned_ucast_eq take_bit_eq_mod)
  moreover have "unat (drop_bit 8 v) = unat v div 256"
    by (simp add: drop_bit_eq_div unat_div)
  moreover have "unat (ucast (drop_bit 8 v) :: 8 word) = unat (drop_bit 8 v) mod 256"
    by (simp add: unsigned_ucast_eq take_bit_eq_mod)
  moreover have "unat v < 65536" using unsigned_less [of v, where 'a = nat] by simp
  ultimately show ?thesis by simp
qed

lemma unat_ucast_small: "0 \<le> sint v \<Longrightarrow> sint v < 65536 \<Longrightarrow> unat (ucast v :: 16 word) = nat (sint v)"
  for v :: cint
proof -
  assume v: "0 \<le> sint v" "sint v < 65536"
  have "uint v = sint v"
    using v uint_sint [of v] by (simp add: take_bit_int_eq_self)
  moreover have "unat (ucast v :: 16 word) = unat v mod 65536"
    by (simp add: unsigned_ucast_eq take_bit_eq_mod)
  moreover have "int (unat v) = uint v" by simp
  moreover have "unat v = nat (uint v)" by simp
  ultimately show "unat (ucast v :: 16 word) = nat (sint v)" using v by simp
qed

lemma unat_ucast_byte: "0 \<le> sint v \<Longrightarrow> sint v < 256 \<Longrightarrow> unat (ucast v :: 8 word) = nat (sint v)"
  for v :: cint
proof -
  assume v: "0 \<le> sint v" "sint v < 256"
  have "uint v = sint v" using v uint_sint [of v] by (simp add: take_bit_int_eq_self)
  moreover have "unat (ucast v :: 8 word) = unat v mod 256"
    by (simp add: unsigned_ucast_eq take_bit_eq_mod)
  moreover have "int (unat v) = uint v" by simp
  moreover have "unat v = nat (uint v)" by simp
  ultimately show "unat (ucast v :: 8 word) = nat (sint v)" using v by simp
qed

lemma short_at_put:
  assumes "Suc i < length d" "0 \<le> sint v" "sint v < 65536"
  shows "short_at i (put_short i v d) = nat (sint v)"
proof -
  have "(ucast (ucast v :: 16 word) :: 8 word) = ucast v"
    by (rule bit_word_eqI) (auto simp: bit_simps)
  then show ?thesis
    using assms short_bytes [of "ucast v"] unat_ucast_small [of v]
    by (simp add: short_at_def put_short_def)
qed

lemma put_short_frame:
  "length (put_short i v d) = length d"
  "k \<noteq> i \<Longrightarrow> k \<noteq> Suc i \<Longrightarrow> put_short i v d ! k = d ! k"
  by (simp_all add: put_short_def)

definition sector_shows :: "cint \<Rightarrow> cint \<Rightarrow> cint \<Rightarrow> 8 word list \<Rightarrow> bool" where
  "sector_shows xres yres refresh d \<longleftrightarrow>
     d ! 1 = 0xAC \<and> short_at 2 d = nat (sint xres) \<and> short_at 4 d = nat (sint yres) \<and>
     unat (d ! 6) = nat (sint refresh)"

lemma put_resolution_fields:
  assumes "resolution_ok xres yres refresh flag" "7 \<le> length d"
  shows "length (put_resolution xres yres refresh flag d) = length d"
    "i \<notin> {1..6} \<Longrightarrow> put_resolution xres yres refresh flag d ! i = d ! i"
    "flag \<noteq> 0 \<Longrightarrow> sector_shows xres yres refresh (put_resolution xres yres refresh flag d)"
    "flag = 0 \<Longrightarrow> put_resolution xres yres refresh flag d = d[1 := 0]"
proof -
  let ?d1 = "d[1 := ucast flag, 1 := 0xAC]"
  let ?d2 = "put_short 2 xres ?d1"
  let ?d3 = "put_short 4 yres ?d2"
  have r: "put_resolution xres yres refresh flag d = ?d3[6 := ucast refresh]" if "flag \<noteq> 0"
    using that by (simp add: put_resolution_def Let_def)
  have z: "put_resolution xres yres refresh flag d = d[1 := 0]" if "flag = 0"
    using that by (simp add: put_resolution_def Let_def)
  then show "flag = 0 \<Longrightarrow> put_resolution xres yres refresh flag d = d[1 := 0]" .
  show "length (put_resolution xres yres refresh flag d) = length d"
    using r z by (cases "flag = 0") (simp_all add: put_short_frame)
  show "put_resolution xres yres refresh flag d ! i = d ! i" if "i \<notin> {1..6}"
    using r z that by (cases "flag = 0") (auto simp: put_short_frame nth_list_update)
  show "sector_shows xres yres refresh (put_resolution xres yres refresh flag d)" if "flag \<noteq> 0"
  proof -
    have ok: "0 \<le> sint xres" "sint xres < 65536" "0 \<le> sint yres" "sint yres < 65536"
      "0 \<le> sint refresh" "sint refresh < 256" using assms(1) by (simp_all add: resolution_ok_def)
    have x: "short_at 2 (?d3[6 := ucast refresh]) = short_at 2 ?d2"
      by (simp add: short_at_def put_short_frame)
    have y: "short_at 4 (?d3[6 := ucast refresh]) = short_at 4 ?d3"
      by (simp add: short_at_def)
    have f: "?d3[6 := ucast refresh] ! 1 = 0xAC" using assms(2) by (simp add: put_short_frame)
    have h: "?d3[6 := ucast refresh] ! 6 = ucast refresh" using assms(2) by (simp add: put_short_frame)
    show ?thesis
      unfolding r [OF that] sector_shows_def x y f h
      using ok assms(2) by (simp add: short_at_put put_short_frame unat_ucast_byte)
  qed
qed

text \<open>
  C6: On a device whose requests succeed and give back what was stored, \<open>setDeviceResolution\<close> with the flag
  set leaves a sector from which the same width, height and rate are read, little-endian behind the byte
  \<open>0xAC\<close>; without the flag it clears that byte only; all other bytes of the sector stay.
\<close>

lemma setDeviceResolution_roundtrip:
  assumes "resolution_ok xres yres refresh flag" "0 \<le> sint (pf_open P RKNAND_DEVICE (world s))"
    "\<And>sd w. pf_ioctl P GET_VENDOR_SECTOR0 sd w = (0, sd\<lparr>vs_data := sector w\<rparr>, w)"
    "\<And>sd w. pf_ioctl P STORE_VENDOR_SECTOR0 sd w = (0, sd, store (vs_data sd) w)"
    "\<And>d w. sector (store d w) = d" "length (sector (world s)) = RKNAND_SYS_STORGAE_DATA_LEN"
    "d' = sector (world (end_of (setDeviceResolution P xres yres refresh flag) s))"
  shows "res_of (setDeviceResolution P xres yres refresh flag) s \<and>
    length d' = RKNAND_SYS_STORGAE_DATA_LEN \<and>
    (if flag = 0 then d' = (sector (world s))[1 := 0] else sector_shows xres yres refresh d') \<and>
    (\<forall>i. i \<notin> {1..6} \<longrightarrow> d' ! i = sector (world s) ! i)"
proof -
  let ?d = "sector (world s)"
  have len: "7 \<le> length ?d" using assms(6) by (simp add: RKNAND_SYS_STORGAE_DATA_LEN_def)
  have run: "run_state (setDeviceResolution P xres yres refresh flag) s =
      (True, s\<lparr>world := store (put_resolution xres yres refresh flag ?d) (world s),
        trace := trace s @ [EOpen RKNAND_DEVICE True, EGetSector, EStoreSector, EGetSector, EClose]\<rparr>)"
    using assms(1,2)
    by (simp add: setDeviceResolution_def resolution_ok_def ioctl_def Let_def stamp_sector_def assms(3,4))
  have d': "d' = put_resolution xres yres refresh flag ?d" by (simp add: assms(7) run assms(5))
  have res: "res_of (setDeviceResolution P xres yres refresh flag) s" by (simp add: run)
  show ?thesis
    using put_resolution_fields [OF assms(1) len] assms(6) res unfolding d' by auto
qed

text \<open>A device whose world is its sector.\<close>

definition sector_bench :: "8 word list platform" where
  "sector_bench = \<lparr>
     char_signed = False, long_bits = 32, prop_max = 92, to16 = map (\<lambda>c. of_char c), to8 = \<lambda>x. [],
     inet_pton4 = \<lambda>s. False, inet_pton6 = \<lambda>s. False, pf_popen = \<lambda>c w. (None, w),
     pf_system = \<lambda>c w. (0, w), pf_access = \<lambda>p w. False, pf_opendir = \<lambda>p w. (False, w),
     pf_fopen = \<lambda>p m w. None, pf_getprop = \<lambda>k w. [], pf_statfs = \<lambda>p w. None, pf_open = \<lambda>p w. 3,
     pf_ioctl = (\<lambda>req sd w. case req of GET_VENDOR_SECTOR0 \<Rightarrow> (0, sd\<lparr>vs_data := w\<rparr>, w)
                                      | STORE_VENDOR_SECTOR0 \<Rightarrow> (0, sd, vs_data sd)),
     pf_stack = \<lparr>vs_tag = 0, vs_len = 0, vs_data = replicate 512 0\<rparr>, pf_time = \<lambda>w. (0, w) \<rparr>"

definition sector_state :: "8 word list \<Rightarrow> 8 word list sys" where
  "sector_state w = \<lparr>
     world = w, trace = [], sigchld = SIG_DFL, overrun = False, mInit = True,
     mSerialNum = [], mProductType = [], mHardwareVersion = [], mProductId = [] \<rparr>"

lemma setDeviceResolution_roundtrip_witness:
  "let s = sector_state (replicate 512 7); m = setDeviceResolution sector_bench 1920 1080 60 1;
       d' = id (world (end_of m s))
   in res_of m s \<and> length d' = RKNAND_SYS_STORGAE_DATA_LEN \<and>
      (if (1 :: cint) = 0 then d' = (id (world s))[1 := 0] else sector_shows 1920 1080 60 d') \<and>
      (\<forall>i. i \<notin> {1..6} \<longrightarrow> d' ! i = id (world s) ! i)"
  unfolding Let_def
  by (rule setDeviceResolution_roundtrip [where store = "\<lambda>d w. d"])
    (simp_all add: resolution_ok_def sector_bench_def sector_state_def RKNAND_SYS_STORGAE_DATA_LEN_def)

section \<open>Listing the resolutions\<close>

text \<open>Whether mode \<open>i\<close> is announced by the first two bytes of the file.\<close>

definition announced :: "bool \<Rightarrow> string \<Rightarrow> nat \<Rightarrow> bool" where
  "announced sg c i \<longleftrightarrow> (8 \<le> i \<and> bit (char_val sg (c ! 1)) (i - 8)) \<or> bit (char_val sg (c ! 0)) i"

definition mode_entry :: "nat \<Rightarrow> string" where
  "mode_entry i = ''{'' @ resolutionIndex ! i @ ''},''"

definition mode_list :: "(nat \<Rightarrow> bool) \<Rightarrow> nat list \<Rightarrow> string" where
  "mode_list A ks = concat (map (\<lambda>i. if A i then mode_entry i else []) ks)"

lemma support_mask_bit:
  assumes "i < 10"
  shows "support_mask P buf AND push_bit i 1 \<noteq> 0 \<longleftrightarrow> announced (char_signed P) buf i"
proof -
  have "support_mask P buf AND push_bit i 1 \<noteq> 0 \<longleftrightarrow> bit (support_mask P buf) i"
    using assms bit_iff_and_push_bit_not_eq_0 by blast
  also have "\<dots> \<longleftrightarrow> announced (char_signed P) buf i"
  proof -
    have "(0x3FF :: cint) = mask 10" by (simp add: mask_eq_exp_minus_1)
    then have "bit (0x3FF :: cint) i" unfolding bit_mask_iff using assms by (simp only: bit_mask_iff) simp
    then show ?thesis
      using assms
      by (auto simp: support_mask_def announced_def Let_def bit_and_iff bit_or_iff
          bit_push_bit_iff bit_word_of_int_iff)
  qed
  finally show ?thesis .
qed

lemma mode_entry_facts:
  assumes "i \<in> {1..<10}"
  shows "no_nul (mode_entry i)" "length (mode_entry i) \<le> 12" "last (mode_entry i) = CHR '',''" "mode_entry i \<noteq> []"
proof -
  have "i = 1 \<or> i = 2 \<or> i = 3 \<or> i = 4 \<or> i = 5 \<or> i = 6 \<or> i = 7 \<or> i = 8 \<or> i = 9"
    using assms by auto
  then show "no_nul (mode_entry i)" "length (mode_entry i) \<le> 12"
    "last (mode_entry i) = CHR '',''" "mode_entry i \<noteq> []"
    by (elim disjE; simp add: mode_entry_def resolutionIndex_def)+
qed

lemma support_rounds:
  assumes "\<forall>i \<in> set ks. i \<in> {1..<10}" "length res = n" "length (cstr res) + 12 * length ks < n"
  shows "cstr (foldl (support_round m) res ks) =
      cstr res @ mode_list (\<lambda>i. m AND push_bit i 1 \<noteq> 0) ks \<and>
    length (foldl (support_round m) res ks) = n"
  using assms
proof (induction ks arbitrary: res)
  case Nil
  then show ?case by (simp add: mode_list_def)
next
  case (Cons i ks)
  have i: "i \<in> {1..<10}" using Cons.prems(1) by simp
  have buf: "fmt_buf 128 (''{'' @ resolutionIndex ! i @ ''},'') = mode_entry i"
    using mode_entry_facts [OF i] unfolding mode_entry_def by simp
  let ?res = "support_round m res i"
  have r: "?res = (if m AND push_bit i 1 \<noteq> 0 then strcat res (mode_entry i) else res)"
    unfolding support_round_def buf ..
  have c: "cstr ?res = cstr res @ (if m AND push_bit i 1 \<noteq> 0 then mode_entry i else [])"
    using mode_entry_facts(1) [OF i] by (simp add: r)
  have l: "length ?res = n"
    using Cons.prems mode_entry_facts(2) [OF i] by (simp add: r length_strcat)
  have "length (cstr ?res) + 12 * length ks < n"
    using Cons.prems(3) mode_entry_facts(2) [OF i] by (simp add: c)
  then have "cstr (foldl (support_round m) ?res ks) = cstr ?res @ mode_list (\<lambda>i. m AND push_bit i 1 \<noteq> 0) ks \<and>
      length (foldl (support_round m) ?res ks) = n"
    using Cons.prems(1) l by (intro Cons.IH) simp_all
  then show ?case using c by (simp add: mode_list_def)
qed

lemma last_mode_list: "mode_list A ks \<noteq> [] \<Longrightarrow> \<forall>k \<in> set ks. k \<in> {1..<10} \<Longrightarrow> last (mode_list A ks) = CHR '',''"
proof (induction ks)
  case Nil
  then show ?case by (simp add: mode_list_def)
next
  case (Cons k ks)
  have split: "mode_list A (k # ks) = (if A k then mode_entry k else []) @ mode_list A ks"
    by (simp add: mode_list_def)
  show ?case
  proof (cases "mode_list A ks = []")
    case True
    then show ?thesis
      using Cons.prems mode_entry_facts(3) [of k] unfolding split by (auto split: if_splits)
  next
    case False
    then show ?thesis using Cons unfolding split by simp
  qed
qed

lemma cstr_drop_comma:
  assumes "cstr buf = mode_list A ks" "\<forall>k \<in> set ks. k \<in> {1..<10}"
  shows "cstr (drop_comma buf) = butlast (mode_list A ks)"
proof (cases "cstr buf = []")
  case True
  then show ?thesis using assms(1) by (simp add: drop_comma_def)
next
  case False
  then show ?thesis
    using cstr_last(1,2) [of buf] last_mode_list [of A ks] assms by (simp add: drop_comma_def Let_def)
qed

text \<open>The loop over the modes writes the announced ones.\<close>

lemma support_list:
  fixes P :: "'w platform" and c :: string
  defines "res \<equiv> foldl (support_round (support_mask P (take 4 c))) (zeroed SIZE_1K) [1..<MAX_RESOLUTION_SUPPORT]"
  shows "cstr res = mode_list (announced (char_signed P) c) [1..<10]" "length res = SIZE_1K"
proof -
  let ?m = "support_mask P (take 4 c)" and ?A = "announced (char_signed P) c"
  have r: "cstr res = mode_list (\<lambda>i. ?m AND push_bit i 1 \<noteq> 0) [1..<10] \<and> length res = SIZE_1K"
    using support_rounds [of "[1..<10]" "zeroed SIZE_1K" SIZE_1K ?m]
    by (simp add: res_def MAX_RESOLUTION_SUPPORT_def size_defs)
  have "(?m AND push_bit i 1 \<noteq> 0) = ?A i" if "i \<in> set [1..<10]" for i
    using that support_mask_bit [of i P "take 4 c"] by (simp add: announced_def)
  then have "mode_list (\<lambda>i. ?m AND push_bit i 1 \<noteq> 0) [1..<10] = mode_list ?A [1..<10]"
    unfolding mode_list_def by (intro arg_cong [of _ _ concat] map_cong) auto
  with r show "cstr res = mode_list ?A [1..<10]" "length res = SIZE_1K" by simp_all
qed

lemma getSupportResolution_list:
  "let s' = end_of (getSupportResolution P) s in
   res_of (getSupportResolution P) s = to16 P
     (case pf_fopen P LCDINFO_PATH ''rb'' (world s) of
        None \<Rightarrow> []
      | Some (c, sk) \<Rightarrow> if length c < 4 then []
          else butlast (mode_list (announced (char_signed P) c) [1..<10])) \<and>
   overrun s' = overrun s \<and> held HFile (trace s') = held HFile (trace s)"
proof (cases "pf_fopen P LCDINFO_PATH ''rb'' (world s)")
  case None
  then show ?thesis by (simp add: getSupportResolution_def run_fopen_None)
next
  case (Some csk)
  obtain c sk where csk: "csk = (c, sk)" by (cases csk)
  show ?thesis
  proof (cases "length c < 4")
    case True
    with Some csk show ?thesis
      by (simp add: getSupportResolution_def run_fopen_Some fread_def RESOLUTION_INFO_LEN_def)
  next
    case False
    let ?buf = "take 4 c"
    let ?m = "support_mask P ?buf"
    let ?res = "foldl (support_round ?m) (zeroed SIZE_1K) [1..<MAX_RESOLUTION_SUPPORT]"
    let ?A = "announced (char_signed P) c"
    have p: "poke 0 (take RESOLUTION_INFO_LEN c) (zeroed RESOLUTION_INFO_LEN) = ?buf"
      using False by (simp add: poke_def RESOLUTION_INFO_LEN_def zeroed_def)
    note c = support_list [of P c]
    have d: "cstr (drop_comma ?res) = butlast (mode_list ?A [1..<10])"
      by (rule cstr_drop_comma [OF c(1)]) simp
    have "run_state (getSupportResolution P) s =
        (to16 P (butlast (mode_list ?A [1..<10])),
         s\<lparr>trace := trace s @ [EFopen LCDINFO_PATH True, EFclose], overrun := overrun s\<rparr>)"
      using Some csk False c(2) d
      by (simp add: getSupportResolution_def run_fopen_Some fread_def Let_def p
          del: upt_rec_numeral flip: One_nat_def) (simp add: RESOLUTION_INFO_LEN_def)
    with Some csk False show ?thesis by simp
  qed
qed

text \<open>
  C29: From a file of at least four bytes \<open>getSupportResolution\<close> prints, in braces and separated by commas,
  exactly the modes 1 to 9 whose bits the first two bytes announce, never \<open>800x600\<close>, stays inside
  its array, and closes the file; from a shorter file or none it answers the empty string.
\<close>

lemma getSupportResolution_spec:
  "let s' = end_of (getSupportResolution P) s in
   res_of (getSupportResolution P) s = to16 P
     (case pf_fopen P LCDINFO_PATH ''rb'' (world s) of
        None \<Rightarrow> []
      | Some (c, sk) \<Rightarrow> if length c < 4 then []
          else butlast (mode_list (announced (char_signed P) c) [1..<10])) \<and>
   overrun s' = overrun s \<and> held HFile (trace s') = held HFile (trace s)"
  by (rule getSupportResolution_list)

text \<open>
  Where \<open>char\<close> is signed, a first byte of 128 or more announces modes 8 and 9 whatever the second
  byte says: the list always ends in \<open>1680x1050\<close> and \<open>1920x1080\<close>.
\<close>

lemma getSupportResolution_signed:
  assumes "char_signed P" "pf_fopen P LCDINFO_PATH ''rb'' (world s) = Some (c, sk)" "4 \<le> length c"
    "128 \<le> (of_char (c ! 0) :: int)"
  shows "\<exists>t. res_of (getSupportResolution P) s = to16 P (t @ ''{1680x1050},{1920x1080}'')"
proof -
  let ?A = "announced True c"
  have v: "- 128 \<le> char_val True (c ! 0)" "char_val True (c ! 0) < 0"
    using assms(4) of_char_bounds [of "c ! 0"] char_val_bounds(1) [of True "c ! 0"]
    by (simp_all add: char_val_def)
  have A: "?A 8" "?A 9"
    using bit_negative_byte [OF v, of 8] bit_negative_byte [OF v, of 9] by (simp_all add: announced_def)
  have "[1..<10] = [1..<8] @ [8, 9 :: nat]" by (simp add: upt_rec)
  then have "mode_list ?A [1..<10] = mode_list ?A [1..<8] @ mode_entry 8 @ mode_entry 9"
    using A by (simp add: mode_list_def)
  also have "\<dots> = (mode_list ?A [1..<8] @ ''{1680x1050},{1920x1080}'') @ '',''"
    by (simp add: mode_entry_def resolutionIndex_def)
  finally have "butlast (mode_list ?A [1..<10]) = mode_list ?A [1..<8] @ ''{1680x1050},{1920x1080}''"
    by (simp only: butlast_snoc)
  moreover have "res_of (getSupportResolution P) s = to16 P (butlast (mode_list ?A [1..<10]))"
    using getSupportResolution_list [of P s] assms(1-3) by (simp add: Let_def)
  ultimately show ?thesis by auto
qed

lemma getSupportResolution_signed_witness:
  "\<exists>t. res_of (getSupportResolution (bench True 32)) (bench_state [(LCDINFO_PATH, [CHR 0x84, NUL, NUL, NUL])]) =
     to16 (bench True 32) (t @ ''{1680x1050},{1920x1080}'')"
  by (rule getSupportResolution_signed [where c = "[CHR 0x84, NUL, NUL, NUL]" and sk = True]) simp_all

end
