(* ===== verification/CmdLoop.thy ===== *)
theory CmdLoop
  imports CoreService
begin

text \<open>
  The two loops that read the output of a command, round by round: that of \<open>executeCmd\<close>
  (\<open>librjcoreservice/RjcoreService.cpp\<close>), and the same loop without its test for an empty chunk.  A loop
  body either goes on with the next state (\<open>Inl\<close>) or leaves the loop with a result (\<open>Inr\<close>).
\<close>

section \<open>Loops as rounds\<close>

fun rounds :: "('s \<Rightarrow> 's + 'a) \<Rightarrow> nat \<Rightarrow> 's \<Rightarrow> 'a option" where
  "rounds body 0 s = None"
| "rounds body (Suc k) s = (case body s of Inl s' \<Rightarrow> rounds body k s' | Inr r \<Rightarrow> Some r)"

text \<open>
  A variant bounds the number of rounds; an invariant under which the body never leaves the loop
  shows that no number is enough.
\<close>

lemma rounds_variant:
  assumes "\<And>s s'. body s = Inl s' \<Longrightarrow> f s' < (f s :: nat) \<and> g s' = g s" "\<And>s r. body s = Inr r \<Longrightarrow> g s = r"
    "f s < k"
  shows "rounds body k s = Some (g s)"
  using assms(3)
proof (induction k arbitrary: s)
  case (Suc k)
  show ?case
  proof (cases "body s")
    case (Inl s')
    with assms(1) Suc.prems have "f s' < k" "g s' = g s" by fastforce+
    with Suc.IH Inl show ?thesis by simp
  qed (simp add: assms(2))
qed simp

lemma rounds_forever:
  assumes "\<And>s. J s \<Longrightarrow> \<exists>s'. body s = Inl s' \<and> J s'" "J s"
  shows "rounds body k s = None"
  using assms(2)
proof (induction k arbitrary: s)
  case (Suc k)
  with assms(1) obtain s' where "body s = Inl s'" "J s'" by blast
  with Suc.IH show ?case by simp
qed simp

section \<open>The loop of executeCmd\<close>

text \<open>Its state: the bytes left, the output not yet read, the position and the array.\<close>

type_synonym fill_state = "nat \<times> string \<times> nat \<times> cbuf"

fun fill_round :: "fill_state \<Rightarrow> fill_state + cbuf" where
  "fill_round (n, out, pos, buf) =
     (case fgets n out of
        None \<Rightarrow> Inr buf
      | Some (chunk, rest) \<Rightarrow>
          (let buf' = poke pos (chunk @ [NUL]) buf;
               len = length (cstr (drop pos buf'))
           in if len = 0 then Inr buf' else Inl (n - len, rest, pos + len, buf')))"

fun fill_round_untested :: "fill_state \<Rightarrow> fill_state + cbuf" where
  "fill_round_untested (n, out, pos, buf) =
     (case fgets n out of
        None \<Rightarrow> Inr buf
      | Some (chunk, rest) \<Rightarrow>
          (let buf' = poke pos (chunk @ [NUL]) buf;
               len = length (cstr (drop pos buf'))
           in Inl (n - len, rest, pos + len, buf')))"

text \<open>The bytes left get fewer in every round that goes on, and what \<open>fill\<close> gives stays the same.\<close>

lemma fill_round_next:
  assumes "fill_round (n, out, pos, buf) = Inl (n', out', pos', buf')"
  shows "n' < n \<and> fill n' out' pos' buf' = fill n out pos buf"
proof -
  obtain chunk rest where get: "fgets n out = Some (chunk, rest)" using assms by (auto split: option.splits)
  then have "0 < n" by (cases n) (simp_all add: fgets_def)
  with get assms show ?thesis
    by (subst (2) fill.simps) (auto simp: Let_def split: if_splits)
qed

lemma fill_round_end: "fill_round (n, out, pos, buf) = Inr r \<Longrightarrow> fill n out pos buf = r"
  by (subst fill.simps) (auto simp: Let_def split: option.splits if_splits prod.splits)

text \<open>What keeps the untested loop going: at least as much output as there is room, in an array that has the room.\<close>

fun room_used_up :: "fill_state \<Rightarrow> bool" where
  "room_used_up (n, out, pos, buf) \<longleftrightarrow> 0 < n \<and> n \<le> Suc (length out) \<and> no_nul out \<and> pos + n \<le> length buf"

lemma untested_goes_on:
  assumes "room_used_up s"
  shows "\<exists>s'. fill_round_untested s = Inl s' \<and> room_used_up s'"
proof -
  obtain n out pos buf where s: "s = (n, out, pos, buf)" by (cases s)
  have "fgets n out \<noteq> None" using assms s by (auto simp: fgets_None)
  then obtain chunk rest where get: "fgets n out = Some (chunk, rest)" by auto
  note chunk = fgets_SomeD [OF get]
  have nn: "no_nul chunk" "no_nul rest" using assms s chunk(1) by simp_all
  have "cstr (drop pos (poke pos (chunk @ [NUL]) buf)) = chunk"
    using assms s nn(1) by (simp add: drop_poke)
  then show ?thesis using assms s get chunk(1,2) nn by (auto simp: Let_def)
qed

section \<open>The property\<close>

text \<open>
  C28: The loop of \<open>executeCmd\<close> ends after at most one round per byte of the array and one more, whatever the
  command writes, and leaves what \<open>fill\<close> leaves.  It is the test for an empty chunk that ends it: without the test
  every output that does not fit would keep it running for ever, since \<open>fgets\<close> with room for one byte
  gives an empty string again and again.
\<close>

lemma executeCmd_loop_ends:
  "rounds fill_round (Suc n) (n, out, pos, buf) = Some (fill n out pos buf) \<and>
   (0 < n \<and> n \<le> Suc (length out) \<and> no_nul out \<and> pos + n \<le> length buf \<longrightarrow>
      (\<forall>k. rounds fill_round_untested k (n, out, pos, buf) = None))"
proof -
  have "rounds fill_round (Suc n) (n, out, pos, buf) = Some ((\<lambda>(n, out, pos, buf). fill n out pos buf) (n, out, pos, buf))"
    by (rule rounds_variant [where f = fst]) (auto simp del: fill_round.simps dest: fill_round_next fill_round_end)
  moreover have "rounds fill_round_untested k (n, out, pos, buf) = None"
    if "room_used_up (n, out, pos, buf)" for k
    using untested_goes_on that by (rule rounds_forever)
  ultimately show ?thesis by simp
qed

lemma executeCmd_loop_ends_witness:
  "rounds fill_round 5 (4, ''overlong'', 0, zeroed 4) = Some (fill 4 ''overlong'' 0 (zeroed 4)) \<and>
   rounds fill_round_untested 1000 (4, ''overlong'', 0, zeroed 4) = None"
  using executeCmd_loop_ends [of 4 "''overlong''" 0 "zeroed 4"] by (simp add: no_nul_def del: rounds.simps)

end
