(* ===== verification/Resume.thy ===== *)
theory Resume
  imports Prelude
begin

text \<open>
  Programs that can be interrupted between two steps.  A \<open>prog\<close> is a finished computation or a
  step that changes the state at once, followed by a program that depends on the state the step
  began in.  Running one without interruption gives a computation of the state monad, so a
  program of several steps refines an operation of the code that is written as one.
\<close>

datatype ('s, 'a) prog = Done 'a | Act "'s \<Rightarrow> 's" "'s \<Rightarrow> ('s, 'a) prog"

primrec exec :: "('s, 'a) prog \<Rightarrow> 's \<Rightarrow> 'a \<times> 's" where
  "exec (Done x) = (\<lambda>s. (x, s))"
| "exec (Act g k) = (\<lambda>s. exec (k s) (g s))"

text \<open>A computation as one step, and one program after another.\<close>

definition prim :: "('s, 'a) state \<Rightarrow> ('s, 'a) prog" where
  "prim m = Act (end_of m) (\<lambda>s. Done (res_of m s))"

primrec seq :: "('s, 'a) prog \<Rightarrow> ('a \<Rightarrow> ('s, 'b) prog) \<Rightarrow> ('s, 'b) prog" where
  "seq (Done x) f = f x"
| "seq (Act g k) f = Act g (\<lambda>s. seq (k s) f)"

definition uninterrupted :: "('s, 'a) prog \<Rightarrow> ('s, 'a) state" where
  "uninterrupted p = State (exec p)"

lemma run_uninterrupted [simp]: "run_state (uninterrupted p) s = exec p s"
  by (simp add: uninterrupted_def)

lemma exec_seq: "exec (seq p f) s = (case exec p s of (x, s') \<Rightarrow> exec (f x) s')"
  by (induction p arbitrary: s) auto

lemma exec_prim [simp]: "exec (prim m) s = run_state m s"
  by (simp add: prim_def)

lemma seq_prim: "seq (prim m) f = Act (end_of m) (\<lambda>s. f (res_of m s))"
  by (simp add: prim_def)

named_theorems uninterrupted_simps \<open>what a program does when nothing comes between its steps\<close>

lemma uninterrupted_Done [uninterrupted_simps]: "uninterrupted (Done x) = State_Monad.return x"
  by (intro state_ext) simp

lemma uninterrupted_prim [uninterrupted_simps]: "uninterrupted (prim m) = m"
  by (intro state_ext) simp

lemma uninterrupted_seq [uninterrupted_simps]:
  "uninterrupted (seq p f) = State_Monad.bind (uninterrupted p) (\<lambda>x. uninterrupted (f x))"
  by (intro state_ext) (simp add: exec_seq)

lemma uninterrupted_if [uninterrupted_simps]:
  "uninterrupted (if b then p else q) = (if b then uninterrupted p else uninterrupted q)"
  by simp

lemma uninterrupted_option [uninterrupted_simps]:
  "uninterrupted (case x of None \<Rightarrow> p | Some y \<Rightarrow> q y) = (case x of None \<Rightarrow> uninterrupted p | Some y \<Rightarrow> uninterrupted (q y))"
  by (cases x) simp_all

lemma uninterrupted_let [uninterrupted_simps]: "uninterrupted (let x = e in p x) = (let x = e in uninterrupted (p x))"
  by simp

section \<open>Stopping half-way\<close>

text \<open>The rest of a program, and the state, after its first \<open>n\<close> steps.\<close>

primrec first_steps :: "nat \<Rightarrow> ('s, 'a) prog \<Rightarrow> 's \<Rightarrow> ('s, 'a) prog \<times> 's" where
  "first_steps 0 p s = (p, s)"
| "first_steps (Suc n) p s = (case p of Done x \<Rightarrow> (Done x, s) | Act g k \<Rightarrow> first_steps n (k s) (g s))"

lemma exec_first_steps: "first_steps n p s = (p', s') \<Longrightarrow> exec p' s' = exec p s"
  by (induction n arbitrary: p s) (auto split: prog.splits)

section \<open>Facts about every step\<close>

text \<open>Every step respects \<open>R\<close>.\<close>

primrec steps_keep :: "('s \<Rightarrow> 's \<Rightarrow> bool) \<Rightarrow> ('s, 'a) prog \<Rightarrow> bool" where
  "steps_keep R (Done x) \<longleftrightarrow> True"
| "steps_keep R (Act g k) \<longleftrightarrow> (\<forall>s. R s (g s) \<and> steps_keep R (k s))"

lemma steps_keep_prim: "steps_keep R (prim m) \<longleftrightarrow> keeps R m"
  by (simp add: prim_def keeps_def)

lemma steps_keep_seq: "steps_keep R p \<Longrightarrow> (\<And>x. steps_keep R (f x)) \<Longrightarrow> steps_keep R (seq p f)"
  by (induction p) auto

text \<open>
  Every step keeps an invariant that holds when it begins, and where the invariant holds at each step
  the result satisfies \<open>Q\<close>.
\<close>

primrec steps_post :: "('s \<Rightarrow> bool) \<Rightarrow> ('a \<Rightarrow> bool) \<Rightarrow> ('s, 'a) prog \<Rightarrow> bool" where
  "steps_post I Q (Done x) \<longleftrightarrow> Q x"
| "steps_post I Q (Act g k) \<longleftrightarrow> (\<forall>s. I s \<longrightarrow> I (g s) \<and> steps_post I Q (k s))"

abbreviation steps_inv :: "('s \<Rightarrow> bool) \<Rightarrow> ('s, 'a) prog \<Rightarrow> bool" where
  "steps_inv I \<equiv> steps_post I (\<lambda>_. True)"

lemma steps_post_seq: "steps_inv I p \<Longrightarrow> (\<And>x. steps_post I Q (f x)) \<Longrightarrow> steps_post I Q (seq p f)"
  by (induction p) auto

lemma steps_post_Done: "Q x \<Longrightarrow> steps_post I Q (Done x)"
  by simp

lemma steps_post_prim:
  "steps_post I Q (prim m) \<longleftrightarrow> (\<forall>s. I s \<longrightarrow> I (end_of m s) \<and> Q (res_of m s))"
  by (auto simp: prim_def)

lemma steps_post_if [intro!]:
  "(b \<Longrightarrow> steps_post I Q p) \<Longrightarrow> (\<not> b \<Longrightarrow> steps_post I Q q) \<Longrightarrow> steps_post I Q (if b then p else q)"
  by simp

lemma steps_keep_inv: "steps_keep R p \<Longrightarrow> (\<And>s t. R s t \<Longrightarrow> I s \<Longrightarrow> I t) \<Longrightarrow> steps_inv I p"
  by (induction p) auto

text \<open>Whatever the states between the steps are, the steps together add \<open>d\<close> to \<open>\<mu>\<close>.\<close>

primrec nets :: "('s \<Rightarrow> int) \<Rightarrow> ('s, 'a) prog \<Rightarrow> int \<Rightarrow> bool" where
  "nets \<mu> (Done x) = (\<lambda>d. d = 0)"
| "nets \<mu> (Act g k) = (\<lambda>d. \<forall>s. nets \<mu> (k s) (d - (\<mu> (g s) - \<mu> s)))"

lemma nets_seq: "nets \<mu> p a \<Longrightarrow> (\<And>x. nets \<mu> (f x) b) \<Longrightarrow> nets \<mu> (seq p f) (a + b)"
proof (induction p arbitrary: a)
  case (Act g k)
  have "nets \<mu> (seq (k s) f) (a + b - (\<mu> (g s) - \<mu> s))" for s
    using Act.IH [of "k s" "a - (\<mu> (g s) - \<mu> s)"] Act.prems by (simp add: algebra_simps)
  then show ?case by simp
qed simp

lemma nets_seq0: "nets \<mu> p 0 \<Longrightarrow> (\<And>x. nets \<mu> (f x) 0) \<Longrightarrow> nets \<mu> (seq p f) 0"
  using nets_seq [of \<mu> p 0 f 0] by simp

lemma nets_prim: "nets \<mu> (prim m) d \<longleftrightarrow> (\<forall>s. \<mu> (end_of m s) = \<mu> s + d)"
  by (auto simp: prim_def algebra_simps)

lemma nets_keep: "steps_keep (\<lambda>s t. \<mu> t = \<mu> s) p \<Longrightarrow> nets \<mu> p 0"
  by (induction p) auto

end
