(* ===== verification/Pool.thy ===== *)
theory Pool
  imports Resume Service
begin

text \<open>
  The threads of the server (\<open>rjcoreserver/main_rjcoreserver.cpp\<close>: \<open>startThreadPool\<close>,
  \<open>joinThreadPool\<close>).  A thread waits, has a call to make, or is inside it with the rest of its
  program; any thread may make the next step.  A call whose function has a static \<open>Mutex\<close>
  takes it before its first step, when no other thread is inside a call with the same mutex, and
  gives it back with its last.

  Which functions have a mutex (\<open>lock\<close>), what their programs are (\<open>body\<close>) and which calls are
  made (\<open>ok\<close>) are arguments here, and filled in by \<open>PoolOps\<close>.
\<close>

datatype 'w thread =
    Idle
  | Queued request
  | Inside request "('w sys, response) prog"

record 'w pool =
  shared :: "'w sys"
  thr :: "nat \<Rightarrow> 'w thread"
  served :: "(nat \<times> request \<times> response) list"

fun inside_lock :: "(request \<Rightarrow> mutex option) \<Rightarrow> mutex \<Rightarrow> 'w thread \<Rightarrow> bool" where
  "inside_lock lock m (Inside q p) \<longleftrightarrow> lock q = Some m"
| "inside_lock lock m _ \<longleftrightarrow> False"

fun_cases inside_lockE: "inside_lock lock m x"

fun lock_event :: "(mutex \<Rightarrow> event) \<Rightarrow> mutex option \<Rightarrow> 'w sys \<Rightarrow> 'w sys" where
  "lock_event e None s = s"
| "lock_event e (Some m) s = s\<lparr>trace := trace s @ [e m]\<rparr>"

inductive pool_step ::
  "(request \<Rightarrow> bool) \<Rightarrow> (request \<Rightarrow> mutex option) \<Rightarrow> (request \<Rightarrow> ('w sys, response) prog) \<Rightarrow> nat \<Rightarrow>
     'w pool \<Rightarrow> 'w pool \<Rightarrow> bool" for ok lock body n where
  arrive: "t < n \<Longrightarrow> thr s t = Idle \<Longrightarrow> ok q \<Longrightarrow>
     pool_step ok lock body n s (s\<lparr>thr := (thr s)(t := Queued q)\<rparr>)"
| enter: "thr s t = Queued q \<Longrightarrow> (\<And>m u. lock q = Some m \<Longrightarrow> \<not> inside_lock lock m (thr s u)) \<Longrightarrow>
     pool_step ok lock body n s
       (s\<lparr>shared := lock_event ELock (lock q) (shared s), thr := (thr s)(t := Inside q (body q))\<rparr>)"
| work: "thr s t = Inside q (Act g k) \<Longrightarrow>
     pool_step ok lock body n s
       (s\<lparr>shared := g (shared s), thr := (thr s)(t := Inside q (k (shared s)))\<rparr>)"
| leave: "thr s t = Inside q (Done r) \<Longrightarrow>
     pool_step ok lock body n s
       (s\<lparr>shared := lock_event EUnlock (lock q) (shared s), thr := (thr s)(t := Idle),
          served := served s @ [(t, q, r)]\<rparr>)"

definition pool_start :: "'w sys \<Rightarrow> 'w pool \<Rightarrow> bool" where
  "pool_start s0 s \<longleftrightarrow> shared s = s0 \<and> (\<forall>t. thr s t = Idle) \<and> served s = []"

section \<open>One thread alone\<close>

text \<open>A thread that is inside can be run to its end with no other thread in between.\<close>

lemma pool_solo:
  assumes "reach I (pool_step ok lock body n) s" "thr s t = Inside q p" "exec p (shared s) = (r, s')"
  shows "reach I (pool_step ok lock body n)
    (s\<lparr>shared := lock_event EUnlock (lock q) s', thr := (thr s)(t := Idle), served := served s @ [(t, q, r)]\<rparr>)"
  using assms
proof (induction p arbitrary: s)
  case (Done x)
  have "pool_step ok lock body n s (s\<lparr>shared := lock_event EUnlock (lock q) (shared s), thr := (thr s)(t := Idle),
      served := served s @ [(t, q, x)]\<rparr>)"
    by (rule leave [OF Done.prems(2)])
  from reach_step [OF Done.prems(1) this] show ?case using Done.prems(3) by (simp only: exec.simps prod.inject)
next
  case (Act g k)
  let ?s1 = "s\<lparr>shared := g (shared s), thr := (thr s)(t := Inside q (k (shared s)))\<rparr>"
  have "reach I (pool_step ok lock body n) ?s1"
    using Act.prems(1) by (rule reach_step) (rule work [OF Act.prems(2)])
  moreover have "thr ?s1 t = Inside q (k (shared s))" "exec (k (shared s)) (shared ?s1) = (r, s')"
    using Act.prems(3) by simp_all
  ultimately have "reach I (pool_step ok lock body n) (?s1\<lparr>shared := lock_event EUnlock (lock q) s',
      thr := (thr ?s1)(t := Idle), served := served ?s1 @ [(t, q, r)]\<rparr>)"
    by (rule Act.IH [OF rangeI])
  then show ?case by (cases s) (simp del: fun_upd_apply)
qed

lemma pool_some:
  assumes "reach I (pool_step ok lock body n) s" "thr s t = Inside q p" "first_steps i p (shared s) = (p', s')"
  shows "reach I (pool_step ok lock body n) (s\<lparr>shared := s', thr := (thr s)(t := Inside q p')\<rparr>)"
  using assms
proof (induction i arbitrary: p s)
  case 0
  moreover have "s\<lparr>shared := shared s, thr := (thr s)(t := Inside q p)\<rparr> = s"
    using 0(2) by (cases s) (simp add: fun_upd_idem)
  ultimately show ?case by (simp del: fun_upd_apply)
next
  case (Suc i)
  show ?case
  proof (cases p)
    case (Done x)
    then show ?thesis using Suc.prems by (cases s) (simp add: fun_upd_idem)
  next
    case (Act g k)
    let ?s1 = "s\<lparr>shared := g (shared s), thr := (thr s)(t := Inside q (k (shared s)))\<rparr>"
    have "reach I (pool_step ok lock body n) ?s1"
      using Suc.prems(1) by (rule reach_step) (rule work [OF Suc.prems(2) [unfolded Act]])
    moreover have "thr ?s1 t = Inside q (k (shared s))" "first_steps i (k (shared s)) (shared ?s1) = (p', s')"
      using Suc.prems(3) Act by simp_all
    ultimately have "reach I (pool_step ok lock body n) (?s1\<lparr>shared := s', thr := (thr ?s1)(t := Inside q p')\<rparr>)"
      by (rule Suc.IH)
    then show ?thesis by (cases s) (simp del: fun_upd_apply)
  qed
qed

text \<open>A call that needs no mutex can begin at any time.\<close>

lemma pool_begin:
  assumes "reach I (pool_step ok lock body n) s" "t < n" "thr s t = Idle" "ok q" "lock q = None"
  shows "reach I (pool_step ok lock body n) (s\<lparr>thr := (thr s)(t := Inside q (body q))\<rparr>)"
proof -
  let ?s1 = "s\<lparr>thr := (thr s)(t := Queued q)\<rparr>"
  have "reach I (pool_step ok lock body n) ?s1"
    using assms(1) by (rule reach_step) (rule arrive [where q = q], fact+)
  then have "reach I (pool_step ok lock body n)
      (?s1\<lparr>shared := lock_event ELock (lock q) (shared ?s1), thr := (thr ?s1)(t := Inside q (body q))\<rparr>)"
    by (rule reach_step) (rule enter, simp_all add: assms(5))
  then show ?thesis using assms(5) by (cases s) (simp del: fun_upd_apply)
qed

section \<open>Invariants of the pool\<close>

text \<open>The calls under way are calls that are made, and only the first \<open>n\<close> threads make any.\<close>

fun calls_ok :: "(request \<Rightarrow> bool) \<Rightarrow> 'w thread \<Rightarrow> bool" where
  "calls_ok ok Idle \<longleftrightarrow> True"
| "calls_ok ok (Queued q) \<longleftrightarrow> ok q"
| "calls_ok ok (Inside q p) \<longleftrightarrow> ok q"

definition threads_wf :: "(request \<Rightarrow> bool) \<Rightarrow> (request \<Rightarrow> mutex option) \<Rightarrow> nat \<Rightarrow> (nat \<Rightarrow> 'w thread) \<Rightarrow> bool" where
  "threads_wf ok lock n th \<longleftrightarrow> (\<forall>t. calls_ok ok (th t)) \<and> (\<forall>t\<ge>n. th t = Idle) \<and>
     (\<forall>m t u. inside_lock lock m (th t) \<longrightarrow> inside_lock lock m (th u) \<longrightarrow> t = u)"

lemma threads_wf_upd:
  assumes "threads_wf ok lock n th" "calls_ok ok x" "t < n \<or> x = Idle"
    "\<And>m u. inside_lock lock m x \<Longrightarrow> u \<noteq> t \<Longrightarrow> \<not> inside_lock lock m (th u)"
  shows "threads_wf ok lock n (th(t := x))"
proof -
  have old: "inside_lock lock m (th u) \<Longrightarrow> inside_lock lock m (th v) \<Longrightarrow> u = v" for m u v
    using assms(1) unfolding threads_wf_def by blast
  have "u = v" if "inside_lock lock m ((th(t := x)) u)" "inside_lock lock m ((th(t := x)) v)" for m u v
    using that old [of m u v] assms(4) [of m u] assms(4) [of m v] by (simp split: if_splits)
  moreover have "\<forall>u. calls_ok ok ((th(t := x)) u)" "\<forall>u\<ge>n. (th(t := x)) u = Idle"
    using assms(1-3) unfolding threads_wf_def by (auto simp: not_le)
  ultimately show ?thesis unfolding threads_wf_def by blast
qed

lemma threads_wf_busy: "threads_wf ok lock n th \<Longrightarrow> th t \<noteq> Idle \<Longrightarrow> t < n \<and> calls_ok ok (th t)"
  unfolding threads_wf_def by (metis not_le)

lemma threads_wf_alone:
  "threads_wf ok lock n th \<Longrightarrow> inside_lock lock m (th t) \<Longrightarrow> u \<noteq> t \<Longrightarrow> \<not> inside_lock lock m (th u)"
  unfolding threads_wf_def by blast

interpretation pool_wf: step_system "pool_start s0" "pool_step ok lock body n" "\<lambda>s. threads_wf ok lock n (thr s)"
  for s0 ok lock body n
proof unfold_locales
  show "threads_wf ok lock n (thr s)" if "pool_start s0 s" for s
    using that by (simp add: threads_wf_def pool_start_def)
  show "threads_wf ok lock n (thr s')"
    if wf: "threads_wf ok lock n (thr s)" and step: "pool_step ok lock body n s s'" for s s'
    using step
  proof (cases rule: pool_step.cases)
    case (arrive t q)
    then show ?thesis using wf by (auto intro!: threads_wf_upd)
  next
    case (enter t q)
    have "threads_wf ok lock n ((thr s)(t := Inside q (body q)))"
      using wf by (rule threads_wf_upd) (use enter threads_wf_busy [OF wf, of t] in auto)
    then show ?thesis using enter by simp
  next
    case (work t q g k)
    have "threads_wf ok lock n ((thr s)(t := Inside q (k (shared s))))"
      using wf by (rule threads_wf_upd)
        (use work threads_wf_busy [OF wf, of t] threads_wf_alone [OF wf, of _ t] in auto)
    then show ?thesis using work by simp
  next
    case (leave t q r)
    then show ?thesis using wf by (auto intro!: threads_wf_upd)
  qed
qed

end
