(* ===== verification/PoolLaws.thy ===== *)
theory PoolLaws
  imports Pool
begin

text \<open>
  What holds of the pool whatever the calls are: it never blocks for good; calls under one mutex,
  among calls without one that neither change what the others see nor depend on it, are served as if
  one after the other (locale \<open>monitor\<close>); what every call gives back is given
  back in the pool (locale \<open>pool_ledger\<close>); and a mutex is held by one thread at a time
  (locale \<open>pool_mutex\<close>).
\<close>

section \<open>Progress\<close>

fun call_of_thread :: "'w thread \<Rightarrow> request option" where
  "call_of_thread Idle = None"
| "call_of_thread (Queued q) = Some q"
| "call_of_thread (Inside q p) = Some q"

lemma finish_inside:
  assumes "reach I (pool_step ok lock body n) s" "thr s t = Inside q p"
  shows "\<exists>s' r. reach I (pool_step ok lock body n) s' \<and> thr s' = (thr s)(t := Idle) \<and>
    served s' = served s @ [(t, q, r)]"
proof -
  obtain r m where "exec p (shared s) = (r, m)" by fastforce
  from pool_solo [OF assms this] show ?thesis by (intro exI conjI) (assumption, simp_all)
qed

lemma finish_queued:
  assumes "reach I (pool_step ok lock body n) s" "thr s t = Queued q" "\<forall>u q p. thr s u \<noteq> Inside q p"
  shows "\<exists>s' r. reach I (pool_step ok lock body n) s' \<and> thr s' = (thr s)(t := Idle) \<and>
    served s' = served s @ [(t, q, r)]"
proof -
  let ?s = "s\<lparr>shared := lock_event ELock (lock q) (shared s), thr := (thr s)(t := Inside q (body q))\<rparr>"
  have "\<not> inside_lock lock m (thr s u)" for m u
    using assms(3) by (cases "thr s u") auto
  then have "reach I (pool_step ok lock body n) ?s"
    using assms(1,2) by (intro reach_step [OF assms(1)] enter) simp_all
  from finish_inside [OF this, of t q "body q"] show ?thesis by (simp del: fun_upd_apply) (simp add: fun_upd_same)
qed

fun answers_thread :: "nat \<Rightarrow> 'w thread \<Rightarrow> nat \<times> request \<times> response \<Rightarrow> bool" where
  "answers_thread t x (u, q, r) \<longleftrightarrow> u = t \<and> call_of_thread x = Some q"

lemma call_of_thread_None [simp]: "call_of_thread x = None \<longleftrightarrow> x = Idle"
  by (cases x) simp_all

interpretation pool_draining:
  draining "reach I (pool_step ok lock body n)" thr Idle served answers_thread for I ok lock body n
proof unfold_locales
  fix s t
  assume s: "reach I (pool_step ok lock body n) s" and busy: "thr s t \<noteq> Idle"
  show "\<exists>u s' e. thr s u \<noteq> Idle \<and> reach I (pool_step ok lock body n) s' \<and> thr s' = (thr s)(u := Idle) \<and>
      served s' = served s @ [e] \<and> answers_thread u (thr s u) e"
  proof (cases "\<exists>u q p. thr s u = Inside q p")
    case True
    then obtain u q p where u: "thr s u = Inside q p" by blast
    from finish_inside [OF s u] show ?thesis using u
      by (metis answers_thread.simps call_of_thread.simps(3) thread.distinct(3))
  next
    case no: False
    with busy obtain q where q: "thr s t = Queued q" by (cases "thr s t") auto
    from finish_queued [OF s q] no show ?thesis using q
      by (metis answers_thread.simps call_of_thread.simps(2) thread.distinct(1))
  qed
qed

lemma pool_drains:
  assumes "reach I (pool_step ok lock body n) s" "\<forall>t\<ge>n. thr s t = Idle"
  shows "\<exists>s' es. reach I (pool_step ok lock body n) s' \<and> (\<forall>t. thr s' t = Idle) \<and> served s' = served s @ es \<and>
    (\<forall>t q. call_of_thread (thr s t) = Some q \<longrightarrow> (\<exists>r. (t, q, r) \<in> set es))"
proof -
  have "{t. thr s t \<noteq> Idle} \<subseteq> {..<n}" using assms(2) by (auto simp: not_le)
  then have "finite {t. thr s t \<noteq> Idle}" by (rule finite_subset) simp
  from pool_draining.drains [OF assms(1) this] obtain s' es where *: "reach I (pool_step ok lock body n) s'"
      "\<forall>t. thr s' t = Idle" "served s' = served s @ es"
      "\<forall>t. thr s t \<noteq> Idle \<longrightarrow> (\<exists>e \<in> set es. answers_thread t (thr s t) e)"
    by blast
  have "\<exists>r. (t, q, r) \<in> set es" if "call_of_thread (thr s t) = Some q" for t q
  proof -
    have "thr s t \<noteq> Idle" using that by auto
    then obtain u q' r where "(u, q', r) \<in> set es" "answers_thread t (thr s t) (u, q', r)"
      using *(4) by (metis prod_cases3)
    then show ?thesis using that by auto
  qed
  with *(1-3) show ?thesis by blast
qed

section \<open>Calls under one mutex\<close>

text \<open>The specification: a server that serves one call at a time, at once.\<close>

record 'w serial =
  sstate :: "'w sys"
  shist :: "(nat \<times> request \<times> response) list"

inductive serial_step ::
  "(request \<Rightarrow> bool) \<Rightarrow> (request \<Rightarrow> ('w sys, response) state) \<Rightarrow> 'w serial \<Rightarrow> 'w serial \<Rightarrow> bool" for ok op where
  serve_one: "ok q \<Longrightarrow> run_state (op q) (sstate a) = (r, s') \<Longrightarrow>
     serial_step ok op a \<lparr>sstate = s', shist = shist a @ [(t, q, r)]\<rparr>"

inductive_simps serial_step_iff: "serial_step ok op a b"

definition serial_start :: "'w sys \<Rightarrow> 'w serial \<Rightarrow> bool" where
  "serial_start s0 a \<longleftrightarrow> a = \<lparr>sstate = s0, shist = []\<rparr>"

text \<open>The end of a call that has the rest \<open>p\<close> of its program to run.\<close>

definition rest_of_call :: "mutex \<Rightarrow> ('w sys, 'a) prog \<Rightarrow> 'w sys \<Rightarrow> 'a \<times> 'w sys" where
  "rest_of_call m p s = (case exec p s of (r, s') \<Rightarrow> (r, lock_event EUnlock (Some m) s'))"

lemma rest_of_call_Act: "rest_of_call m (Act g k) s = rest_of_call m (k s) (g s)"
  by (simp add: rest_of_call_def)

lemma rest_of_locked_call:
  "rest_of_call m p (lock_event ELock (Some m) s) = run_state (with_lock m (uninterrupted p)) s"
  by (simp add: rest_of_call_def with_lock_def case_prod_beta)

text \<open>
  A program that only looks, at states of which \<open>B\<close> holds, and answers \<open>r\<close>.
\<close>

primrec silent :: "('s \<Rightarrow> bool) \<Rightarrow> 'a \<Rightarrow> ('s, 'a) prog \<Rightarrow> bool" where
  "silent B r (Done x) \<longleftrightarrow> x = r"
| "silent B r (Act g k) \<longleftrightarrow> (\<forall>s. B s \<longrightarrow> g s = s \<and> silent B r (k s))"

lemma exec_silent: "silent B r p \<Longrightarrow> B s \<Longrightarrow> exec p s = (r, s)"
  by (induction p arbitrary: s) auto

text \<open>
  How a call under way relates to the specification: a call without a mutex only looks at what no
  call changes, and the call that holds the mutex has its whole effect between the state of the
  specification and the end of its program.
\<close>

fun call_rel ::
  "(request \<Rightarrow> mutex option) \<Rightarrow> (request \<Rightarrow> ('w sys, response) state) \<Rightarrow> mutex \<Rightarrow> ('w sys \<Rightarrow> bool) \<Rightarrow>
     'w sys \<Rightarrow> 'w sys \<Rightarrow> 'w thread \<Rightarrow> bool" where
  "call_rel lock op m B sh st (Inside q p) \<longleftrightarrow>
     (lock q = None \<longrightarrow> (\<exists>r. silent B r p \<and> (\<forall>s. B s \<longrightarrow> run_state (op q) s = (r, s)))) \<and>
     (lock q = Some m \<longrightarrow> rest_of_call m p sh = run_state (op q) st \<and> steps_inv B p)"
| "call_rel lock op m B sh st _ \<longleftrightarrow> True"

definition serial_rel ::
  "(request \<Rightarrow> bool) \<Rightarrow> (request \<Rightarrow> mutex option) \<Rightarrow> (request \<Rightarrow> ('w sys, response) state) \<Rightarrow> mutex \<Rightarrow>
     ('w sys \<Rightarrow> bool) \<Rightarrow> nat \<Rightarrow> 'w pool \<Rightarrow> 'w serial \<Rightarrow> bool" where
  "serial_rel ok lock op m B n s a \<longleftrightarrow> threads_wf ok lock n (thr s) \<and> shist a = served s \<and> B (shared s) \<and> B (sstate a) \<and>
     (\<forall>t. call_rel lock op m B (shared s) (sstate a) (thr s t)) \<and>
     ((\<forall>t. \<not> inside_lock lock m (thr s t)) \<longrightarrow> shared s = sstate a)"

lemma call_rel_outside:
  "\<not> inside_lock lock m x \<Longrightarrow> call_rel lock op m B sh st x \<Longrightarrow> call_rel lock op m B sh' st' x"
  by (cases x) auto

text \<open>A step of one thread: it restores the relation when it does so for itself and for a free mutex.\<close>

lemma serial_rel_upd:
  assumes rel: "serial_rel ok lock op m B n s a" and wf: "threads_wf ok lock n ((thr s)(t := x))"
    and hist: "h = served s'" and thr: "thr s' = (thr s)(t := x)"
    and own: "call_rel lock op m B (shared s') st x"
    and other: "(shared s' = shared s \<and> st = sstate a) \<or> (\<forall>u. u \<noteq> t \<longrightarrow> \<not> inside_lock lock m (thr s u))"
    and free: "\<forall>u. \<not> inside_lock lock m (thr s' u) \<Longrightarrow> shared s' = st" and B: "B (shared s')" "B st"
  shows "serial_rel ok lock op m B n s' \<lparr>sstate = st, shist = h\<rparr>"
proof -
  have "call_rel lock op m B (shared s') st (thr s' u)" for u
  proof (cases "u = t")
    case False
    have "call_rel lock op m B (shared s) (sstate a) (thr s u)" using rel by (simp add: serial_rel_def)
    then show ?thesis using False other call_rel_outside [of lock m "thr s u"] unfolding thr by auto
  qed (simp add: thr own)
  then show ?thesis using wf hist free B unfolding serial_rel_def thr by simp
qed

lemma serial_rel_hold:
  assumes "serial_rel ok lock op m B n s a" "threads_wf ok lock n ((thr s)(t := x))"
    "h = served s'" "thr s' = (thr s)(t := x)" "inside_lock lock m x"
    "call_rel lock op m B (shared s') (sstate a) x" "\<forall>u. u \<noteq> t \<longrightarrow> \<not> inside_lock lock m (thr s u)" "B (shared s')"
  shows "serial_rel ok lock op m B n s' \<lparr>sstate = sstate a, shist = h\<rparr>"
proof (rule serial_rel_upd [OF assms(1-4,6)])
  show "shared s' = sstate a" if "\<forall>u. \<not> inside_lock lock m (thr s' u)"
    using spec [OF that, of t] assms(4,5) by simp
next
  show "B (sstate a)" using assms(1) by (simp add: serial_rel_def)
qed (use assms(7,8) in blast)+

locale monitor =
  fixes ok :: "request \<Rightarrow> bool" and lock :: "request \<Rightarrow> mutex option"
    and body :: "request \<Rightarrow> ('w sys, response) prog" and op :: "request \<Rightarrow> ('w sys, response) state" and m :: mutex
    and B :: "'w sys \<Rightarrow> bool" and s0 :: "'w sys"
  assumes under_lock: "ok q \<Longrightarrow> lock q = Some m \<Longrightarrow> op q = with_lock m (uninterrupted (body q))"
    and kept_under_lock: "ok q \<Longrightarrow> lock q = Some m \<Longrightarrow> steps_inv B (body q)"
    and without_lock: "ok q \<Longrightarrow> lock q \<noteq> Some m \<Longrightarrow> lock q = None \<and> op q = uninterrupted (body q) \<and> (\<exists>r. silent B r (body q))"
    and B_start: "B s0" and B_lock: "B s \<Longrightarrow> B (lock_event e (Some m) s)"
begin

lemma serial_begin: "pool_start s0 s \<Longrightarrow> \<exists>a. serial_start s0 a \<and> serial_rel ok lock op m B n s a"
  using B_start by (auto simp: pool_start_def serial_start_def serial_rel_def threads_wf_def)

lemma serial_relD:
  assumes "serial_rel ok lock op m B n s a"
  shows "threads_wf ok lock n (thr s)" "calls_ok ok (thr s t)" "shist a = served s"
    "call_rel lock op m B (shared s) (sstate a) (thr s t)"
    "\<forall>u. \<not> inside_lock lock m (thr s u) \<Longrightarrow> shared s = sstate a"
    "B (shared s)" "B (sstate a)"
  using assms by (simp_all add: serial_rel_def threads_wf_def)

text \<open>A step of a call outside the mutex leaves the specification where it is.\<close>

lemma serial_rel_outside:
  assumes rel: "serial_rel ok lock op m B n s a" and wf: "threads_wf ok lock n (thr s')"
    and s': "thr s' = (thr s)(t := x)" "shared s' = shared s"
    and out: "\<not> inside_lock lock m (thr s t)" "\<not> inside_lock lock m x" "call_rel lock op m B (shared s) (sstate a) x"
  shows "serial_rel ok lock op m B n s' \<lparr>sstate = sstate a, shist = served s'\<rparr>"
proof -
  have "inside_lock lock m (thr s' u) = inside_lock lock m (thr s u)" for u using s'(1) out by simp
  then show ?thesis using serial_relD(5-7) [OF rel] wf s' out(3)
    by (intro serial_rel_upd [OF rel, where t = t and x = x]) auto
qed

lemma serial_enter:
  assumes rel: "serial_rel ok lock op m B n s a" and wf: "threads_wf ok lock n (thr s')"
    and s': "s' = s\<lparr>shared := lock_event ELock (lock q) (shared s), thr := (thr s)(t := Inside q (body q))\<rparr>"
    and q: "thr s t = Queued q" and free: "\<And>l u. lock q = Some l \<Longrightarrow> \<not> inside_lock lock l (thr s u)"
  shows "serial_rel ok lock op m B n s' \<lparr>sstate = sstate a, shist = served s'\<rparr>"
proof -
  have "ok q" using serial_relD(2) [OF rel, of t] q by simp
  show ?thesis
  proof (cases "lock q = Some m")
    case True
    then have "\<forall>u. \<not> inside_lock lock m (thr s u)" using free by blast
    moreover from this have "rest_of_call m (body q) (shared s') = run_state (op q) (sstate a)"
      using True s' serial_relD(5) [OF rel] rest_of_locked_call [of m "body q" "shared s"] under_lock [OF \<open>ok q\<close> True]
      by simp
    moreover have "B (shared s')" using s' True B_lock [OF serial_relD(6) [OF rel]] by simp
    ultimately show ?thesis using kept_under_lock [OF \<open>ok q\<close> True]
      by (intro serial_rel_hold [OF rel, where t = t and x = "Inside q (body q)"]) (use s' wf True in auto)
  next
    case False
    from without_lock [OF \<open>ok q\<close> this] obtain r where r: "lock q = None" "op q = uninterrupted (body q)" "silent B r (body q)"
      by blast
    then have "call_rel lock op m B (shared s) (sstate a) (Inside q (body q))"
      using exec_silent [OF r(3)] by auto
    then show ?thesis
      using s' q r(1) by (intro serial_rel_outside [OF rel wf, where t = t and x = "Inside q (body q)"]) simp_all
  qed
qed

lemma serial_work:
  assumes rel: "serial_rel ok lock op m B n s a" and wf: "threads_wf ok lock n (thr s')"
    and s': "s' = s\<lparr>shared := g (shared s), thr := (thr s)(t := Inside q (k (shared s)))\<rparr>"
    and q: "thr s t = Inside q (Act g k)"
  shows "serial_rel ok lock op m B n s' \<lparr>sstate = sstate a, shist = served s'\<rparr>"
proof -
  have "ok q" using serial_relD(2) [OF rel, of t] q by simp
  have now: "call_rel lock op m B (shared s) (sstate a) (Inside q (Act g k))" using serial_relD(4) [OF rel, of t] q by simp
  note B = serial_relD(6) [OF rel]
  show ?thesis
  proof (cases "lock q = Some m")
    case True
    then have "rest_of_call m (k (shared s)) (shared s') = run_state (op q) (sstate a)" "steps_inv B (k (shared s))"
        "B (shared s')"
      using now B s' by (simp_all add: rest_of_call_Act)
    moreover have "inside_lock lock m (thr s t)" using q True by simp
    ultimately show ?thesis
      by (intro serial_rel_hold [OF rel, where t = t and x = "Inside q (k (shared s))"])
        (use s' wf True threads_wf_alone [OF serial_relD(1) [OF rel], of m t] in auto)
  next
    case False
    then have none: "lock q = None" using without_lock [OF \<open>ok q\<close>] by blast
    with now B have "g (shared s) = shared s" "call_rel lock op m B (shared s) (sstate a) (Inside q (k (shared s)))" by auto
    then show ?thesis using s' q none
      by (intro serial_rel_outside [OF rel wf, where t = t and x = "Inside q (k (shared s))"]) simp_all
  qed
qed

lemma serial_leave:
  assumes rel: "serial_rel ok lock op m B n s a" and wf: "threads_wf ok lock n (thr s')"
    and s': "s' = s\<lparr>shared := lock_event EUnlock (lock q) (shared s), thr := (thr s)(t := Idle),
      served := served s @ [(t, q, r)]\<rparr>"
    and q: "thr s t = Inside q (Done r)"
  shows "\<exists>a'. serial_step ok op a a' \<and> serial_rel ok lock op m B n s' a'"
proof -
  have ok: "ok q" using serial_relD(2) [OF rel, of t] q by simp
  have now: "call_rel lock op m B (shared s) (sstate a) (Inside q (Done r))" using serial_relD(4) [OF rel, of t] q by simp
  have "\<exists>s1. run_state (op q) (sstate a) = (r, s1) \<and> serial_rel ok lock op m B n s' \<lparr>sstate = s1, shist = served s'\<rparr>"
  proof (cases "lock q = Some m")
    case True
    have "run_state (op q) (sstate a) = (r, shared s')" using now s' True by (simp add: rest_of_call_def)
    moreover have "inside_lock lock m (thr s t)" using q True by simp
    moreover have "B (shared s')" using s' True B_lock [OF serial_relD(6) [OF rel]] by simp
    ultimately show ?thesis
      by (intro exI [of _ "shared s'"] conjI serial_rel_upd [OF rel, where t = t and x = Idle])
        (use s' wf True threads_wf_alone [OF serial_relD(1) [OF rel], of m t] in auto)
  next
    case False
    then have none: "lock q = None" using without_lock [OF ok] by blast
    then have "run_state (op q) (sstate a) = (r, sstate a)" using now serial_relD(7) [OF rel] by auto
    moreover have "serial_rel ok lock op m B n s' \<lparr>sstate = sstate a, shist = served s'\<rparr>"
      using s' q none by (intro serial_rel_outside [OF rel wf, where t = t and x = Idle]) simp_all
    ultimately show ?thesis by blast
  qed
  then obtain s1 where s1: "run_state (op q) (sstate a) = (r, s1)"
      "serial_rel ok lock op m B n s' \<lparr>sstate = s1, shist = served s'\<rparr>" by blast
  from serve_one [where op = op and ok = ok, OF ok s1(1), where t = t]
  have "serial_step ok op a \<lparr>sstate = s1, shist = served s'\<rparr>" using s' serial_relD(3) [OF rel] by simp
  with s1(2) show ?thesis by blast
qed

lemma serial_sim:
  assumes rel: "serial_rel ok lock op m B n s a" and step: "pool_step ok lock body n s s'"
  shows "\<exists>a'. (serial_step ok op a a' \<or> a' = a) \<and> serial_rel ok lock op m B n s' a'"
proof -
  have wf: "threads_wf ok lock n (thr s')" using serial_relD(1) [OF rel] step by (rule pool_wf.inv_step)
  have stay: "\<lparr>sstate = sstate a, shist = served s'\<rparr> = a" if "served s' = served s"
    using serial_relD(3) [OF rel] that by simp
  show ?thesis using step
  proof (cases rule: pool_step.cases)
    case (arrive t q)
    then have "serial_rel ok lock op m B n s' \<lparr>sstate = sstate a, shist = served s'\<rparr>"
      by (intro serial_rel_outside [OF rel wf, where t = t and x = "Queued q"]) simp_all
    then show ?thesis using stay arrive(1) by auto
  next
    case (enter t q)
    from serial_enter [OF rel wf this] show ?thesis using stay enter(1) by auto
  next
    case (work t q g k)
    from serial_work [OF rel wf this] show ?thesis using stay work(1) by auto
  next
    case (leave t q r)
    from serial_leave [OF rel wf this] show ?thesis by blast
  qed
qed

end

sublocale monitor \<subseteq> serial: simulation "pool_start s0" "pool_step ok lock body n" "serial_start s0"
  "serial_step ok op" "serial_rel ok lock op m B n" for n
  by unfold_locales (fact serial_begin, fact serial_sim)

section \<open>What calls take and give back\<close>

lemma sum_upd: "t < n \<Longrightarrow> (\<Sum>u<n. (f(t := x)) u) = (\<Sum>u<n. f u) - f t + x" for f :: "nat \<Rightarrow> int"
  by (simp add: sum.remove [of "{..<n}" t])

text \<open>What a thread still has to give back: the rest of its program and then its mutex.\<close>

fun mutex_debt :: "(request \<Rightarrow> mutex option) \<Rightarrow> handle \<Rightarrow> 'w thread \<Rightarrow> int" where
  "mutex_debt lock h (Inside q p) = (case lock q of None \<Rightarrow> 0 | Some m \<Rightarrow> handle_delta h (EUnlock m))"
| "mutex_debt lock h _ = 0"

fun prog_debt :: "handle \<Rightarrow> 'w thread \<Rightarrow> int \<Rightarrow> bool" where
  "prog_debt h (Inside q p) d \<longleftrightarrow> nets (\<lambda>s. held h (trace s)) p d"
| "prog_debt h _ d \<longleftrightarrow> d = 0"

definition ledger_inv :: "(request \<Rightarrow> mutex option) \<Rightarrow> handle \<Rightarrow> nat \<Rightarrow> int \<Rightarrow> 'w pool \<Rightarrow> bool" where
  "ledger_inv lock h n c s \<longleftrightarrow> (\<exists>d. (\<forall>t. prog_debt h (thr s t) (d t)) \<and>
     held h (trace (shared s)) + (\<Sum>t<n. d t + mutex_debt lock h (thr s t)) = c)"

lemma ledger_inv_upd:
  assumes inv: "ledger_inv lock h n c s" and t: "t < n" and thr: "thr s' = (thr s)(t := x)"
    and pay: "\<And>d. prog_debt h (thr s t) d \<Longrightarrow> \<exists>d'. prog_debt h x d' \<and>
      held h (trace (shared s')) + d' + mutex_debt lock h x = held h (trace (shared s)) + d + mutex_debt lock h (thr s t)"
  shows "ledger_inv lock h n c s'"
proof -
  obtain d where d: "\<forall>t. prog_debt h (thr s t) (d t)"
      "held h (trace (shared s)) + (\<Sum>t<n. d t + mutex_debt lock h (thr s t)) = c"
    using inv by (auto simp: ledger_inv_def)
  obtain d' where d': "prog_debt h x d'"
      "held h (trace (shared s')) + d' + mutex_debt lock h x = held h (trace (shared s)) + d t + mutex_debt lock h (thr s t)"
    using pay [OF d(1) [rule_format]] by blast
  let ?f = "\<lambda>u. d u + mutex_debt lock h (thr s u)"
  have "(\<lambda>u. (d(t := d')) u + mutex_debt lock h (thr s' u)) = ?f(t := d' + mutex_debt lock h x)"
    by (simp add: thr fun_eq_iff)
  then have "(\<Sum>u<n. (d(t := d')) u + mutex_debt lock h (thr s' u)) = (\<Sum>u<n. ?f u) - ?f t + (d' + mutex_debt lock h x)"
    using sum_upd [OF t, of ?f] by metis
  then have "held h (trace (shared s')) + (\<Sum>u<n. (d(t := d')) u + mutex_debt lock h (thr s' u)) = c"
    using d(2) d'(2) by simp
  moreover have "\<forall>u. prog_debt h (thr s' u) ((d(t := d')) u)" using d(1) d'(1) by (simp add: thr)
  ultimately show ?thesis unfolding ledger_inv_def by blast
qed

lemma lock_event_held:
  "held h (trace (lock_event ELock l s)) + (case l of None \<Rightarrow> 0 | Some m \<Rightarrow> handle_delta h (EUnlock m)) = held h (trace s)"
  "held h (trace (lock_event EUnlock l s)) = held h (trace s) + (case l of None \<Rightarrow> 0 | Some m \<Rightarrow> handle_delta h (EUnlock m))"
  by (cases h; cases l; simp)+

locale pool_ledger =
  fixes ok :: "request \<Rightarrow> bool" and lock :: "request \<Rightarrow> mutex option"
    and body :: "request \<Rightarrow> ('w sys, response) prog" and h :: handle
  assumes body_nets: "ok q \<Longrightarrow> nets (\<lambda>s. held h (trace s)) (body q) 0"
begin

lemma ledger_step:
  assumes wf: "threads_wf ok lock n (thr s)" and inv: "ledger_inv lock h n c s"
    and step: "pool_step ok lock body n s s'"
  shows "ledger_inv lock h n c s'"
  using step
proof (cases rule: pool_step.cases)
  case (arrive t q)
  then show ?thesis by (intro ledger_inv_upd [OF inv, where t = t and x = "Queued q"]) simp_all
next
  case (enter t q)
  then have "t < n" "ok q" using threads_wf_busy [OF wf, of t] by simp_all
  then show ?thesis using enter(1,2) body_nets [of q] lock_event_held(1) [of h "lock q" "shared s"]
    by (intro ledger_inv_upd [OF inv, where t = t and x = "Inside q (body q)"]) auto
next
  case (work t q g k)
  then have "t < n" using threads_wf_busy [OF wf, of t] by simp
  then show ?thesis using work
    by (intro ledger_inv_upd [OF inv, where t = t and x = "Inside q (k (shared s))"]) (auto intro!: exI)
next
  case (leave t q r)
  then have "t < n" using threads_wf_busy [OF wf, of t] by simp
  then show ?thesis using leave lock_event_held(2) [of h "lock q" "shared s"]
    by (intro ledger_inv_upd [OF inv, where t = t and x = Idle]) auto
qed

lemma ledger_reach:
  assumes "reach (pool_start s0) (pool_step ok lock body n) s"
  shows "ledger_inv lock h n (held h (trace s0)) s"
  by (rule pool_wf.reach_with_inv [OF assms _ ledger_step])
     (auto simp: ledger_inv_def pool_start_def intro!: exI [of _ "\<lambda>_. 0"])

lemma ledger_idle:
  assumes "reach (pool_start s0) (pool_step ok lock body n) s" "\<forall>t. thr s t = Idle"
  shows "held h (trace (shared s)) = held h (trace s0)"
  using ledger_reach [OF assms(1)] assms(2) by (auto simp: ledger_inv_def)

end

section \<open>One thread at a time\<close>

locale pool_mutex =
  fixes ok :: "request \<Rightarrow> bool" and lock :: "request \<Rightarrow> mutex option"
    and body :: "request \<Rightarrow> ('w sys, response) prog" and m :: mutex
  assumes body_keeps: "ok q \<Longrightarrow> steps_keep (same_held (HMutex m)) (body q)"
begin

definition mutex_inv :: "int \<Rightarrow> 'w pool \<Rightarrow> bool" where
  "mutex_inv c s \<longleftrightarrow> (\<forall>t q p. thr s t = Inside q p \<longrightarrow> steps_keep (same_held (HMutex m)) p) \<and>
     held (HMutex m) (trace (shared s)) = c + (if \<exists>t. inside_lock lock m (thr s t) then 1 else 0)"

lemma mutex_invD:
  assumes "mutex_inv c s"
  shows "thr s t = Inside q p \<Longrightarrow> steps_keep (same_held (HMutex m)) p"
    and "held (HMutex m) (trace (shared s)) = c + (if \<exists>t. inside_lock lock m (thr s t) then 1 else 0)"
  using assms by (auto simp: mutex_inv_def)

text \<open>A step of one thread: the mutex is held afterwards exactly if a thread is inside it.\<close>

lemma mutex_inv_upd:
  assumes "mutex_inv c s" "thr s' = (thr s)(t := x)"
    "\<And>q p. x = Inside q p \<Longrightarrow> steps_keep (same_held (HMutex m)) p"
    "held (HMutex m) (trace (shared s')) = c + (if \<exists>u. inside_lock lock m (thr s' u) then 1 else 0)"
  shows "mutex_inv c s'"
  using assms mutex_invD(1) [OF assms(1)] unfolding mutex_inv_def by (auto split: if_splits)

lemma mutex_inv_outside:
  assumes inv: "mutex_inv c s" and s': "thr s' = (thr s)(t := x)"
    and x: "\<And>q p. x = Inside q p \<Longrightarrow> steps_keep (same_held (HMutex m)) p"
      "inside_lock lock m x = inside_lock lock m (thr s t)"
    and held: "held (HMutex m) (trace (shared s')) = held (HMutex m) (trace (shared s))"
  shows "mutex_inv c s'"
proof -
  have "inside_lock lock m (thr s' u) = inside_lock lock m (thr s u)" for u using s' x(2) by simp
  then show ?thesis using held mutex_invD(2) [OF inv] x(1) by (intro mutex_inv_upd [OF inv s']) simp_all
qed

lemma other_lock_held:
  "l \<noteq> Some m \<Longrightarrow> held (HMutex m) (trace (lock_event ELock l s)) = held (HMutex m) (trace s)"
  "l \<noteq> Some m \<Longrightarrow> held (HMutex m) (trace (lock_event EUnlock l s)) = held (HMutex m) (trace s)"
  by (cases l; simp)+

lemma mutex_step:
  assumes wf: "threads_wf ok lock n (thr s)" and inv: "mutex_inv c s" and step: "pool_step ok lock body n s s'"
  shows "mutex_inv c s'"
  using step
proof (cases rule: pool_step.cases)
  case (arrive t q)
  then show ?thesis by (intro mutex_inv_outside [OF inv, where t = t and x = "Queued q"]) simp_all
next
  case (enter t q)
  have body: "steps_keep (same_held (HMutex m)) (body q)"
    using body_keeps threads_wf_busy [OF wf, of t] enter(2) by simp
  show ?thesis
  proof (cases "lock q = Some m")
    case True
    then have "inside_lock lock m (thr s' t)" using enter(1) by simp
    moreover have "\<not> (\<exists>u. inside_lock lock m (thr s u))" using enter(3) True by blast
    ultimately have "held (HMutex m) (trace (shared s')) = c + (if \<exists>u. inside_lock lock m (thr s' u) then 1 else 0)"
      using mutex_invD(2) [OF inv] enter(1) True by (simp only: if_P [OF exI]) simp
    then show ?thesis using enter(1) body by (intro mutex_inv_upd [OF inv, where t = t]) auto
  next
    case False
    then show ?thesis using enter body
      by (intro mutex_inv_outside [OF inv, where t = t and x = "Inside q (body q)"]) (simp_all add: other_lock_held)
  qed
next
  case (work t q g k)
  then show ?thesis using mutex_invD(1) [OF inv work(2)]
    by (intro mutex_inv_outside [OF inv, where t = t and x = "Inside q (k (shared s))"]) (simp_all add: same_held_def)
next
  case (leave t q r)
  show ?thesis
  proof (cases "lock q = Some m")
    case True
    then have t: "inside_lock lock m (thr s t)" using leave(2) by simp
    then have "held (HMutex m) (trace (shared s)) = c + 1" using mutex_invD(2) [OF inv] by (simp only: if_P [OF exI])
    moreover have "\<not> inside_lock lock m (thr s' u)" for u
      using threads_wf_alone [OF wf t, of u] leave(1) by simp
    ultimately show ?thesis using leave(1) True by (intro mutex_inv_upd [OF inv, where t = t and x = Idle]) simp_all
  next
    case False
    then show ?thesis using leave
      by (intro mutex_inv_outside [OF inv, where t = t and x = Idle]) (simp_all add: other_lock_held)
  qed
qed

lemma mutex_reach:
  assumes "reach (pool_start s0) (pool_step ok lock body n) s"
  shows "mutex_inv (held (HMutex m) (trace s0)) s"
  by (rule pool_wf.reach_with_inv [OF assms _ mutex_step]) (simp_all add: mutex_inv_def pool_start_def)

lemma mutex_held:
  assumes "reach (pool_start s0) (pool_step ok lock body n) s"
  shows "held (HMutex m) (trace (shared s)) =
      held (HMutex m) (trace s0) + (if \<exists>t. inside_lock lock m (thr s t) then 1 else 0) \<and>
    (\<forall>t u. inside_lock lock m (thr s t) \<longrightarrow> inside_lock lock m (thr s u) \<longrightarrow> t = u)"
  using mutex_reach [OF assms] pool_wf.inv_reach [OF assms] unfolding mutex_inv_def threads_wf_def by blast

end

section \<open>Invariants and answers\<close>

text \<open>
  An invariant of the shared state that every step of every call keeps, wherever it is interrupted,
  and what each answer then satisfies.
\<close>

fun thread_post :: "('w sys \<Rightarrow> bool) \<Rightarrow> (request \<Rightarrow> response \<Rightarrow> bool) \<Rightarrow> 'w thread \<Rightarrow> bool" where
  "thread_post I Q (Inside q p) \<longleftrightarrow> steps_post I (Q q) p"
| "thread_post I Q _ \<longleftrightarrow> True"

definition pool_post :: "('w sys \<Rightarrow> bool) \<Rightarrow> (request \<Rightarrow> response \<Rightarrow> bool) \<Rightarrow> 'w pool \<Rightarrow> bool" where
  "pool_post I Q s \<longleftrightarrow> I (shared s) \<and> (\<forall>t. thread_post I Q (thr s t)) \<and> (\<forall>(t, q, r) \<in> set (served s). Q q r)"

locale pool_answer =
  fixes ok :: "request \<Rightarrow> bool" and lock :: "request \<Rightarrow> mutex option"
    and body :: "request \<Rightarrow> ('w sys, response) prog" and I :: "'w sys \<Rightarrow> bool"
    and Q :: "request \<Rightarrow> response \<Rightarrow> bool"
  assumes body_post: "ok q \<Longrightarrow> steps_post I (Q q) (body q)"
    and lock_inv: "I s \<Longrightarrow> I (lock_event ELock l s)" "I s \<Longrightarrow> I (lock_event EUnlock l s)"
begin

lemma post_step:
  assumes wf: "threads_wf ok lock n (thr s)" and inv: "pool_post I Q s" and step: "pool_step ok lock body n s s'"
  shows "pool_post I Q s'"
  using step
proof (cases rule: pool_step.cases)
  case (enter t q)
  then show ?thesis using body_post threads_wf_busy [OF wf, of t] lock_inv(1) inv by (simp add: pool_post_def)
next
  case (work t q g k)
  have "thread_post I Q (thr s t)" using inv by (simp add: pool_post_def)
  then show ?thesis using work inv by (simp add: pool_post_def)
next
  case (leave t q r)
  have "thread_post I Q (thr s t)" using inv by (simp add: pool_post_def)
  then show ?thesis using leave inv lock_inv(2) by (simp add: pool_post_def)
qed (use inv in \<open>simp add: pool_post_def\<close>)

lemma post_reach:
  assumes "reach (pool_start s0) (pool_step ok lock body n) s" "I s0"
  shows "pool_post I Q s"
  by (rule pool_wf.reach_with_inv [OF assms(1) _ post_step]) (simp_all add: pool_start_def pool_post_def assms(2))

end

end
