(* ===== verification/PoolOps.thy ===== *)
theory PoolOps
  imports PoolLaws
begin

text \<open>
  The calls of the service on the threads of the pool: every function as a program of one step for
  each system call; run without interruption each is the function of its component
  (\<open>uninterrupted_calls\<close>).  Functions with at most one system call, which read a property, the size
  of a file system or a field of the board, are one step.
\<close>

section \<open>Commands\<close>

definition mySystem_prog :: "'w platform \<Rightarrow> string option \<Rightarrow> ('w sys, cint) prog" where
  "mySystem_prog P cmd =
     (case cmd of
        None \<Rightarrow> Done (- 1)
      | Some c \<Rightarrow>
          if c = [] then Done (- 1)
          else seq (prim (signal_sigchld SIG_DFL)) (\<lambda>old_handler.
               seq (prim (system P c)) (\<lambda>ret.
               seq (prim (signal_sigchld old_handler)) (\<lambda>_.
               Done ret))))"

definition executeCmd_prog :: "'w platform \<Rightarrow> string option \<Rightarrow> cbuf \<Rightarrow> nat \<Rightarrow> ('w sys, cbuf) prog" where
  "executeCmd_prog P cmd result n =
     (case cmd of
        None \<Rightarrow> Done result
      | Some c \<Rightarrow>
          if c = [] then Done result
          else seq (prim (popen P c)) (\<lambda>ptr.
            (case ptr of
               None \<Rightarrow> Done result
             | Some out \<Rightarrow>
                 let buf = fill n out 0 result
                 in seq (prim (note_overrun (length result) buf)) (\<lambda>_.
                    seq (prim (emit EPclose)) (\<lambda>_.
                    Done buf)))))"

section \<open>Files and logs\<close>

definition checkFileMode_prog :: "'w platform \<Rightarrow> string \<Rightarrow> string \<Rightarrow> nat \<Rightarrow> ('w sys, bool) prog" where
  "checkFileMode_prog P path mode modeLen =
     (if modeLen = 3 then
        (let cmd = fmt_buf SIZE_1K_HALF (stat_line3 path)
         in seq (executeCmd_prog P (Some cmd) (zeroed SIZE_1K_HALF) SIZE_1K_HALF) (\<lambda>checkMode.
            if \<not> strncmp_eq checkMode mode 3 then Done False else Done True))
      else if modeLen = 4 then
        (let cmd = fmt_buf SIZE_1K_HALF (stat_line4 path)
         in seq (executeCmd_prog P (Some cmd) (zeroed SIZE_1K_HALF) SIZE_1K_HALF) (\<lambda>checkMode.
            if \<not> strncmp_eq checkMode mode 4 then Done False else Done True))
      else Done False)"

definition chmodFile_prog :: "'w platform \<Rightarrow> str16 \<Rightarrow> str16 \<Rightarrow> ('w sys, bool) prog" where
  "chmodFile_prog P path mode =
     (if mode = to16 P [] then Done False
      else seq (prim (access P (c_str P path))) (\<lambda>there.
        if there then seq (prim (opendir P (c_str P path))) (\<lambda>dir.
          if dir then Done False
          else let res = fmt_buf SIZE_1K (''chmod '' @ c_str P mode @ '' '' @ c_str P path)
            in seq (mySystem_prog P (Some res)) (\<lambda>ret.
              if sint ret < 0 then Done False
              else seq (checkFileMode_prog P (c_str P path) (c_str P mode) (length (c_str P mode))) (\<lambda>ok.
                if \<not> ok then Done False else Done True)))
        else Done False))"

definition chmodDir_prog :: "'w platform \<Rightarrow> str16 \<Rightarrow> str16 \<Rightarrow> ('w sys, bool) prog" where
  "chmodDir_prog P path mode =
     (if mode = to16 P [] \<or> path = to16 P [] then Done False
      else seq (prim (opendir P (c_str P path))) (\<lambda>dir.
        if dir then
          (let res = fmt_buf SIZE_1K (''chmod -R '' @ c_str P mode @ '' '' @ c_str P path)
           in seq (mySystem_prog P (Some res)) (\<lambda>ret.
             if sint ret < 0 then Done False
             else seq (checkFileMode_prog P (c_str P path) (c_str P mode) (length (c_str P mode))) (\<lambda>ok.
               if \<not> ok then Done False else Done True)))
        else Done False))"

definition rmFile_prog :: "'w platform \<Rightarrow> str16 \<Rightarrow> ('w sys, bool) prog" where
  "rmFile_prog P path =
     (if path = to16 P [] then Done False
      else seq (prim (access P (c_str P path))) (\<lambda>there.
        if there then seq (prim (opendir P (c_str P path))) (\<lambda>dir.
          if dir then Done False
          else let res = fmt_buf SIZE_1K (''rm -f '' @ c_str P path)
            in seq (mySystem_prog P (Some res)) (\<lambda>ret.
              if sint ret < 0 then Done False else Done True))
        else Done False))"

definition ensure_tombstones_prog :: "'w platform \<Rightarrow> ('w sys, bool) prog" where
  "ensure_tombstones_prog P = seq (prim (access P TOMBSTONES)) (\<lambda>there.
     if there then Done True
     else seq (mySystem_prog P (Some ''mkdir /data/tombstones'')) (\<lambda>ret.
       if sint ret < 0 then Done False
       else seq (chmodDir_prog P (to16 P ''/data/tombstones'') (to16 P ''766'')) (\<lambda>ok.
         if \<not> ok then Done False else Done True)))"

definition collect_prog :: "'w platform \<Rightarrow> str16 \<Rightarrow> ('w sys, bool) prog" where
  "collect_prog P zipFilename = seq (mySystem_prog P (Some ''save_systeminfo'')) (\<lambda>ret1.
     if sint ret1 < 0 then Done False
     else seq (prim (access P SYSTEM_LOG)) (\<lambda>a1.
     if \<not> a1 then Done False
     else seq (ensure_tombstones_prog P) (\<lambda>go.
     if \<not> go then Done False
     else seq (prim (access P CLIENT_LOG)) (\<lambda>a2.
     if \<not> a2 then Done False
     else seq (prim (access P PROC_LAST_LOG)) (\<lambda>a3.
     if \<not> a3 then Done False
     else seq (mySystem_prog P (Some (fmt_buf SIZE_1K (tar_line P)))) (\<lambda>ret2.
     if sint ret2 < 0 then Done False
     else seq (mySystem_prog P (Some (fmt_buf SIZE_1K (mv_line (c_str P zipFilename))))) (\<lambda>ret3.
     if sint ret3 < 0 then Done False
     else seq (prim (emit ESync)) (\<lambda>_. Done True))))))))"

section \<open>The bandwidth check\<close>

definition bandwidth_prog :: "'w platform \<Rightarrow> str16 \<Rightarrow> str16 \<Rightarrow> str16 \<Rightarrow> ('w sys, str16) prog" where
  "bandwidth_prog P serverIp user code =
     (if check_ipaddr P (c_str P serverIp) \<noteq> 0 then Done (to16 P [])
      else let cmd_down = fmt_buf SIZE_1K
              (if length user = 0 \<and> length code = 0 then wget_line (c_str P serverIp)
               else wget_auth_line (c_str P user) (c_str P code) (c_str P serverIp))
        in seq (prim (on_world (pf_time P))) (\<lambda>t_start.
           seq (executeCmd_prog P (Some cmd_down) (zeroed SIZE_1K) SIZE_1K) (\<lambda>_.
           seq (prim (access P bandtmpfile)) (\<lambda>there.
           if there then seq (prim (on_world (pf_time P))) (\<lambda>t_end.
             let cmd_size = fmt_buf SIZE_1K du_line
             in seq (executeCmd_prog P (Some cmd_size) (zeroed SIZE_1K) SIZE_1K) (\<lambda>result.
                if result ! 0 = NUL then Done (to16 P [])
                else let buf_size = scan_size result
                  in seq (prim (note_overrun SIZE_1K_HALF buf_size)) (\<lambda>_.
                     let speed_str = fmt_buf SIZE_1K_HALF (rate_text buf_size (t_end - t_start))
                     in seq (mySystem_prog P (Some (fmt_buf SIZE_1K (''rm '' @ bandtmpfile)))) (\<lambda>_.
                        Done (to16 P speed_str)))))
           else Done (to16 P [])))))"

section \<open>Processes and the avahi daemon\<close>

definition getProcessId_prog :: "'w platform \<Rightarrow> str16 \<Rightarrow> ('w sys, str16) prog" where
  "getProcessId_prog P processname =
     (let cmd = fmt_buf SIZE_1K_HALF (''pidof '' @ c_str P processname)
      in seq (executeCmd_prog P (Some cmd) (zeroed SIZE_1K_HALF) SIZE_1K_HALF) (\<lambda>res.
         if res ! 0 = NUL then Done (to16 P []) else Done (to16 P (cstr res))))"

definition killByProcessName_prog :: "'w platform \<Rightarrow> str16 \<Rightarrow> ('w sys, unit) prog" where
  "killByProcessName_prog P processname = seq (getProcessId_prog P processname) (\<lambda>processPid.
     if processPid = to16 P [] then Done ()
     else let cmd = fmt_buf SIZE_1K_HALF (''kill -9 '' @ c_str P processPid)
       in seq (mySystem_prog P (Some cmd)) (\<lambda>_. Done ()))"

definition getNetcardState_prog :: "'w platform \<Rightarrow> ('w sys, bool) prog" where
  "getNetcardState_prog P = seq (executeCmd_prog P (Some CMD_LINK) (zeroed SIZE_1K) SIZE_1K) (\<lambda>result.
     if strncmp_eq result ''yes'' 3 then Done True
     else if strncmp_eq result ''no'' 2 then Done False
     else Done False)"

definition startAvahi_prog :: "'w platform \<Rightarrow> ('w sys, unit) prog" where
  "startAvahi_prog P = seq (prim (access P ''/data/data/org.freedesktop.telepathy/files'')) (\<lambda>dir.
     seq (if \<not> dir then prim (access P ''/system/bin/config_avahi.sh'') else Done False) (\<lambda>conf.
     seq (if \<not> dir \<and> conf
          then seq (mySystem_prog P (Some AVAHI_CONFIG)) (\<lambda>ret. Done (\<not> sint ret < 0))
          else Done True) (\<lambda>go.
     if \<not> go then Done ()
     else seq (prim (access P ''/system/bin/avahi-autoipd_action.sh'')) (\<lambda>action.
       if action then
         seq (getNetcardState_prog P) (\<lambda>link.
         seq (if link then getProcessId_prog P (to16 P ''avahi-autoipd'') else Done (to16 P [])) (\<lambda>pid.
         seq (if link \<and> pid \<noteq> to16 P []
              then seq (mySystem_prog P (Some AVAHI_KILL)) (\<lambda>ret. Done (\<not> sint ret < 0))
              else Done True) (\<lambda>go2.
         if \<not> go2 then Done ()
         else seq (mySystem_prog P (Some AVAHI_START)) (\<lambda>_. Done ()))))
       else Done ()))))"

definition stopAvahi_prog :: "'w platform \<Rightarrow> ('w sys, unit) prog" where
  "stopAvahi_prog P = seq (prim (access P ''/system/bin/shutdown_avahi.sh'')) (\<lambda>there.
     if there then seq (mySystem_prog P (Some CMD_STOPAVAHI)) (\<lambda>_. Done ()) else Done ())"

section \<open>Power and LEDs\<close>

definition setPowerState_prog :: "'w platform \<Rightarrow> cint \<Rightarrow> ('w sys, unit) prog" where
  "setPowerState_prog P powerState =
     (if sint powerState < 0 \<or> 1 < sint powerState then Done ()
      else seq (prim (asks mProductType)) (\<lambda>t.
        if no_power_mode P t then Done ()
        else let res = fmt_buf 128 (''beginmode '' @ show_dec (sint powerState))
          in seq (mySystem_prog P (Some res)) (\<lambda>_. Done ())))"

definition setLedStatus_prog :: "'w platform \<Rightarrow> cint \<Rightarrow> cint \<Rightarrow> ('w sys, unit) prog" where
  "setLedStatus_prog P color st =
     (if sint color < 0 \<or> 2 < sint color then Done ()
      else if sint st < 0 \<or> 1 < sint st then Done ()
      else seq (prim (asks mProductType)) (\<lambda>t.
        if t \<noteq> to16 P ''Rain200S'' then Done ()
        else let res = fmt_buf 128 (set_led_line color st)
          in seq (mySystem_prog P (Some res)) (\<lambda>_. Done ())))"

definition reboot_prog :: "'w platform \<Rightarrow> ('w sys, unit) prog" where
  "reboot_prog P = seq (mySystem_prog P (Some ''reboot'')) (\<lambda>_. Done ())"

definition shutdown_prog :: "'w platform \<Rightarrow> ('w sys, unit) prog" where
  "shutdown_prog P = seq (mySystem_prog P (Some ''reboot -p'')) (\<lambda>_. Done ())"

section \<open>The vendor sector\<close>

definition resolution_prog :: "'w platform \<Rightarrow> cint \<Rightarrow> cint \<Rightarrow> cint \<Rightarrow> cint \<Rightarrow> ('w sys, bool) prog" where
  "resolution_prog P xres yres refresh flag =
     (if sint refresh < 0 \<or> 100 < sint refresh then Done False
      else if sint flag < 0 \<or> 1 < sint flag then Done False
      else if sint xres < 800 \<or> 2560 < sint xres then Done False
      else if sint yres < 600 \<or> 1600 < sint yres then Done False
      else seq (prim (do {
             fd \<leftarrow> asks (\<lambda>s. pf_open P RKNAND_DEVICE (world s));
             emit (EOpen RKNAND_DEVICE (0 \<le> sint fd));
             State_Monad.return fd })) (\<lambda>fd.
        if sint fd < 0 then Done False
        else seq (prim (ioctl P GET_VENDOR_SECTOR0 (stamp_sector (pf_stack P)))) (\<lambda>(ret1, sd1).
        if sint ret1 < 0 then seq (prim (emit EClose)) (\<lambda>_. Done False)
        else let sd2 = stamp_sector sd1;
                 sd3 = sd2\<lparr>vs_data := put_resolution xres yres refresh flag (vs_data sd2)\<rparr>
          in seq (prim (ioctl P STORE_VENDOR_SECTOR0 sd3)) (\<lambda>(ret2, sd4).
        if sint ret2 < 0 then seq (prim (emit EClose)) (\<lambda>_. Done False)
        else seq (prim (ioctl P GET_VENDOR_SECTOR0 (stamp_sector sd4))) (\<lambda>(ret3, sd5).
        if sint ret3 < 0 then seq (prim (emit EClose)) (\<lambda>_. Done False)
        else seq (prim (emit EClose)) (\<lambda>_. Done True))))))"

section \<open>Queries\<close>

text \<open>The first line of the output of a command, or the empty string.\<close>

definition first_line_prog :: "'w platform \<Rightarrow> string \<Rightarrow> ('w sys, str16) prog" where
  "first_line_prog P cmd = seq (executeCmd_prog P (Some cmd) (zeroed SIZE_1K) SIZE_1K) (\<lambda>result.
     if result ! 0 = NUL then Done (to16 P []) else Done (to16 P (cstr (chomp result))))"

definition getNetcardCurSpeed_prog :: "'w platform \<Rightarrow> ('w sys, str16) prog" where
  "getNetcardCurSpeed_prog P = first_line_prog P CMD_NETCARDCURSPEED"

definition getCurrentResolution_prog :: "'w platform \<Rightarrow> ('w sys, str16) prog" where
  "getCurrentResolution_prog P = first_line_prog P WM_CMD"

definition getNetcardMaxSpeed_prog :: "'w platform \<Rightarrow> ('w sys, str16) prog" where
  "getNetcardMaxSpeed_prog P = seq (executeCmd_prog P (Some CMD_MAXSPEED) (zeroed SIZE_1K) SIZE_1K) (\<lambda>result.
     if contains (cstr result) ''1000baseT/Full'' then Done (to16 P ''1000'')
     else if contains (cstr result) ''100baseT/Full'' then Done (to16 P ''100'')
     else if contains (cstr result) ''10baseT/Full'' then Done (to16 P ''10'')
     else Done (to16 P []))"

definition checkIpConflict_prog :: "'w platform \<Rightarrow> str16 \<Rightarrow> ('w sys, str16) prog" where
  "checkIpConflict_prog P ip =
     (if check_ipaddr P (c_str P ip) \<noteq> 0 then Done (to16 P [])
      else seq (getNetcardState_prog P) (\<lambda>link.
        if \<not> link then Done (to16 P [])
        else first_line_prog P (fmt_buf SIZE_1K (checkip_line (c_str P ip)))))"

definition ping_prog :: "'w platform \<Rightarrow> str16 \<Rightarrow> cint \<Rightarrow> cint \<Rightarrow> cint \<Rightarrow> ('w sys, str16) prog" where
  "ping_prog P ip count timeout deadline =
     (if check_ipaddr P (c_str P ip) \<noteq> 0 then Done (to16 P [])
      else if sint count \<le> 0 \<or> sint timeout < 0 \<or> sint deadline < 0 then Done (to16 P [])
      else first_line_prog P (fmt_buf SIZE_1K (ping_line (c_str P ip) count timeout deadline)))"

definition getOtaResult_prog :: "'w platform \<Rightarrow> ('w sys, bool) prog" where
  "getOtaResult_prog P = seq (executeCmd_prog P (Some OTA_CMD) (zeroed SIZE_1K) SIZE_1K) (\<lambda>result.
     if result ! 0 = NUL then Done False
     else let ota_res = (case scan_word ''updateFlag='' (cstr result) of
                           None \<Rightarrow> zeroed SIZE_1K
                         | Some w \<Rightarrow> poke 0 (w @ [NUL]) (zeroed SIZE_1K))
       in seq (prim (note_overrun SIZE_1K ota_res)) (\<lambda>_.
          Done (strncmp_eq ota_res ''UPDATE_SUCCESS'' 15)))"

definition isProcessRunning_prog :: "'w platform \<Rightarrow> str16 \<Rightarrow> ('w sys, bool) prog" where
  "isProcessRunning_prog P processname =
     (let cmd = fmt_buf SIZE_1K_HALF (''pidof '' @ c_str P processname)
      in seq (executeCmd_prog P (Some cmd) (zeroed SIZE_1K) SIZE_1K) (\<lambda>res.
         if res ! 0 \<noteq> NUL then Done True else Done False))"

definition getCpuInfo_prog :: "'w platform \<Rightarrow> ('w sys, str16) prog" where
  "getCpuInfo_prog P = seq (executeCmd_prog P (Some CPU_CMD) (zeroed SIZE_1K) SIZE_1K) (\<lambda>res.
     if res ! 0 = NUL then Done (to16 P [])
     else let len = length (cstr res);
              res1 = (if res ! (len - 1) = NL then res[len - 1 := CHR '' ''] else res)
       in seq (prim (property_get P ''ro.product.name'' (zeroed SIZE_1K) None)) (\<lambda>(ret, sub).
          if ret \<le> 0 then Done (to16 P [])
          else let res2 = strcat res1 (cstr (litConverBig sub));
                   res3 = strcat res2 SUFFIX
            in seq (prim (note_overrun SIZE_1K res3)) (\<lambda>_. Done (to16 P (cstr res3)))))"

definition getMemoryInfo_prog :: "'w platform \<Rightarrow> ('w sys, str16) prog" where
  "getMemoryInfo_prog P = seq (executeCmd_prog P (Some MEM_CMD) (zeroed SIZE_1K) SIZE_1K) (\<lambda>res.
     if res ! 0 = NUL then Done (to16 P [])
     else let (memval, unit) = scale_mem (sint (atoi (long_bits P) (cstr res)));
              text = fmt_buf SIZE_1K (show_dec memval @ [unit])
       in Done (to16 P text))"

definition getPowerState_prog :: "'w platform \<Rightarrow> ('w sys, cint) prog" where
  "getPowerState_prog P = seq (prim (asks mProductType)) (\<lambda>t.
     if no_power_mode P t then Done 0
     else seq (executeCmd_prog P (Some ''beginmode 2'') (zeroed SIZE_1K) SIZE_1K) (\<lambda>res.
       Done (first_digit P res)))"

definition getLedStatus_prog :: "'w platform \<Rightarrow> cint \<Rightarrow> ('w sys, cint) prog" where
  "getLedStatus_prog P color =
     (if sint color < 0 \<or> 2 < sint color then Done (- 1)
      else seq (prim (asks mProductType)) (\<lambda>t.
        if t \<noteq> to16 P ''Rain200S'' then Done (- 1)
        else let cmd = fmt_buf 128 (get_led_line color)
          in seq (executeCmd_prog P (Some cmd) (zeroed 128) 128) (\<lambda>res. Done (first_digit P res))))"

definition getSupportResolution_prog :: "'w platform \<Rightarrow> ('w sys, str16) prog" where
  "getSupportResolution_prog P = seq (prim (fopen P LCDINFO_PATH ''rb'')) (\<lambda>file.
     (case file of
        None \<Rightarrow> Done (to16 P [])
      | Some f \<Rightarrow>
          let (bytes, f1) = fread f RESOLUTION_INFO_LEN;
              buf = poke 0 bytes (zeroed RESOLUTION_INFO_LEN)
          in if length bytes \<noteq> RESOLUTION_INFO_LEN
             then seq (prim (emit EFclose)) (\<lambda>_. Done (to16 P []))
             else let res = foldl (support_round (support_mask P buf)) (zeroed SIZE_1K) [1..<MAX_RESOLUTION_SUPPORT]
               in seq (prim (note_overrun SIZE_1K res)) (\<lambda>_.
                  seq (prim (emit EFclose)) (\<lambda>_.
                  Done (to16 P (cstr (drop_comma res)))))))"

section \<open>Every call\<close>

definition refuses_zip :: "'w platform \<Rightarrow> str16 \<Rightarrow> bool" where
  "refuses_zip P zipFilename \<longleftrightarrow>
     zipFilename = to16 P [] \<or> \<not> contains (c_str P zipFilename) ''.zip''"

fun pool_lock :: "'w platform \<Rightarrow> request \<Rightarrow> mutex option" where
  "pool_lock P (Req_collectLogFiles_block zipFilename) = (if refuses_zip P zipFilename then None else Some LogLock)"
| "pool_lock P (Req_checkBandwidth_block serverIp user code) = Some NetLock"
| "pool_lock P _ = None"

fun pool_prog :: "'w platform \<Rightarrow> request \<Rightarrow> ('w sys, response) prog" where
  "pool_prog P (Req_collectLogFiles_block zipFilename) =
     (if refuses_zip P zipFilename then Done (RBool False)
      else seq (collect_prog P zipFilename) (\<lambda>b. Done (RBool b)))"
| "pool_prog P (Req_checkBandwidth_block serverIp user code) =
     seq (bandwidth_prog P serverIp user code) (\<lambda>x. Done (RStr x))"
| "pool_prog P (Req_setDeviceResolution x y r f) = seq (resolution_prog P x y r f) (\<lambda>b. Done (RBool b))"
| "pool_prog P (Req_chmodFile path mode) = seq (chmodFile_prog P path mode) (\<lambda>b. Done (RBool b))"
| "pool_prog P (Req_chmodDir path mode) = seq (chmodDir_prog P path mode) (\<lambda>b. Done (RBool b))"
| "pool_prog P (Req_rmFile path) = seq (rmFile_prog P path) (\<lambda>b. Done (RBool b))"
| "pool_prog P (Req_killByProcessName n) = seq (killByProcessName_prog P n) (\<lambda>_. Done RUnit)"
| "pool_prog P Req_startAvahi = seq (startAvahi_prog P) (\<lambda>_. Done RUnit)"
| "pool_prog P Req_stopAvahi = seq (stopAvahi_prog P) (\<lambda>_. Done RUnit)"
| "pool_prog P (Req_setPowerState st) = seq (setPowerState_prog P st) (\<lambda>_. Done RUnit)"
| "pool_prog P (Req_setLedStatus color st) = seq (setLedStatus_prog P color st) (\<lambda>_. Done RUnit)"
| "pool_prog P Req_reboot = seq (reboot_prog P) (\<lambda>_. Done RUnit)"
| "pool_prog P Req_shutdown = seq (shutdown_prog P) (\<lambda>_. Done RUnit)"
| "pool_prog P Req_getCpuInfo = seq (getCpuInfo_prog P) (\<lambda>x. Done (RStr x))"
| "pool_prog P Req_getMemoryInfo = seq (getMemoryInfo_prog P) (\<lambda>x. Done (RStr x))"
| "pool_prog P Req_getPowerState = seq (getPowerState_prog P) (\<lambda>x. Done (RInt x))"
| "pool_prog P (Req_getLedStatus color) = seq (getLedStatus_prog P color) (\<lambda>x. Done (RInt x))"
| "pool_prog P Req_getCurrentResolution_block = seq (getCurrentResolution_prog P) (\<lambda>x. Done (RStr x))"
| "pool_prog P Req_getSupportResolution = seq (getSupportResolution_prog P) (\<lambda>x. Done (RStr x))"
| "pool_prog P Req_getNetcardState = seq (getNetcardState_prog P) (\<lambda>b. Done (RBool b))"
| "pool_prog P Req_getNetcardCurSpeed = seq (getNetcardCurSpeed_prog P) (\<lambda>x. Done (RStr x))"
| "pool_prog P Req_getNetcardMaxSpeed = seq (getNetcardMaxSpeed_prog P) (\<lambda>x. Done (RStr x))"
| "pool_prog P (Req_checkIpConflict_block ip) = seq (checkIpConflict_prog P ip) (\<lambda>x. Done (RStr x))"
| "pool_prog P (Req_ping_block ip c t d) = seq (ping_prog P ip c t d) (\<lambda>x. Done (RStr x))"
| "pool_prog P Req_getOtaResult = seq (getOtaResult_prog P) (\<lambda>b. Done (RBool b))"
| "pool_prog P (Req_isProcessRunning n) = seq (isProcessRunning_prog P n) (\<lambda>b. Done (RBool b))"
| "pool_prog P (Req_getProcessId n) = seq (getProcessId_prog P n) (\<lambda>x. Done (RStr x))"
| "pool_prog P q = prim (perform (RjcoreService P) q)"

lemma uninterrupted_case_prod [uninterrupted_simps]:
  "uninterrupted (case x of (a, b) \<Rightarrow> p a b) = (case x of (a, b) \<Rightarrow> uninterrupted (p a b))"
  by (cases x) simp

lemma uninterrupted_mySystem [uninterrupted_simps]: "uninterrupted (mySystem_prog P cmd) = mySystem P cmd"
  by (cases cmd) (simp_all add: mySystem_prog_def mySystem_def uninterrupted_simps cong: if_cong option.case_cong)

lemma uninterrupted_executeCmd [uninterrupted_simps]:
  "uninterrupted (executeCmd_prog P cmd result n) = executeCmd P cmd result n"
  by (cases cmd) (simp_all add: executeCmd_prog_def executeCmd_def uninterrupted_simps Let_def cong: if_cong option.case_cong)

lemma uninterrupted_checkFileMode [uninterrupted_simps]:
  "uninterrupted (checkFileMode_prog P path mode n) = checkFileMode P path mode n"
  by (simp add: checkFileMode_prog_def checkFileMode_def uninterrupted_simps Let_def cong: if_cong option.case_cong)

lemma uninterrupted_files [uninterrupted_simps]:
  "uninterrupted (chmodFile_prog P path mode) = chmodFile P path mode"
  "uninterrupted (chmodDir_prog P path mode) = chmodDir P path mode"
  "uninterrupted (rmFile_prog P path) = rmFile P path"
  by (simp_all add: chmodFile_prog_def chmodFile_def chmodDir_prog_def chmodDir_def rmFile_prog_def rmFile_def
      uninterrupted_simps Let_def cong: if_cong option.case_cong)

lemma uninterrupted_tombstones [uninterrupted_simps]: "uninterrupted (ensure_tombstones_prog P) = ensure_tombstones P"
  by (simp add: ensure_tombstones_prog_def ensure_tombstones_def uninterrupted_simps cong: if_cong option.case_cong)

lemma uninterrupted_collect [uninterrupted_simps]: "uninterrupted (collect_prog P name) = collect_locked P name"
  by (simp add: collect_prog_def collect_locked_def uninterrupted_simps cong: if_cong option.case_cong)

lemma uninterrupted_bandwidth [uninterrupted_simps]:
  "uninterrupted (bandwidth_prog P ip user code) = bandwidth_locked P ip user code"
  by (simp add: bandwidth_prog_def bandwidth_locked_def check_str16_res_def uninterrupted_simps Let_def cong: if_cong option.case_cong)

lemma uninterrupted_processes [uninterrupted_simps]:
  "uninterrupted (getProcessId_prog P n) = getProcessId P n"
  "uninterrupted (killByProcessName_prog P n) = killByProcessName P n"
  "uninterrupted (getNetcardState_prog P) = getNetcardState P"
  "uninterrupted (startAvahi_prog P) = startAvahi P" "uninterrupted (stopAvahi_prog P) = stopAvahi P"
  by (simp_all add: getProcessId_prog_def getProcessId_def killByProcessName_prog_def killByProcessName_def
      getNetcardState_prog_def getNetcardState_def startAvahi_prog_def startAvahi_def
      stopAvahi_prog_def stopAvahi_def check_str16_res_def uninterrupted_simps Let_def cong: if_cong option.case_cong)

lemma uninterrupted_switches [uninterrupted_simps]:
  "uninterrupted (setPowerState_prog P st) = setPowerState P st"
  "uninterrupted (setLedStatus_prog P color st) = setLedStatus P color st"
  "uninterrupted (reboot_prog P) = reboot P" "uninterrupted (shutdown_prog P) = shutdown P"
  by (simp_all add: setPowerState_prog_def setPowerState_def setLedStatus_prog_def setLedStatus_def
      reboot_prog_def reboot_def shutdown_prog_def shutdown_def uninterrupted_simps Let_def cong: if_cong option.case_cong)

lemma uninterrupted_queries [uninterrupted_simps]:
  "uninterrupted (getNetcardCurSpeed_prog P) = getNetcardCurSpeed P"
  "uninterrupted (getCurrentResolution_prog P) = getCurrentResolution_block P"
  "uninterrupted (getNetcardMaxSpeed_prog P) = getNetcardMaxSpeed P"
  "uninterrupted (checkIpConflict_prog P ip) = checkIpConflict_block P ip"
  "uninterrupted (ping_prog P ip c t d) = ping_block P ip c t d"
  "uninterrupted (isProcessRunning_prog P n) = isProcessRunning P n"
  "uninterrupted (getPowerState_prog P) = getPowerState P"
  "uninterrupted (getLedStatus_prog P color) = getLedStatus P color"
  by (simp_all add: first_line_prog_def getNetcardCurSpeed_prog_def getNetcardCurSpeed_def
      getCurrentResolution_prog_def getCurrentResolution_block_def getNetcardMaxSpeed_prog_def getNetcardMaxSpeed_def
      checkIpConflict_prog_def checkIpConflict_block_def ping_prog_def ping_block_def isProcessRunning_prog_def
      isProcessRunning_def getPowerState_prog_def getPowerState_def getLedStatus_prog_def getLedStatus_def
      check_str16_res_def uninterrupted_simps Let_def cong: if_cong)

lemma uninterrupted_infos [uninterrupted_simps]:
  "uninterrupted (getOtaResult_prog P) = getOtaResult P"
  "uninterrupted (getCpuInfo_prog P) = getCpuInfo P"
  "uninterrupted (getMemoryInfo_prog P) = getMemoryInfo P"
  "uninterrupted (getSupportResolution_prog P) = getSupportResolution P"
  by (simp_all add: getOtaResult_prog_def getOtaResult_def getCpuInfo_prog_def getCpuInfo_def
      getMemoryInfo_prog_def getMemoryInfo_def getSupportResolution_prog_def getSupportResolution_def
      check_str16_res_def uninterrupted_simps Let_def case_prod_unfold cong: if_cong option.case_cong)

lemma uninterrupted_resolution [uninterrupted_simps]:
  "uninterrupted (resolution_prog P x y r f) = setDeviceResolution P x y r f"
  by (simp add: resolution_prog_def setDeviceResolution_def uninterrupted_simps Let_def cong: if_cong option.case_cong)

lemma respond_with_lock: "respond f (with_lock m b) = with_lock m (respond f b)"
  by (intro state_ext) (simp add: respond_def with_lock_def case_prod_beta)

lemma uninterrupted_respond [uninterrupted_simps]:
  "uninterrupted (seq p (\<lambda>x. Done (f x))) = respond f (uninterrupted p)"
  by (intro state_ext) (simp add: respond_def exec_seq)

lemma respond_return: "respond f (State_Monad.return x) = State_Monad.return (f x)"
  by (intro state_ext) (simp add: respond_def)

lemma uninterrupted_calls:
  "perform (RjcoreService P) q =
    (case pool_lock P q of
       None \<Rightarrow> uninterrupted (pool_prog P q)
     | Some m \<Rightarrow> with_lock m (uninterrupted (pool_prog P q)))"
  by (cases q) (simp_all add: RjcoreService_def collectLogFiles_block_def checkBandwidth_block_def refuses_zip_def
      respond_with_lock respond_return uninterrupted_respond uninterrupted_simps del: uninterrupted_seq)

end
