(* ===== verification/PoolKept.thy ===== *)
theory PoolKept
  imports PoolOps Ledger
begin

text \<open>
  What the programs of the calls take and give back, which invariants every step of them keeps, and
  with that the contracts of the pool on the service.
\<close>

section \<open>What the programs take and give back\<close>

lemma steps_keep_if [intro!]: "(b \<Longrightarrow> steps_keep R p) \<Longrightarrow> (\<not> b \<Longrightarrow> steps_keep R q) \<Longrightarrow> steps_keep R (if b then p else q)"
  by simp

lemma nets_if [intro!]: "(b \<Longrightarrow> nets \<mu> p d) \<Longrightarrow> (\<not> b \<Longrightarrow> nets \<mu> q d) \<Longrightarrow> nets \<mu> (if b then p else q) d"
  by simp

abbreviation holding :: "handle \<Rightarrow> 'w sys \<Rightarrow> int" where
  "holding h \<equiv> \<lambda>s. held h (trace s)"

lemma nets_prim_same: "keeps (same_held h) m \<Longrightarrow> nets (holding h) (prim m) 0"
  by (simp add: nets_prim keeps_def same_held_def)

lemma held_mySystem:
  "nets (holding h) (mySystem_prog P cmd) 0" "steps_keep (same_held h) (mySystem_prog P cmd)"
proof -
  show "steps_keep (same_held h) (mySystem_prog P cmd)"
    by (cases h; cases cmd)
      (auto simp: mySystem_prog_def keeps_def same_held_def prim_defs case_prod_beta
        intro!: steps_keep_seq steps_keep_prim [THEN iffD2])
  then show "nets (holding h) (mySystem_prog P cmd) 0"
    by (intro nets_keep) (simp add: same_held_def [abs_def])
qed

lemma held_executeCmd:
  "nets (holding h) (executeCmd_prog P cmd result n) 0"
  "steps_keep (same_held (HMutex m)) (executeCmd_prog P cmd result n)"
proof -
  show "nets (holding h) (executeCmd_prog P cmd result n) 0"
    by (cases h; cases cmd) (auto simp: executeCmd_prog_def seq_prim prim_defs case_prod_beta Let_def split: option.split)
  show "steps_keep (same_held (HMutex m)) (executeCmd_prog P cmd result n)"
    by (cases cmd) (auto simp: executeCmd_prog_def seq_prim prim_defs same_held_def case_prod_beta Let_def split: option.split)
qed

lemma nets_Done: "nets \<mu> (Done x) 0"
  by simp

lemma keep_Done: "steps_keep R (Done x)"
  by simp

lemmas nets_rules = nets_seq0 nets_Done nets_prim_same held_mySystem(1) held_executeCmd(1) held_frame.keeps_cmd
lemmas keep_rules = steps_keep_seq keep_Done steps_keep_prim [THEN iffD2] held_mySystem(2) held_executeCmd(2)
  held_frame.keeps_cmd

lemma held_checkFileMode:
  "nets (holding h) (checkFileMode_prog P path mode n) 0"
  "steps_keep (same_held (HMutex m)) (checkFileMode_prog P path mode n)"
  by (auto simp: checkFileMode_prog_def Let_def intro!: nets_rules)
     (auto simp: checkFileMode_prog_def Let_def intro!: keep_rules)

lemma held_files:
  assumes "h \<noteq> HDir"
  shows "nets (holding h) (chmodFile_prog P path mode) 0" "nets (holding h) (chmodDir_prog P path mode) 0"
    "nets (holding h) (rmFile_prog P path) 0"
  using assms
  by (auto simp: chmodFile_prog_def chmodDir_prog_def rmFile_prog_def Let_def
      intro!: nets_rules keeps_held_opendir held_checkFileMode)

lemma keep_files:
  "steps_keep (same_held (HMutex m)) (chmodFile_prog P path mode)"
  "steps_keep (same_held (HMutex m)) (chmodDir_prog P path mode)"
  "steps_keep (same_held (HMutex m)) (rmFile_prog P path)"
  by (auto simp: chmodFile_prog_def chmodDir_prog_def rmFile_prog_def Let_def
      intro!: keep_rules keeps_held_opendir held_checkFileMode)

lemma held_collect:
  "h \<noteq> HDir \<Longrightarrow> nets (holding h) (collect_prog P name) 0"
  "steps_keep (same_held (HMutex m)) (collect_prog P name)"
  by (auto simp: collect_prog_def ensure_tombstones_prog_def intro!: nets_rules held_files)
     (auto simp: collect_prog_def ensure_tombstones_prog_def intro!: keep_rules keep_files)

lemma held_bandwidth:
  "nets (holding h) (bandwidth_prog P ip user code) 0"
  "steps_keep (same_held (HMutex m)) (bandwidth_prog P ip user code)"
  by (auto simp: bandwidth_prog_def Let_def intro!: nets_rules)
     (auto simp: bandwidth_prog_def Let_def intro!: keep_rules)

lemma held_processes:
  "nets (holding h) (getProcessId_prog P x) 0" "nets (holding h) (killByProcessName_prog P x) 0"
  "nets (holding h) (getNetcardState_prog P) 0" "nets (holding h) (startAvahi_prog P) 0"
  "nets (holding h) (stopAvahi_prog P) 0"
  by (auto simp: getProcessId_prog_def killByProcessName_prog_def getNetcardState_prog_def startAvahi_prog_def
      stopAvahi_prog_def Let_def intro!: nets_rules)

lemma keep_processes:
  "steps_keep (same_held (HMutex m)) (getProcessId_prog P x)"
  "steps_keep (same_held (HMutex m)) (killByProcessName_prog P x)"
  "steps_keep (same_held (HMutex m)) (getNetcardState_prog P)"
  "steps_keep (same_held (HMutex m)) (startAvahi_prog P)"
  "steps_keep (same_held (HMutex m)) (stopAvahi_prog P)"
  by (auto simp: getProcessId_prog_def killByProcessName_prog_def getNetcardState_prog_def startAvahi_prog_def
      stopAvahi_prog_def Let_def intro!: keep_rules)

lemma held_switches:
  "nets (holding h) (setPowerState_prog P st) 0" "nets (holding h) (setLedStatus_prog P color st) 0"
  "nets (holding h) (reboot_prog P) 0" "nets (holding h) (shutdown_prog P) 0"
  by (auto simp: setPowerState_prog_def setLedStatus_prog_def reboot_prog_def shutdown_prog_def Let_def
      intro!: nets_rules)

lemma keep_switches:
  "steps_keep (same_held (HMutex m)) (setPowerState_prog P st)"
  "steps_keep (same_held (HMutex m)) (setLedStatus_prog P color st)"
  "steps_keep (same_held (HMutex m)) (reboot_prog P)" "steps_keep (same_held (HMutex m)) (shutdown_prog P)"
  by (auto simp: setPowerState_prog_def setLedStatus_prog_def reboot_prog_def shutdown_prog_def Let_def
      intro!: keep_rules)

lemmas query_defs =
  first_line_prog_def getNetcardCurSpeed_prog_def getCurrentResolution_prog_def getNetcardMaxSpeed_prog_def
  checkIpConflict_prog_def ping_prog_def isProcessRunning_prog_def getPowerState_prog_def getLedStatus_prog_def
  getOtaResult_prog_def getCpuInfo_prog_def getMemoryInfo_prog_def getNetcardState_prog_def Let_def

lemma held_queries:
  "nets (holding h) (getNetcardCurSpeed_prog P) 0" "nets (holding h) (getCurrentResolution_prog P) 0"
  "nets (holding h) (getNetcardMaxSpeed_prog P) 0" "nets (holding h) (checkIpConflict_prog P ip) 0"
  "nets (holding h) (ping_prog P ip c t d) 0" "nets (holding h) (isProcessRunning_prog P x) 0"
  "nets (holding h) (getPowerState_prog P) 0" "nets (holding h) (getLedStatus_prog P color) 0"
  "nets (holding h) (getOtaResult_prog P) 0" "nets (holding h) (getCpuInfo_prog P) 0"
  "nets (holding h) (getMemoryInfo_prog P) 0"
  by (auto simp: query_defs split: prod.split intro!: nets_rules held_frame.keeps_property_get)

lemma keep_queries:
  "steps_keep (same_held (HMutex m)) (getNetcardCurSpeed_prog P)"
  "steps_keep (same_held (HMutex m)) (getCurrentResolution_prog P)"
  "steps_keep (same_held (HMutex m)) (getNetcardMaxSpeed_prog P)"
  "steps_keep (same_held (HMutex m)) (checkIpConflict_prog P ip)"
  "steps_keep (same_held (HMutex m)) (ping_prog P ip c t d)"
  "steps_keep (same_held (HMutex m)) (isProcessRunning_prog P x)"
  "steps_keep (same_held (HMutex m)) (getPowerState_prog P)"
  "steps_keep (same_held (HMutex m)) (getLedStatus_prog P color)"
  "steps_keep (same_held (HMutex m)) (getOtaResult_prog P)" "steps_keep (same_held (HMutex m)) (getCpuInfo_prog P)"
  "steps_keep (same_held (HMutex m)) (getMemoryInfo_prog P)"
  by (auto simp: query_defs split: prod.split intro!: keep_rules held_frame.keeps_property_get)

lemma held_support:
  "nets (holding h) (getSupportResolution_prog P) 0"
  "steps_keep (same_held (HMutex m)) (getSupportResolution_prog P)"
  by (cases h; auto simp: getSupportResolution_prog_def fopen_def seq_prim Let_def case_prod_beta split: option.split)
     (auto simp: getSupportResolution_prog_def fopen_def seq_prim Let_def case_prod_beta same_held_def split: option.split)

lemma held_resolution:
  "nets (holding h) (resolution_prog P x y r f) 0"
  "steps_keep (same_held (HMutex m)) (resolution_prog P x y r f)"
  by (cases h; auto simp: resolution_prog_def seq_prim Let_def case_prod_beta run_ioctl_trace)
     (auto simp: resolution_prog_def seq_prim Let_def case_prod_beta run_ioctl_trace same_held_def)

lemma held_calls: "h \<noteq> HDir \<Longrightarrow> nets (holding h) (pool_prog P q) 0"
  by (cases q) (auto intro!: nets_rules keeps_held_perform held_collect held_bandwidth held_resolution held_files
      held_processes held_switches held_queries held_support simp del: perform.simps)

lemma keep_calls: "steps_keep (same_held (HMutex m)) (pool_prog P q)"
  by (cases q) (auto intro!: keep_rules keeps_held_perform held_collect held_bandwidth held_resolution keep_files
      keep_processes keep_switches keep_queries held_support simp del: perform.simps)

section \<open>Invariants that hold between the steps\<close>

text \<open>
  An invariant the world, the trace and the steps of \<open>mySystem\<close> cannot break is kept by every step of
  every call.
\<close>

locale step_invariant =
  fixes I :: "'w sys \<Rightarrow> bool"
  assumes I_world: "I s \<Longrightarrow> I (s\<lparr>world := w\<rparr>)"
    and I_overrun: "I s \<Longrightarrow> I (s\<lparr>overrun := overrun s \<or> b\<rparr>)"
    and I_emit: "I s \<Longrightarrow> I (s\<lparr>trace := trace s @ [e]\<rparr>)"
    and I_mySystem: "steps_inv I (mySystem_prog P cmd)"

sublocale step_invariant \<subseteq> kept: effect_frame "\<lambda>s t. I s \<longrightarrow> I t"
  by unfold_locales (auto intro: I_world I_overrun I_emit)

context step_invariant
begin

lemma inv_prim: "keeps (\<lambda>s t. I s \<longrightarrow> I t) m \<Longrightarrow> steps_inv I (prim m)"
  by (simp add: steps_post_prim keeps_def)

lemma I_world_emit: "I s \<Longrightarrow> I (s\<lparr>world := w, trace := trace s @ [e]\<rparr>)"
  using I_emit [OF I_world] by simp

lemma inv_executeCmd: "steps_inv I (executeCmd_prog P cmd result n)"
  by (cases cmd)
    (auto simp: executeCmd_prog_def seq_prim prim_defs case_prod_beta Let_def I_overrun I_emit
      split: option.split intro: I_world_emit)

lemmas inv_rules = steps_post_seq steps_post_Done TrueI inv_prim I_mySystem inv_executeCmd kept.keeps_eff

lemma inv_files:
  "steps_inv I (checkFileMode_prog P p m l)" "steps_inv I (chmodFile_prog P path mode)"
  "steps_inv I (chmodDir_prog P path mode)" "steps_inv I (rmFile_prog P path)"
  by (auto simp: checkFileMode_prog_def chmodFile_prog_def chmodDir_prog_def rmFile_prog_def Let_def
      intro!: inv_rules)

lemma inv_locked: "steps_inv I (collect_prog P name)" "steps_inv I (bandwidth_prog P ip user code)"
  by (auto simp: collect_prog_def ensure_tombstones_prog_def bandwidth_prog_def Let_def
      intro!: inv_rules inv_files)

lemma inv_processes:
  "steps_inv I (getProcessId_prog P x)" "steps_inv I (killByProcessName_prog P x)" "steps_inv I (getNetcardState_prog P)"
  "steps_inv I (startAvahi_prog P)" "steps_inv I (stopAvahi_prog P)"
  by (auto simp: getProcessId_prog_def killByProcessName_prog_def getNetcardState_prog_def startAvahi_prog_def
      stopAvahi_prog_def Let_def intro!: inv_rules)

lemma inv_switches:
  "steps_inv I (setPowerState_prog P st)" "steps_inv I (setLedStatus_prog P color st)"
  "steps_inv I (reboot_prog P)" "steps_inv I (shutdown_prog P)"
  by (auto simp: setPowerState_prog_def setLedStatus_prog_def reboot_prog_def shutdown_prog_def Let_def
      intro!: inv_rules)

lemma inv_queries:
  "steps_inv I (getNetcardCurSpeed_prog P)" "steps_inv I (getCurrentResolution_prog P)"
  "steps_inv I (getNetcardMaxSpeed_prog P)" "steps_inv I (checkIpConflict_prog P ip)"
  "steps_inv I (ping_prog P ip c t d)" "steps_inv I (isProcessRunning_prog P x)"
  "steps_inv I (getPowerState_prog P)" "steps_inv I (getLedStatus_prog P color)"
  "steps_inv I (getOtaResult_prog P)" "steps_inv I (getCpuInfo_prog P)" "steps_inv I (getMemoryInfo_prog P)"
  by (auto simp: query_defs split: prod.split intro!: inv_rules kept.keeps_property_get)

lemma inv_support: "steps_inv I (getSupportResolution_prog P)"
  by (auto simp: getSupportResolution_prog_def Let_def split: option.split prod.split intro!: inv_rules)

lemma inv_ioctl: "keeps (\<lambda>s t. I s \<longrightarrow> I t) (ioctl P req sd)"
  by (auto simp: ioctl_def intro!: kept.keeps_eff)

lemma inv_resolution: "steps_inv I (resolution_prog P x y r f)"
  by (auto simp: resolution_prog_def Let_def case_prod_beta intro!: inv_rules inv_ioctl)

lemma inv_perform: "keeps (\<lambda>s t. I s \<longrightarrow> I t) (perform (RjcoreService P) q)"
  by (rule kept.keeps_perform)

lemmas inv_progs = inv_files inv_locked inv_processes inv_switches inv_queries inv_support inv_resolution

lemma inv_calls: "steps_inv I (pool_prog P q)"
  by (cases q) (auto intro!: inv_rules inv_progs inv_perform simp del: perform.simps)

end

text \<open>\<open>mySystem\<close> installs the default disposition of \<open>SIGCHLD\<close> and then what it found, whatever that was by then.\<close>

abbreviation handler_in :: "sig_handler \<Rightarrow> 'w sys \<Rightarrow> bool" where
  "handler_in h \<equiv> \<lambda>s. sigchld s \<in> {h, SIG_DFL}"

interpretation handler_kept: step_invariant "handler_in h" for h
proof unfold_locales
  show "steps_inv (handler_in h) (mySystem_prog P cmd)" for P and cmd
    by (cases cmd) (auto simp: mySystem_prog_def seq_prim signal_sigchld_def system_def)
qed simp_all

abbreviation board_is :: "bool \<times> str16 \<times> str16 \<times> str16 \<times> str16 \<Rightarrow> 'w sys \<Rightarrow> bool" where
  "board_is m \<equiv> \<lambda>s. members s = m"

interpretation board_kept: step_invariant "board_is m" for m
proof unfold_locales
  show "steps_inv (board_is m) (mySystem_prog P cmd)" for P and cmd
    by (cases cmd) (auto simp: mySystem_prog_def seq_prim signal_sigchld_def system_def members_def)
qed (simp_all add: members_def)

section \<open>The contracts of the pool\<close>

fun is_collect :: "request \<Rightarrow> bool" where
  "is_collect (Req_collectLogFiles_block zipFilename) \<longleftrightarrow> True"
| "is_collect _ \<longleftrightarrow> False"

fun is_bandwidth :: "request \<Rightarrow> bool" where
  "is_bandwidth (Req_checkBandwidth_block serverIp user code) \<longleftrightarrow> True"
| "is_bandwidth _ \<longleftrightarrow> False"

lemma steps_inv_True: "steps_inv (\<lambda>_. True) p"
  by (induction p) auto

interpretation log_monitor: monitor is_collect "pool_lock P" "pool_prog P" "perform (RjcoreService P)" LogLock "\<lambda>_. True" s0
  for P s0
proof unfold_locales
  show "perform (RjcoreService P) q = with_lock LogLock (uninterrupted (pool_prog P q))"
    if "pool_lock P q = Some LogLock" for q
    using that uninterrupted_calls [of P q] by simp
  show "pool_lock P q = None \<and> perform (RjcoreService P) q = uninterrupted (pool_prog P q) \<and>
      (\<exists>r. silent (\<lambda>_. True) r (pool_prog P q))"
    if "is_collect q" "pool_lock P q \<noteq> Some LogLock" for q
    using that uninterrupted_calls [of P q] by (cases q) (auto split: if_splits simp del: perform.simps)
qed (simp_all add: steps_inv_True)

interpretation net_monitor: monitor is_bandwidth "pool_lock P" "pool_prog P" "perform (RjcoreService P)" NetLock "\<lambda>_. True" s0
  for P s0
proof unfold_locales
  show "perform (RjcoreService P) q = with_lock NetLock (uninterrupted (pool_prog P q))"
    if "pool_lock P q = Some NetLock" for q
    using that uninterrupted_calls [of P q] by simp
  show "pool_lock P q = None \<and> perform (RjcoreService P) q = uninterrupted (pool_prog P q) \<and>
      (\<exists>r. silent (\<lambda>_. True) r (pool_prog P q))"
    if "is_bandwidth q" "pool_lock P q \<noteq> Some NetLock" for q
    using that by (cases q) simp_all
qed (simp_all add: steps_inv_True)

interpretation pool_pipes: pool_ledger "\<lambda>_. True" "pool_lock P" "pool_prog P" HPipe for P
  by unfold_locales (rule held_calls, simp)

interpretation pool_files: pool_ledger "\<lambda>_. True" "pool_lock P" "pool_prog P" HFile for P
  by unfold_locales (rule held_calls, simp)

interpretation pool_fds: pool_ledger "\<lambda>_. True" "pool_lock P" "pool_prog P" HFd for P
  by unfold_locales (rule held_calls, simp)

interpretation pool_mutexes: pool_mutex "\<lambda>_. True" "pool_lock P" "pool_prog P" m for P m
  by unfold_locales (rule keep_calls)

interpretation pool_handler: pool_answer "\<lambda>_. True" "pool_lock P" "pool_prog P" "handler_in h" "\<lambda>q r. True" for P h
proof unfold_locales
  show "steps_inv (handler_in h) (pool_prog P q)" for q
    by (rule handler_kept.inv_calls)
  show "handler_in h (lock_event ELock l s)" "handler_in h (lock_event EUnlock l s)"
    if "handler_in h s" for l and s :: "'a sys"
    using that by (cases l; simp)+
qed

end
