(* ===== verification/Marshal.thy ===== *)
theory Marshal
  imports Binder
begin

text \<open>
  A call of the interface as the message that carries it (\<open>IRjcoreService.cpp\<close>): the code and
  the arguments \<open>BpRjcoreService\<close> writes, the request \<open>onTransact\<close> reads from them, the answer
  it writes and the proxy reads.  The proxy and the stub are these four, one after the other, and
  reading undoes writing.
\<close>

section \<open>What an answer is\<close>

datatype answer_kind = K_str | K_int | K_bool | K_unit

fun kind_of :: "response \<Rightarrow> answer_kind" where
  "kind_of (RStr x) = K_str"
| "kind_of (RInt i) = K_int"
| "kind_of (RBool b) = K_bool"
| "kind_of RUnit = K_unit"

definition asked_kind :: "request \<Rightarrow> answer_kind" where
  "asked_kind q = (case q of
     Req_setPowerState _ \<Rightarrow> K_unit | Req_reboot \<Rightarrow> K_unit | Req_shutdown \<Rightarrow> K_unit | Req_setLedStatus _ _ \<Rightarrow> K_unit
   | Req_startAvahi \<Rightarrow> K_unit | Req_stopAvahi \<Rightarrow> K_unit | Req_killByProcessName _ \<Rightarrow> K_unit
   | Req_getPowerState \<Rightarrow> K_int | Req_getLedStatus _ \<Rightarrow> K_int
   | Req_collectLogFiles_block _ \<Rightarrow> K_bool | Req_chmodFile _ _ \<Rightarrow> K_bool | Req_chmodDir _ _ \<Rightarrow> K_bool
   | Req_rmFile _ \<Rightarrow> K_bool | Req_setDeviceResolution _ _ _ _ \<Rightarrow> K_bool | Req_getNetcardState \<Rightarrow> K_bool
   | Req_getOtaResult \<Rightarrow> K_bool | Req_isProcessRunning _ \<Rightarrow> K_bool
   | _ \<Rightarrow> K_str)"

section \<open>The client's message\<close>

fun txn_of :: "request \<Rightarrow> txn" where
  "txn_of Req_getCpuInfo = GET_CPU_INFO"
| "txn_of Req_getAndroidVersion = GET_ANDROID_VERSION"
| "txn_of Req_getSystemVersion = GET_SYSTEM_VERSION"
| "txn_of Req_getSerialNumber = GET_SERIAL_NUMBER"
| "txn_of Req_getProductType = GET_PRODUCT_TYPE"
| "txn_of Req_getHardwareVesion = GET_HARDWARE_VERSION"
| "txn_of Req_getProductId = GET_PRODUCT_ID"
| "txn_of Req_getProductName = GET_PRODUCT_NAME"
| "txn_of Req_getBaseboardInfo = GET_BASEBOARD_INFO"
| "txn_of Req_getMemoryInfo = GET_MEMORY_INFO"
| "txn_of Req_getStorageInfo = GET_STORAGE_INFO"
| "txn_of (Req_setPowerState a) = SET_POWER_STATE"
| "txn_of Req_getPowerState = GET_POWER_STATE"
| "txn_of (Req_collectLogFiles_block a) = COLLECT_LOG_FILES_BLOCK"
| "txn_of (Req_chmodFile a b) = CHMOD_FILE"
| "txn_of (Req_chmodDir a b) = CHMOD_DIR"
| "txn_of (Req_rmFile a) = RM_FILE"
| "txn_of Req_reboot = REBOOT"
| "txn_of Req_shutdown = SHUTDOWN"
| "txn_of (Req_getLedStatus a) = GET_LED_STATUS"
| "txn_of (Req_setLedStatus a b) = SET_LED_STATUS"
| "txn_of (Req_setDeviceResolution a b c d) = SET_DEVICE_RESOLUTION"
| "txn_of Req_getCurrentResolution_block = GET_CURRENT_RESOLUTION_BLOCK"
| "txn_of Req_getSupportResolution = GET_SUPPORT_RESOLUTION"
| "txn_of (Req_getPropertyValue a) = GET_PROPERTY_VALUE"
| "txn_of Req_getNetcardState = GET_NETCARD_STATE"
| "txn_of Req_getNetcardCurSpeed = GET_NETCARD_CUR_SPEED"
| "txn_of Req_getNetcardMaxSpeed = GET_NETCARD_MAX_SPEED"
| "txn_of Req_startAvahi = START_AVAHI"
| "txn_of Req_stopAvahi = STOP_AVAHI"
| "txn_of (Req_checkIpConflict_block a) = CHECK_IP_CONFLICT_BLOCK"
| "txn_of (Req_ping_block a b c d) = PING_BLOCK"
| "txn_of (Req_checkBandwidth_block a b c) = CHECK_BANDWIDTH_BLOCK"
| "txn_of Req_getOtaResult = GET_OTA_RESULT"
| "txn_of (Req_isProcessRunning a) = IS_PROCESS_RUNNING"
| "txn_of (Req_getProcessId a) = GET_PROCESS_ID"
| "txn_of (Req_killByProcessName a) = KILL_PROCESS_BY_NAME"

fun put_args :: "'p parcel_ops \<Rightarrow> request \<Rightarrow> 'p \<Rightarrow> 'p" where
  "put_args ops (Req_setPowerState a) p = w_int32 ops a p"
| "put_args ops (Req_collectLogFiles_block a) p = w_str16 ops a p"
| "put_args ops (Req_chmodFile a b) p = w_str16 ops b (w_str16 ops a p)"
| "put_args ops (Req_chmodDir a b) p = w_str16 ops b (w_str16 ops a p)"
| "put_args ops (Req_rmFile a) p = w_str16 ops a p"
| "put_args ops (Req_getLedStatus a) p = w_int32 ops a p"
| "put_args ops (Req_setLedStatus a b) p = w_int32 ops b (w_int32 ops a p)"
| "put_args ops (Req_setDeviceResolution a b c d) p = w_int32 ops d (w_int32 ops c (w_int32 ops b (w_int32 ops a p)))"
| "put_args ops (Req_getPropertyValue a) p = w_str16 ops a p"
| "put_args ops (Req_checkIpConflict_block a) p = w_str16 ops a p"
| "put_args ops (Req_ping_block a b c d) p = w_int32 ops d (w_int32 ops c (w_int32 ops b (w_str16 ops a p)))"
| "put_args ops (Req_checkBandwidth_block a b c) p = w_str16 ops c (w_str16 ops b (w_str16 ops a p))"
| "put_args ops (Req_isProcessRunning a) p = w_str16 ops a p"
| "put_args ops (Req_getProcessId a) p = w_str16 ops a p"
| "put_args ops (Req_killByProcessName a) p = w_str16 ops a p"
| "put_args ops q p = p"

definition parcel_of :: "'p parcel_ops \<Rightarrow> request \<Rightarrow> 'p" where
  "parcel_of ops q = put_args ops q (w_token ops descriptor (p_new ops))"

section \<open>The server's reading of it\<close>

definition read_request :: "'p parcel_ops \<Rightarrow> arg_order \<Rightarrow> txn \<Rightarrow> 'p \<Rightarrow> request" where
  "read_request ops ord t p = (case t of
      GET_CPU_INFO \<Rightarrow> Req_getCpuInfo
    | GET_ANDROID_VERSION \<Rightarrow> Req_getAndroidVersion
    | GET_SYSTEM_VERSION \<Rightarrow> Req_getSystemVersion
    | GET_SERIAL_NUMBER \<Rightarrow> Req_getSerialNumber
    | GET_PRODUCT_TYPE \<Rightarrow> Req_getProductType
    | GET_HARDWARE_VERSION \<Rightarrow> Req_getHardwareVesion
    | GET_PRODUCT_ID \<Rightarrow> Req_getProductId
    | GET_PRODUCT_NAME \<Rightarrow> Req_getProductName
    | GET_BASEBOARD_INFO \<Rightarrow> Req_getBaseboardInfo
    | GET_MEMORY_INFO \<Rightarrow> Req_getMemoryInfo
    | GET_STORAGE_INFO \<Rightarrow> Req_getStorageInfo
    | SET_POWER_STATE \<Rightarrow> Req_setPowerState (fst (r_int32 ops p))
    | GET_POWER_STATE \<Rightarrow> Req_getPowerState
    | COLLECT_LOG_FILES_BLOCK \<Rightarrow> Req_collectLogFiles_block (fst (r_str16 ops p))
    | CHMOD_FILE \<Rightarrow> (case args2 ord (r_str16 ops) (r_str16 ops) p of
        (a, b) \<Rightarrow> Req_chmodFile a b)
    | CHMOD_DIR \<Rightarrow> (case args2 ord (r_str16 ops) (r_str16 ops) p of (a, b) \<Rightarrow> Req_chmodDir a b)
    | RM_FILE \<Rightarrow> Req_rmFile (fst (r_str16 ops p))
    | REBOOT \<Rightarrow> Req_reboot
    | SHUTDOWN \<Rightarrow> Req_shutdown
    | GET_LED_STATUS \<Rightarrow> Req_getLedStatus (fst (r_int32 ops p))
    | SET_LED_STATUS \<Rightarrow> (case args2 ord (r_int32 ops) (r_int32 ops) p of
        (a, b) \<Rightarrow> Req_setLedStatus a b)
    | SET_DEVICE_RESOLUTION \<Rightarrow> (case args4 ord (r_int32 ops) (r_int32 ops) (r_int32 ops) (r_int32 ops) p of
        (a, b, c, d) \<Rightarrow> Req_setDeviceResolution a b c d)
    | GET_CURRENT_RESOLUTION_BLOCK \<Rightarrow> Req_getCurrentResolution_block
    | GET_SUPPORT_RESOLUTION \<Rightarrow> Req_getSupportResolution
    | GET_PROPERTY_VALUE \<Rightarrow> Req_getPropertyValue (fst (r_str16 ops p))
    | GET_NETCARD_STATE \<Rightarrow> Req_getNetcardState
    | GET_NETCARD_CUR_SPEED \<Rightarrow> Req_getNetcardCurSpeed
    | GET_NETCARD_MAX_SPEED \<Rightarrow> Req_getNetcardMaxSpeed
    | START_AVAHI \<Rightarrow> Req_startAvahi
    | STOP_AVAHI \<Rightarrow> Req_stopAvahi
    | CHECK_IP_CONFLICT_BLOCK \<Rightarrow> Req_checkIpConflict_block (fst (r_str16 ops p))
    | PING_BLOCK \<Rightarrow> (case args4 ord (r_str16 ops) (r_int32 ops) (r_int32 ops) (r_int32 ops) p of
        (a, b, c, d) \<Rightarrow> Req_ping_block a b c d)
    | CHECK_BANDWIDTH_BLOCK \<Rightarrow> (case args3 ord (r_str16 ops) (r_str16 ops) (r_str16 ops) p of
        (a, b, c) \<Rightarrow> Req_checkBandwidth_block a b c)
    | GET_OTA_RESULT \<Rightarrow> Req_getOtaResult
    | IS_PROCESS_RUNNING \<Rightarrow> Req_isProcessRunning (fst (r_str16 ops p))
    | GET_PROCESS_ID \<Rightarrow> Req_getProcessId (fst (r_str16 ops p))
    | KILL_PROCESS_BY_NAME \<Rightarrow> Req_killByProcessName (fst (r_str16 ops p)))"

text \<open>
  The request of a transaction: none when the code is unknown or the interface token is another.
\<close>

definition asked :: "'p parcel_ops \<Rightarrow> arg_order \<Rightarrow> 32 word \<Rightarrow> 'p \<Rightarrow> request option" where
  "asked ops ord code data = (case switch code of
       None \<Rightarrow> None
     | Some t \<Rightarrow> (case enforce ops descriptor data of
         (ok, d) \<Rightarrow> if ok then Some (read_request ops ord t d) else None))"

section \<open>The answer\<close>

fun write_response :: "'p parcel_ops \<Rightarrow> response \<Rightarrow> 'p \<Rightarrow> 'p" where
  "write_response ops (RStr x) p = w_str16 ops x (w_noexc ops p)"
| "write_response ops (RInt i) p = w_int32 ops i (w_noexc ops p)"
| "write_response ops (RBool b) p = w_int32 ops (of_bool b) (w_noexc ops p)"
| "write_response ops RUnit p = w_noexc ops p"

definition read_response :: "'p parcel_ops \<Rightarrow> answer_kind \<Rightarrow> 'p \<Rightarrow> response" where
  "read_response ops k reply = (let p = snd (r_exc ops reply) in case k of
       K_str \<Rightarrow> RStr (fst (r_str16 ops p))
     | K_int \<Rightarrow> RInt (fst (r_int32 ops p))
     | K_bool \<Rightarrow> RBool (fst (r_int32 ops p) \<noteq> 0)
     | K_unit \<Rightarrow> RUnit)"

section \<open>The proxy and the stub in these terms\<close>

text \<open>The one case of the switch that the code selects reads the request, makes the call and writes the answer.\<close>

lemma run_case_asked:
  assumes "enforce ops descriptor data = (True, d)"
  shows "run_case ops ord I data reply t = Some (do {
    r \<leftarrow> perform I (read_request ops ord t d);
    State_Monad.return (NO_ERROR, write_response ops r reply) })"
  by (cases t) (simp_all add: run_case_def cases_defs serve_defs check_interface_def assms read_request_def
      respond_def split: prod.split)

lemma onTransact_asked:
  assumes "asked ops ord code data = Some q"
  shows "onTransact ops ord I parent code data reply = do {
    r \<leftarrow> perform I q; State_Monad.return (NO_ERROR, write_response ops r reply) }"
  using assms by (auto simp: asked_def onTransact_def run_case_asked split: option.splits if_splits prod.splits)

lemma onTransact_not_asked:
  assumes "asked ops ord code data = None"
  shows "onTransact ops ord I parent code data reply =
    (if switch code = None then parent code data reply else State_Monad.return (PERMISSION_DENIED, reply))"
proof (cases "switch code")
  case None
  then show ?thesis by (simp add: onTransact_def)
next
  case (Some t)
  then have "\<not> fst (enforce ops descriptor data)"
    using assms by (simp add: asked_def case_prod_beta split: if_splits)
  from onTransact_denied [OF this Some] show ?thesis using Some by simp
qed

text \<open>A call through the proxy sends its parcel under its code and reads the reply.\<close>

lemma proxy_sends:
  "perform (BpRjcoreService ops transact) q = do {
     reply \<leftarrow> transact (code_of (txn_of q)) (parcel_of ops q);
     State_Monad.return (read_response ops (asked_kind q) reply) }"
  by (cases q; rule state_ext)
     (simp_all add: BpRjcoreService_def bp_defs bp_str_def bp_int_def bp_bool_def bp_void_def bp_reply_def
        respond_def asked_kind_def parcel_of_def read_response_def case_prod_beta Let_def)

section \<open>Reading undoes writing\<close>

text \<open>What is read of a parcel of a call, and what is read when the reads go from right to left.\<close>

fun args_of :: "request \<Rightarrow> item list" where
  "args_of (Req_setPowerState a) = [IInt a]"
| "args_of (Req_collectLogFiles_block a) = [IStr a]"
| "args_of (Req_chmodFile a b) = [IStr a, IStr b]"
| "args_of (Req_chmodDir a b) = [IStr a, IStr b]"
| "args_of (Req_rmFile a) = [IStr a]"
| "args_of (Req_getLedStatus a) = [IInt a]"
| "args_of (Req_setLedStatus a b) = [IInt a, IInt b]"
| "args_of (Req_setDeviceResolution a b c d) = [IInt a, IInt b, IInt c, IInt d]"
| "args_of (Req_getPropertyValue a) = [IStr a]"
| "args_of (Req_checkIpConflict_block a) = [IStr a]"
| "args_of (Req_ping_block a b c d) = [IStr a, IInt b, IInt c, IInt d]"
| "args_of (Req_checkBandwidth_block a b c) = [IStr a, IStr b, IStr c]"
| "args_of (Req_isProcessRunning a) = [IStr a]"
| "args_of (Req_getProcessId a) = [IStr a]"
| "args_of (Req_killByProcessName a) = [IStr a]"
| "args_of q = []"

fun swapped :: "request \<Rightarrow> request" where
  "swapped (Req_chmodFile a b) = Req_chmodFile b a"
| "swapped (Req_chmodDir a b) = Req_chmodDir b a"
| "swapped (Req_setLedStatus a b) = Req_setLedStatus b a"
| "swapped (Req_setDeviceResolution a b c d) = Req_setDeviceResolution d c b a"
| "swapped (Req_checkBandwidth_block a b c) = Req_checkBandwidth_block c b a"
| "swapped q = q"

context parcels
begin

lemma parcel_holds: "pr (rewind ops (parcel_of ops q)) = IToken descriptor # args_of q"
  using laws by (cases q) (simp_all add: parcel_of_def parcel_laws_def)

lemma read_args: "pr d = args_of q \<Longrightarrow> read_request ops LeftToRight (txn_of q) d = q"
  by (cases q) (simp_all add: read_request_def args_ltr arg_one)

lemma asked_holds:
  assumes "pr data = IToken descriptor # its"
  obtains d where "pr d = its" "asked ops ord (code_of t) data = Some (read_request ops ord t d)"
proof
  show "pr (snd (enforce ops descriptor data)) = its"
    "asked ops ord (code_of t) data = Some (read_request ops ord t (snd (enforce ops descriptor data)))"
    using assms laws by (simp_all add: parcel_laws_def asked_def case_prod_beta)
qed

text \<open>With the arguments read in the order they were written, the server is asked what the client asked.\<close>

lemma asked_parcel: "asked ops LeftToRight (code_of (txn_of q)) (rewind ops (parcel_of ops q)) = Some q"
proof (rule asked_holds [OF parcel_holds [of q]])
  fix d assume "pr d = args_of q"
    "asked ops LeftToRight (code_of (txn_of q)) (rewind ops (parcel_of ops q)) = Some (read_request ops LeftToRight (txn_of q) d)"
  then show ?thesis by (simp add: read_args)
qed

text \<open>
  A compiler may evaluate the reads from right to left: then the arguments of five functions
  change places (\<open>ping_block\<close>, whose arguments differ in type, reads a string where an integer is).
\<close>

lemma asked_parcel_rtl:
  assumes "txn_of q \<noteq> PING_BLOCK"
  shows "asked ops RightToLeft (code_of (txn_of q)) (rewind ops (parcel_of ops q)) = Some (swapped q)"
proof (rule asked_holds [OF parcel_holds [of q]])
  fix d assume d: "pr d = args_of q"
    "asked ops RightToLeft (code_of (txn_of q)) (rewind ops (parcel_of ops q)) = Some (read_request ops RightToLeft (txn_of q) d)"
  have "read_request ops RightToLeft (txn_of q) d = swapped q"
    using assms d(1) by (cases q) (simp_all add: read_request_def args_rtl arg_one)
  then show ?thesis using d(2) by simp
qed

text \<open>The proxy reads the answer the server wrote.\<close>

lemma read_written_response:
  "kind_of r = k \<Longrightarrow> read_response ops k (rewind ops (write_response ops r (p_new ops))) = r"
  using read_back by (cases r) (auto simp: read_response_def Let_def)

end

end
