(* ===== verification/PoolAnswers.thy ===== *)
theory PoolAnswers
  imports PoolKept DeviceProps Marshal
begin

text \<open>
  What the answer to a call is for, and which answers the arguments and the fields of the board
  settle, whatever the machine and the other threads do.
\<close>

section \<open>The contract\<close>

text \<open>The answer that the arguments and the board settle, when they do.\<close>

fun settled_answer ::
  "'w platform \<Rightarrow> bool \<times> str16 \<times> str16 \<times> str16 \<times> str16 \<Rightarrow> request \<Rightarrow> response option" where
  "settled_answer P (ini, ser, ty, hw, pid) q =
    (let empty = to16 P []; field = (\<lambda>x. Some (RStr (if ini then x else empty)));
         when = (\<lambda>b r. if b then Some r else None)
     in case q of
       Req_getSerialNumber \<Rightarrow> field ser
     | Req_getProductType \<Rightarrow> field ty
     | Req_getHardwareVesion \<Rightarrow> field hw
     | Req_getProductId \<Rightarrow> field pid
     | Req_getPowerState \<Rightarrow> when (no_power_mode P ty) (RInt 0)
     | Req_getLedStatus color \<Rightarrow>
         when (sint color < 0 \<or> 2 < sint color \<or> ty \<noteq> to16 P ''Rain200S'') (RInt (- 1))
     | Req_setDeviceResolution x y r f \<Rightarrow> when (\<not> resolution_ok x y r f) (RBool False)
     | Req_collectLogFiles_block name \<Rightarrow> when (refuses_zip P name) (RBool False)
     | Req_chmodFile path mode \<Rightarrow> when (mode = empty) (RBool False)
     | Req_chmodDir path mode \<Rightarrow> when (mode = empty \<or> path = empty) (RBool False)
     | Req_rmFile path \<Rightarrow> when (path = empty) (RBool False)
     | Req_getPropertyValue key \<Rightarrow> when (length key = 0) (RStr empty)
     | Req_checkIpConflict_block ip \<Rightarrow> when (check_ipaddr P (c_str P ip) \<noteq> 0) (RStr empty)
     | Req_ping_block ip c t d \<Rightarrow>
         when (check_ipaddr P (c_str P ip) \<noteq> 0 \<or> sint c \<le> 0 \<or> sint t < 0 \<or> sint d < 0) (RStr empty)
     | Req_checkBandwidth_block ip user code \<Rightarrow> when (check_ipaddr P (c_str P ip) \<noteq> 0) (RStr empty)
     | _ \<Rightarrow> None)"

definition answer_ok ::
  "'w platform \<Rightarrow> bool \<times> str16 \<times> str16 \<times> str16 \<times> str16 \<Rightarrow> request \<Rightarrow> response \<Rightarrow> bool" where
  "answer_ok P m q r \<longleftrightarrow> kind_of r = asked_kind q \<and> (case settled_answer P m q of None \<Rightarrow> True | Some a \<Rightarrow> r = a)"

lemma answer_okI:
  "kind_of r = asked_kind q \<Longrightarrow> (\<And>a. settled_answer P m q = Some a \<Longrightarrow> r = a) \<Longrightarrow> answer_ok P m q r"
  by (simp add: answer_ok_def split: option.split)

section \<open>Every call keeps it\<close>

lemma perform_kind: "kind_of (res_of (perform (RjcoreService P) q) s) = asked_kind q"
  by (cases q) (simp_all add: respond_def asked_kind_def case_prod_beta)

text \<open>A program of several steps gives its answer at the end; that it is of the right kind is plain to see.\<close>

lemma prog_answer_ok:
  assumes "steps_inv I p" "\<And>x. kind_of (f x) = asked_kind q" "settled_answer P m q = None"
  shows "steps_post I (answer_ok P m q) (seq p (\<lambda>x. Done (f x)))"
  using assms by (intro steps_post_seq) (simp_all add: answer_ok_def)

lemma query_answer_ok:
  assumes "settled_answer P m q = None"
  shows "steps_post (board_is m) (answer_ok P m q) (prim (perform (RjcoreService P) q))"
  using assms board_kept.inv_perform [of m P q]
  by (simp add: steps_post_prim keeps_def answer_ok_def perform_kind del: perform.simps)

lemma open_answer_ok:
  "settled_answer P m q = None \<Longrightarrow> steps_post (board_is m) (answer_ok P m q) (pool_prog P q)"
  by (cases m; cases q) (auto intro!: query_answer_ok prog_answer_ok board_kept.inv_progs
      simp: asked_kind_def Let_def split: if_splits simp del: perform.simps)

text \<open>The functions whose answer is settled by the board alone, and by a step that reads it.\<close>

fun asks_board :: "request \<Rightarrow> bool" where
  "asks_board Req_getSerialNumber \<longleftrightarrow> True"
| "asks_board Req_getProductType \<longleftrightarrow> True"
| "asks_board Req_getHardwareVesion \<longleftrightarrow> True"
| "asks_board Req_getProductId \<longleftrightarrow> True"
| "asks_board Req_getPowerState \<longleftrightarrow> True"
| "asks_board (Req_getLedStatus color) \<longleftrightarrow> True"
| "asks_board (Req_getPropertyValue key) \<longleftrightarrow> True"
| "asks_board _ \<longleftrightarrow> False"

lemma settled_kind: "settled_answer P m q = Some a \<Longrightarrow> kind_of a = asked_kind q"
  by (cases m; cases q) (auto simp: asked_kind_def Let_def split: if_splits)

lemma board_fields_answer:
  "steps_post (board_is m) (answer_ok P m Req_getSerialNumber) (pool_prog P Req_getSerialNumber)"
  "steps_post (board_is m) (answer_ok P m Req_getProductType) (pool_prog P Req_getProductType)"
  "steps_post (board_is m) (answer_ok P m Req_getHardwareVesion) (pool_prog P Req_getHardwareVesion)"
  "steps_post (board_is m) (answer_ok P m Req_getProductId) (pool_prog P Req_getProductId)"
  by (auto simp: steps_post_prim answer_ok_def asked_kind_def members_def RjcoreService_def respond_def check_init_def
      getSerialNumber_def getProductType_def getHardwareVesion_def getProductId_def)

lemma settled_answer_ok:
  assumes "settled_answer P m q = Some a"
  shows "steps_post (board_is m) (answer_ok P m q) (pool_prog P q)"
proof (cases "asks_board q")
  case True
  then show ?thesis
  proof (cases q)
    case Req_getPowerState
    then show ?thesis using assms
      by (cases m) (auto simp: getPowerState_prog_def seq_prim answer_ok_def asked_kind_def members_def Let_def split: if_splits)
  next
    case (Req_getLedStatus color)
    then show ?thesis using assms
      by (cases m) (auto simp: getLedStatus_prog_def seq_prim answer_ok_def asked_kind_def members_def Let_def split: if_splits)
  next
    case (Req_getPropertyValue key)
    then show ?thesis using assms
      by (cases m) (auto simp: steps_post_prim answer_ok_def asked_kind_def RjcoreService_def respond_def
          getPropertyValue_def members_def Let_def split: if_splits)
  qed (simp_all only: board_fields_answer asks_board.simps)
next
  case False
  then have "pool_prog P q = Done a"
    using assms
    by (cases m; cases q) (auto simp: chmodFile_prog_def chmodDir_prog_def rmFile_prog_def resolution_prog_def
        resolution_ok_def bandwidth_prog_def checkIpConflict_prog_def ping_prog_def not_le Let_def split: if_splits)
  then show ?thesis using assms by (simp add: answer_ok_def settled_kind)
qed

lemma calls_answer_ok: "steps_post (board_is m) (answer_ok P m q) (pool_prog P q)"
  using open_answer_ok settled_answer_ok by (cases "settled_answer P m q") blast+

interpretation pool_answers:
  pool_answer "\<lambda>_. True" "pool_lock P" "pool_prog P" "board_is m" "answer_ok P m" for P m
proof unfold_locales
  show "steps_post (board_is m) (answer_ok P m q) (pool_prog P q)" for q
    by (rule calls_answer_ok)
  show "board_is m (lock_event ELock l s)" "board_is m (lock_event EUnlock l s)"
    if "board_is m s" for l and s :: "'a sys"
    using that by (cases l; simp add: members_def)+
qed

section \<open>Calls that only look\<close>

text \<open>The calls without a mutex whose answer the arguments or the board settle change nothing.\<close>

definition settled_call :: "'w platform \<Rightarrow> bool \<times> str16 \<times> str16 \<times> str16 \<times> str16 \<Rightarrow> request \<Rightarrow> bool" where
  "settled_call P m q \<longleftrightarrow> pool_lock P q = None \<and> settled_answer P m q \<noteq> None"

lemma silent_fields:
  "settled_answer P m Req_getSerialNumber = Some a \<Longrightarrow> silent (board_is m) a (pool_prog P Req_getSerialNumber)"
  "settled_answer P m Req_getProductType = Some a \<Longrightarrow> silent (board_is m) a (pool_prog P Req_getProductType)"
  "settled_answer P m Req_getHardwareVesion = Some a \<Longrightarrow> silent (board_is m) a (pool_prog P Req_getHardwareVesion)"
  "settled_answer P m Req_getProductId = Some a \<Longrightarrow> silent (board_is m) a (pool_prog P Req_getProductId)"
  by (auto simp: prim_def members_def RjcoreService_def respond_def check_init_def
      getSerialNumber_def getProductType_def getHardwareVesion_def getProductId_def Let_def)

lemma settled_silent:
  assumes "settled_answer P m q = Some a"
  shows "silent (board_is m) a (pool_prog P q)"
proof (cases "asks_board q")
  case True
  then show ?thesis
  proof (cases q)
    case Req_getPowerState
    then show ?thesis using assms
      by (cases m) (auto simp: getPowerState_prog_def seq_prim members_def Let_def split: if_splits)
  next
    case (Req_getLedStatus color)
    then show ?thesis using assms
      by (cases m) (auto simp: getLedStatus_prog_def seq_prim members_def Let_def split: if_splits)
  next
    case (Req_getPropertyValue key)
    then show ?thesis using assms
      by (cases m) (auto simp: prim_def RjcoreService_def respond_def getPropertyValue_def members_def Let_def split: if_splits)
  qed (use assms silent_fields in \<open>simp_all only: asks_board.simps\<close>)
next
  case False
  then have "pool_prog P q = Done a"
    using assms
    by (cases m; cases q) (auto simp: chmodFile_prog_def chmodDir_prog_def rmFile_prog_def resolution_prog_def
        resolution_ok_def bandwidth_prog_def checkIpConflict_prog_def ping_prog_def not_le Let_def split: if_splits)
  then show ?thesis by simp
qed

lemma settled_without_lock:
  assumes "settled_call P m q"
  shows "pool_lock P q = None \<and> perform (RjcoreService P) q = uninterrupted (pool_prog P q) \<and>
    (\<exists>r. silent (board_is m) r (pool_prog P q))"
  using assms settled_silent [of P m q] uninterrupted_calls [of P q] by (auto simp: settled_call_def)

lemma board_lock_event: "board_is m s \<Longrightarrow> board_is m (lock_event e (Some l) s)"
  by (simp add: members_def)

lemma refused_collect: "is_collect q \<Longrightarrow> pool_lock P q \<noteq> Some LogLock \<Longrightarrow> settled_call P m q"
  by (cases q; cases m) (auto simp: settled_call_def Let_def split: if_splits)

lemma locked_bandwidth: "is_bandwidth q \<Longrightarrow> pool_lock P q = Some NetLock"
  by (cases q) simp_all

interpretation log_board: monitor "\<lambda>q. is_collect q \<or> settled_call P (members s0) q" "pool_lock P" "pool_prog P"
  "perform (RjcoreService P)" LogLock "board_is (members s0)" s0 for P s0
proof unfold_locales
  show "perform (RjcoreService P) q = with_lock LogLock (uninterrupted (pool_prog P q))"
    if "pool_lock P q = Some LogLock" for q
    using that uninterrupted_calls [of P q] by simp
qed (use settled_without_lock refused_collect board_kept.inv_calls board_lock_event in blast)+

interpretation net_board: monitor "\<lambda>q. is_bandwidth q \<or> settled_call P (members s0) q" "pool_lock P" "pool_prog P"
  "perform (RjcoreService P)" NetLock "board_is (members s0)" s0 for P s0
proof unfold_locales
  show "perform (RjcoreService P) q = with_lock NetLock (uninterrupted (pool_prog P q))"
    if "pool_lock P q = Some NetLock" for q
    using that uninterrupted_calls [of P q] by simp
qed (use settled_without_lock locked_bandwidth board_kept.inv_calls board_lock_event in blast)+

end
