(* ===== verification/PoolProps.thy ===== *)
theory PoolProps
  imports PoolAnswers CoreProps
begin

text \<open>
  What the calls of the service do on the threads of the server: calls under one mutex, with calls
  whose answer is settled among them, are served as if one after the other, what is taken is given back, no call waits for ever; and what the
  mutexes do not protect, the disposition of \<open>SIGCHLD\<close> and the vendor sector, two calls can lose.
\<close>

abbreviation server_pool ::
  "'w platform \<Rightarrow> (request \<Rightarrow> bool) \<Rightarrow> nat \<Rightarrow> 'w sys \<Rightarrow> 'w pool \<Rightarrow> bool" where
  "server_pool P ok n s0 s \<equiv> reach (pool_start s0) (pool_step ok (pool_lock P) (pool_prog P) n) s"

abbreviation fresh_pool :: "'w sys \<Rightarrow> 'w pool" where
  "fresh_pool s0 \<equiv> \<lparr>shared = s0, thr = \<lambda>_. Idle, served = []\<rparr>"

lemma reach_fresh: "server_pool P ok n s0 (fresh_pool s0)"
  by (rule reach_start) (simp add: pool_start_def)

text \<open>A pool in which one call that needs no mutex is under way.\<close>

abbreviation call_pool :: "'w platform \<Rightarrow> request \<Rightarrow> 'w sys \<Rightarrow> 'w pool" where
  "call_pool P q s0 \<equiv> fresh_pool s0\<lparr>thr := (\<lambda>_. Idle)(0 := Inside q (pool_prog P q))\<rparr>"

lemma reach_call: "ok q \<Longrightarrow> pool_lock P q = None \<Longrightarrow> server_pool P ok 2 s0 (call_pool P q s0)"
  using pool_begin [OF reach_fresh, of 0 2 s0 ok q P] by (simp del: fun_upd_apply)

section \<open>Calls under one mutex\<close>

text \<open>
  C5: On threads that make only calls of \<open>collectLogFiles_block\<close>, whose body is many steps under a
  mutex, and calls that take no mutex and whose answer the arguments or the board settle (the getters
  of the board, and every refusal), all calls are served as by a server that runs one call at a time
  and at once: the answers given so far, in their order, are those of such a server, and when no
  thread is inside the mutex the machine is in the state it leaves.  The same holds with
  \<open>checkBandwidth_block\<close> and its mutex in place of \<open>collectLogFiles_block\<close>.
\<close>

lemma locked_calls_serial:
  assumes "(ok = (\<lambda>q. is_collect q \<or> settled_call P (members s0) q) \<and> m = LogLock) \<or>
      (ok = (\<lambda>q. is_bandwidth q \<or> settled_call P (members s0) q) \<and> m = NetLock)"
    "server_pool P ok n s0 s"
  shows "\<exists>a. reach (serial_start s0) (serial_step ok (perform (RjcoreService P))) a \<and> shist a = served s \<and>
    ((\<forall>t. \<not> inside_lock (pool_lock P) m (thr s t)) \<longrightarrow> sstate a = shared s)"
  using assms(1)
proof (elim disjE conjE)
  assume ok: "ok = (\<lambda>q. is_collect q \<or> settled_call P (members s0) q)" and m: "m = LogLock"
  show ?thesis using log_board.serial.sim_reach [OF assms(2) [unfolded ok]] unfolding ok m serial_rel_def by metis
next
  assume ok: "ok = (\<lambda>q. is_bandwidth q \<or> settled_call P (members s0) q)" and m: "m = NetLock"
  show ?thesis using net_board.serial.sim_reach [OF assms(2) [unfolded ok]] unfolding ok m serial_rel_def by metis
qed

text \<open>A packing call has the mutex and has begun when a getter arrives; then both run to their ends.\<close>

lemma locked_calls_serial_witness:
  "let P = bench False 32; s0 = bench_state []; q = Req_collectLogFiles_block (to16 P ''a.zip'');
       ok = (\<lambda>q. is_collect q \<or> settled_call P (members s0) q)
   in \<exists>s a r r'. server_pool P ok 2 s0 s \<and> (0, q, r) \<in> set (served s) \<and> (1, Req_getSerialNumber, r') \<in> set (served s) \<and>
        reach (serial_start s0) (serial_step ok (perform (RjcoreService P))) a \<and> shist a = served s \<and> sstate a = shared s"
proof -
  let ?P = "bench False 32" and ?s0 = "bench_state []"
  let ?q = "Req_collectLogFiles_block (to16 ?P ''a.zip'')"
  let ?ok = "\<lambda>q. is_collect q \<or> settled_call ?P (members ?s0) q"
  let ?R = "server_pool ?P ?ok 2 ?s0"
  have "c_str ?P (to16 ?P ''a.zip'') = ''a.zip''" by (rule bench_c_str) (simp add: no_nul_def)
  then have lock: "pool_lock ?P ?q = Some LogLock"
    by (auto simp: refuses_zip_def contains_sublist sublist_code)
  let ?s1 = "fresh_pool ?s0\<lparr>thr := (\<lambda>_. Idle)(0 := Queued ?q)\<rparr>"
  let ?s2 = "?s1\<lparr>shared := lock_event ELock (Some LogLock) ?s0, thr := (thr ?s1)(0 := Inside ?q (pool_prog ?P ?q))\<rparr>"
  obtain p sh where p: "first_steps 2 (pool_prog ?P ?q) (shared ?s2) = (p, sh)" by (metis surj_pair)
  let ?s3 = "?s2\<lparr>shared := sh, thr := (thr ?s2)(0 := Inside ?q p)\<rparr>"
  let ?s4 = "?s3\<lparr>thr := (thr ?s3)(1 := Queued Req_getSerialNumber)\<rparr>"
  have "?R ?s1" using reach_fresh by (rule reach_step) (use arrive [of 0 2 "fresh_pool ?s0" ?ok ?q] in simp)
  moreover have "pool_step ?ok (pool_lock ?P) (pool_prog ?P) 2 ?s1 ?s2"
    using enter [of ?s1 0 ?q "pool_lock ?P" ?ok "pool_prog ?P" 2] lock by (simp del: pool_prog.simps pool_lock.simps)
  ultimately have "?R ?s2" by (rule reach_step)
  from pool_some [OF this, of 0 ?q "pool_prog ?P ?q" 2 p sh] p have "?R ?s3" by (simp del: pool_prog.simps pool_lock.simps)
  moreover have "settled_call ?P (members ?s0) Req_getSerialNumber" by (simp add: settled_call_def members_def Let_def)
  ultimately have s4: "?R ?s4" by (intro reach_step [of _ _ ?s3 ?s4] arrive) simp_all
  have "\<forall>t\<ge>2. thr ?s4 t = Idle" by simp
  from pool_drains [OF s4 this] obtain s r r' where s: "?R s" "\<forall>t. thr s t = Idle" "(0, ?q, r) \<in> set (served s)"
      "(1, Req_getSerialNumber, r') \<in> set (served s)"
    by (fastforce simp del: pool_prog.simps pool_lock.simps)
  obtain a where "reach (serial_start ?s0) (serial_step ?ok (perform (RjcoreService ?P))) a" "shist a = served s"
      "(\<forall>t. \<not> inside_lock (pool_lock ?P) LogLock (thr s t)) \<longrightarrow> sstate a = shared s"
    using locked_calls_serial [OF disjI1 s(1)] by blast
  then show ?thesis using s unfolding Let_def by auto
qed

section \<open>What calls take and give back\<close>

text \<open>
  C18: When all calls are over, in whatever way they overlapped, every pipe, file, descriptor and
  mutex that was taken is given back.
\<close>

lemma pool_balanced:
  assumes "server_pool P (\<lambda>_. True) n s0 s" "\<forall>t. thr s t = Idle" "h \<noteq> HDir"
  shows "held h (trace (shared s)) = held h (trace s0)"
proof (cases h)
  case (HMutex m)
  then show ?thesis using pool_mutexes.mutex_held [OF assms(1), of m] assms(2) by simp
qed (use pool_pipes.ledger_idle [OF assms(1,2)] pool_files.ledger_idle [OF assms(1,2)]
    pool_fds.ledger_idle [OF assms(1,2)] assms(3) in simp_all)

lemma pool_balanced_witness:
  "\<exists>s es. server_pool (bench False 32) (\<lambda>_. True) 2 (bench_state []) s \<and> served s = es \<and> es \<noteq> [] \<and>
     held HPipe (trace (shared s)) = held HPipe []"
proof -
  let ?q = "Req_chmodFile [] []" and ?P = "bench False 32"
  have "server_pool ?P (\<lambda>_. True) 2 (bench_state []) (call_pool ?P ?q (bench_state []))"
    by (rule reach_call) simp_all
  from pool_drains [OF this] obtain s es where s: "server_pool ?P (\<lambda>_. True) 2 (bench_state []) s"
      "\<forall>t. thr s t = Idle" "served s = es" "\<exists>r. (0, ?q, r) \<in> set es"
    by (fastforce simp del: pool_prog.simps)
  then have "es \<noteq> []" by auto
  with s(1,3) pool_balanced [OF s(1,2), of HPipe] show ?thesis by auto
qed

text \<open>
  No call waits for ever: from every state of the pool one is reachable in which every call that
  is under way has been answered and no thread is busy.
\<close>

lemma pool_never_blocks:
  assumes "server_pool P ok n s0 s"
  shows "\<exists>s' es. server_pool P ok n s0 s' \<and> (\<forall>t. thr s' t = Idle) \<and> served s' = served s @ es \<and>
    (\<forall>t q. call_of_thread (thr s t) = Some q \<longrightarrow> (\<exists>r. (t, q, r) \<in> set es))"
  using assms pool_wf.inv_reach [OF assms] by (intro pool_drains) (simp_all add: threads_wf_def)

lemma pool_never_blocks_witness:
  "let P = bench False 32; q = Req_reboot
   in \<exists>s' es. server_pool P (\<lambda>_. True) 2 (bench_state []) s' \<and> (\<forall>t. thr s' t = Idle) \<and>
        served s' = served (call_pool P q (bench_state [])) @ es \<and> (\<exists>r. (0, q, r) \<in> set es)"
proof -
  let ?q = "Req_reboot" and ?P = "bench False 32"
  have "server_pool ?P (\<lambda>_. True) 2 (bench_state []) (call_pool ?P ?q (bench_state []))"
    by (rule reach_call) simp_all
  from pool_never_blocks [OF this] show ?thesis by (fastforce simp: Let_def simp del: pool_prog.simps)
qed

section \<open>The answers\<close>

text \<open>
  Whatever calls overlap, the fields read from the board stay as they are, every answer is of the kind
  its function has, and where the arguments or the board settle an answer it is that one: the fields of
  the board to the getters of the board, and the refusals of arguments out of range, of addresses that are none, of
  empty names and of functions the board does not have.
\<close>

lemma pool_answers_ok:
  assumes "server_pool P (\<lambda>_. True) n s0 s"
  shows "members (shared s) = members s0 \<and> (\<forall>(t, q, r) \<in> set (served s). answer_ok P (members s0) q r)"
  using pool_answers.post_reach [OF assms, of "members s0"] by (simp add: pool_post_def)

lemma pool_answers_ok_witness:
  "\<exists>s. server_pool (bench False 32) (\<lambda>_. True) 2 (bench_state []) s \<and> (0, Req_rmFile [], RBool False) \<in> set (served s)"
proof -
  let ?q = "Req_rmFile []" and ?P = "bench False 32"
  have "server_pool ?P (\<lambda>_. True) 2 (bench_state []) (call_pool ?P ?q (bench_state []))"
    by (rule reach_call) simp_all
  from pool_drains [OF this] obtain s r where s: "server_pool ?P (\<lambda>_. True) 2 (bench_state []) s"
      "(0, ?q, r) \<in> set (served s)"
    by (fastforce simp del: pool_prog.simps)
  then have "answer_ok ?P (members (bench_state [])) ?q r" using pool_answers_ok [OF s(1)] by blast
  then have "r = RBool False" by (simp add: answer_ok_def members_def Let_def)
  with s show ?thesis by blast
qed

text \<open>The state in which the threads of the server begin.\<close>

lemma main_members:
  assumes "nand_fits sn ty hw idb"
    "pf_fopen P INFO_PATH ''r+'' (world s) = Some (nand_image sn ty hw idb, True)"
    "\<forall>c \<in> set idb. char_val (char_signed P) c = of_char c"
    "long_bits P = 32 \<or> long_bits P = 64 \<and> (of_char (idb ! 0) :: nat) < 128"
  shows "members (end_of (rjcoreserver_main P) s) =
    (True, to16 P sn, to16 P ty, to16 P hw, to16 P (pad_zero 8 (show_base 16 (big_endian idb))))"
  using construction_run [OF assms] by (simp add: rjcoreserver_main_def instantiate_def members_def case_prod_beta)

text \<open>
  C2: From the board file to the client: when \<open>/proc/sn.info\<close> holds a serial number, a type, a
  hardware version and an id, then whatever calls overlap on the threads that \<open>main\<close> starts, every
  answer to one of the four getters of the board is the text that was laid out in the file, where
  \<open>char\<close> gives the bytes of the id without a sign and \<open>long\<close> has 32 bits or the first of them is small.
\<close>

lemma board_file_to_answers:
  assumes "nand_fits sn ty hw idb"
    "pf_fopen P INFO_PATH ''r+'' (world s0) = Some (nand_image sn ty hw idb, True)"
    "\<forall>c \<in> set idb. char_val (char_signed P) c = of_char c"
    "long_bits P = 32 \<or> long_bits P = 64 \<and> (of_char (idb ! 0) :: nat) < 128"
    "server_pool P (\<lambda>_. True) n (end_of (rjcoreserver_main P) s0) s" "(t, q, r) \<in> set (served s)"
  shows "(q = Req_getSerialNumber \<longrightarrow> r = RStr (to16 P sn)) \<and>
    (q = Req_getProductType \<longrightarrow> r = RStr (to16 P ty)) \<and>
    (q = Req_getHardwareVesion \<longrightarrow> r = RStr (to16 P hw)) \<and>
    (q = Req_getProductId \<longrightarrow> r = RStr (to16 P (pad_zero 8 (show_base 16 (big_endian idb)))))"
proof -
  have "answer_ok P (members (end_of (rjcoreserver_main P) s0)) q r"
    using pool_answers.post_reach [OF assms(5) refl] assms(6) by (auto simp: pool_post_def)
  then show ?thesis unfolding main_members [OF assms(1-4)] by (auto simp: answer_ok_def)
qed

lemma board_file_to_answers_witness:
  "\<exists>s. server_pool (bench False 32) (\<lambda>_. True) 2
       (end_of (rjcoreserver_main (bench False 32)) (bench_state [(INFO_PATH, sample_board)])) s \<and>
     (0, Req_getSerialNumber, RStr (to16 (bench False 32) ''G1AB2'')) \<in> set (served s)"
proof -
  let ?P = "bench False 32" and ?q = "Req_getSerialNumber" and ?w = "bench_state [(INFO_PATH, sample_board)]"
  let ?s0 = "end_of (rjcoreserver_main ?P) ?w"
  have "server_pool ?P (\<lambda>_. True) 2 ?s0 (call_pool ?P ?q ?s0)"
    by (rule reach_call) simp_all
  from pool_drains [OF this] obtain s r where s: "server_pool ?P (\<lambda>_. True) 2 ?s0 s" "(0, ?q, r) \<in> set (served s)"
    by (fastforce simp del: pool_prog.simps)
  from board_file_to_answers [OF _ _ _ _ s, of "''G1AB2''" "''Rain200S''" "''V1.2''" "[CHR 0x12, CHR 0x34, CHR 0x56, CHR 0x9A]"]
  have "r = RStr (to16 ?P ''G1AB2'')"
    by (simp add: nand_fits_def PRODUCT_ID_LEN_def sample_board_def char_val_def)
  with s show ?thesis by blast
qed

section \<open>The disposition of SIGCHLD\<close>

interpretation serial_handler:
  step_system "serial_start s0" "serial_step ok (perform (RjcoreService P))" "\<lambda>a. sigchld (sstate a) = sigchld s0"
  for s0 ok P
proof unfold_locales
  show "sigchld (sstate b) = sigchld s0"
    if "sigchld (sstate a) = sigchld s0" "serial_step ok (perform (RjcoreService P)) a b" for a b
  proof -
    have "run_state (perform (RjcoreService P) q) s = (r, s') \<Longrightarrow> sigchld s' = sigchld s" for q s r s'
      using sigchld_frame.keeps_perform unfolding keeps_def same_sigchld_def by (metis snd_conv)
    with that show ?thesis by (auto simp: serial_step_iff)
  qed
qed (simp add: serial_start_def)

lemmas serial_keeps_handler = serial_handler.inv_reach

text \<open>
  C13: Whatever calls overlap, the disposition of \<open>SIGCHLD\<close> is only ever the one the server
  started with or the default; and when all calls are of one function with a mutex, it is the one the
  server started with whenever no thread is inside.
\<close>

lemma pool_sigchld:
  "(\<forall>s. server_pool P (\<lambda>_. True) n s0 s \<longrightarrow> sigchld (shared s) \<in> {sigchld s0, SIG_DFL}) \<and>
   (\<forall>s. server_pool P is_collect n s0 s \<longrightarrow> (\<forall>t. \<not> inside_lock (pool_lock P) LogLock (thr s t)) \<longrightarrow>
      sigchld (shared s) = sigchld s0) \<and>
   (\<forall>s. server_pool P is_bandwidth n s0 s \<longrightarrow> (\<forall>t. \<not> inside_lock (pool_lock P) NetLock (thr s t)) \<longrightarrow>
      sigchld (shared s) = sigchld s0)"
proof (intro conjI allI impI)
  show "sigchld (shared s) \<in> {sigchld s0, SIG_DFL}" if "server_pool P (\<lambda>_. True) n s0 s" for s
    using pool_handler.post_reach [OF that, of "sigchld s0"] by (simp add: pool_post_def)
  show "sigchld (shared s) = sigchld s0"
    if "server_pool P is_collect n s0 s" "\<forall>t. \<not> inside_lock (pool_lock P) LogLock (thr s t)" for s
    using log_monitor.serial.sim_reach [OF that(1)] that(2) serial_keeps_handler unfolding serial_rel_def by metis
  show "sigchld (shared s) = sigchld s0"
    if "server_pool P is_bandwidth n s0 s" "\<forall>t. \<not> inside_lock (pool_lock P) NetLock (thr s t)" for s
    using net_monitor.serial.sim_reach [OF that(1)] that(2) serial_keeps_handler unfolding serial_rel_def by metis
qed

lemma pool_sigchld_witness:
  "sigchld (shared (fresh_pool (bench_state []))) = SIG_IGN"
  using pool_sigchld [where P = "bench False 32" and n = 2 and ?s0.0 = "bench_state []"]
    reach_fresh [where P = "bench False 32" and n = 2 and ?s0.0 = "bench_state []" and ok = is_collect] by simp

section \<open>Two calls that overlap\<close>

text \<open>
  The first call makes \<open>i\<close> steps, then the second makes \<open>j\<close>, then the first is run to its end and then
  the second.
\<close>

lemma overlap:
  assumes "pool_lock P qa = None" "pool_lock P qb = None"
    "first_steps i (pool_prog P qa) s0 = (restA, sA)" "first_steps j (pool_prog P qb) sA = (restB, sB)"
    "exec restA sB = (ra, s1)" "exec restB s1 = (rb, s2)"
  shows "\<exists>s. server_pool P (\<lambda>_. True) 2 s0 s \<and> (\<forall>t. thr s t = Idle) \<and>
    served s = [(0, qa, ra), (1, qb, rb)] \<and> shared s = s2"
proof -
  let ?reach = "server_pool P (\<lambda>_. True) 2 s0"
  let ?t1 = "call_pool P qa s0"
  let ?t2 = "?t1\<lparr>shared := sA, thr := (thr ?t1)(0 := Inside qa restA)\<rparr>"
  let ?t3 = "?t2\<lparr>thr := (thr ?t2)(1 := Inside qb (pool_prog P qb))\<rparr>"
  let ?t4 = "?t3\<lparr>shared := sB, thr := (thr ?t3)(1 := Inside qb restB)\<rparr>"
  let ?t5 = "?t4\<lparr>shared := s1, thr := (thr ?t4)(0 := Idle), served := served ?t4 @ [(0, qa, ra)]\<rparr>"
  let ?t6 = "?t5\<lparr>shared := s2, thr := (thr ?t5)(1 := Idle), served := served ?t5 @ [(1, qb, rb)]\<rparr>"
  have "?reach ?t1" using assms(1) by (rule reach_call [where ok = "\<lambda>_. True", OF TrueI])
  then have "?reach ?t2" by (rule pool_some [where i = i and p = "pool_prog P qa"]) (use assms(3) in simp_all)
  then have "?reach ?t3" by (rule pool_begin) (simp_all add: assms(2))
  then have "?reach ?t4" by (rule pool_some [where i = j and p = "pool_prog P qb"]) (use assms(4) in simp_all)
  from pool_solo [OF this, of 0 qa restA ra s1] have "?reach ?t5" by (simp add: assms(1,5) del: fun_upd_apply) (simp add: assms)
  from pool_solo [OF this, of 1 qb restB rb s2] have "?reach ?t6" by (simp add: assms(2,6) del: fun_upd_apply) (simp add: assms)
  then show ?thesis by (intro exI [of _ ?t6]) simp
qed

text \<open>Where \<open>rmFile\<close> stands when it has installed the default, and what is left of it.\<close>

lemma rmFile_first:
  assumes "path \<noteq> to16 P []" "pf_access P (c_str P path) (world s)"
    "pf_opendir P (c_str P path) (world s) = (False, w)"
  shows "\<exists>rest. first_steps 3 (pool_prog P (Req_rmFile path)) s =
      (rest, s\<lparr>world := w, trace := trace s @ [EOpendir (c_str P path) False], sigchld := SIG_DFL\<rparr>) \<and>
    (\<forall>u. \<exists>r u'. exec rest u = (r, u') \<and> sigchld u' = sigchld s)"
  using assms
  by (simp add: rmFile_prog_def mySystem_prog_def seq_prim prim_defs Let_def size_defs numeral_3_eq_3)

text \<open>
  C12: The mutexes do not protect the disposition of \<open>SIGCHLD\<close>: of two calls of
  \<open>rmFile\<close> on files that are there, the second can save the default that the first has installed and put it
  back last: in that interleaving the disposition is the default for good, with both calls answered.
\<close>

lemma concurrent_rmFile_loses_handler:
  assumes "a \<noteq> to16 P []" "pf_access P (c_str P a) (world s0)"
    "pf_opendir P (c_str P a) (world s0) = (False, w1)"
    "b \<noteq> to16 P []" "pf_access P (c_str P b) w1" "pf_opendir P (c_str P b) w1 = (False, w2)"
  shows "\<exists>s ra rb. server_pool P (\<lambda>_. True) 2 s0 s \<and> (\<forall>t. thr s t = Idle) \<and>
    served s = [(0, Req_rmFile a, ra), (1, Req_rmFile b, rb)] \<and> sigchld (shared s) = SIG_DFL"
proof -
  obtain restA sA where A: "first_steps 3 (pool_prog P (Req_rmFile a)) s0 = (restA, sA)" "world sA = w1" "sigchld sA = SIG_DFL"
    using rmFile_first [OF assms(1-3)] by fastforce
  obtain restB sB where B: "first_steps 3 (pool_prog P (Req_rmFile b)) sA = (restB, sB)"
      "\<And>u. \<exists>r u'. exec restB u = (r, u') \<and> sigchld u' = sigchld sA"
    using rmFile_first [of b P sA w2] assms(4-6) A(2) by fastforce
  obtain ra s1 where ra: "exec restA sB = (ra, s1)" by fastforce
  obtain rb s2 where rb: "exec restB s1 = (rb, s2)" "sigchld s2 = SIG_DFL" using B(2) A(3) by metis
  from overlap [OF _ _ A(1) B(1) ra rb(1)] rb(2) show ?thesis by auto
qed

lemma concurrent_rmFile_loses_handler_witness:
  "let P = bench False 32; s0 = bench_state [(''/a'', ''1''), (''/b'', ''2'')]
   in sigchld s0 = SIG_IGN \<and>
      (\<exists>s ra rb. server_pool P (\<lambda>_. True) 2 s0 s \<and> (\<forall>t. thr s t = Idle) \<and>
        served s = [(0, Req_rmFile (to16 P ''/a''), ra), (1, Req_rmFile (to16 P ''/b''), rb)] \<and>
        sigchld (shared s) = SIG_DFL)"
  unfolding Let_def
proof (rule conjI)
  let ?w = "[(''/a'', ''1''), (''/b'', ''2'')]"
  show "sigchld (bench_state ?w) = SIG_IGN" by simp
  have c: "c_str (bench False 32) (to16 (bench False 32) ''/a'') = ''/a''"
      "c_str (bench False 32) (to16 (bench False 32) ''/b'') = ''/b''"
    by (rule bench_c_str, simp)+
  show "\<exists>s ra rb. server_pool (bench False 32) (\<lambda>_. True) 2 (bench_state ?w) s \<and> (\<forall>t. thr s t = Idle) \<and>
      served s = [(0, Req_rmFile (to16 (bench False 32) ''/a''), ra), (1, Req_rmFile (to16 (bench False 32) ''/b''), rb)] \<and>
      sigchld (shared s) = SIG_DFL"
    by (rule concurrent_rmFile_loses_handler [where ?w1.0 = ?w and ?w2.0 = ?w]) (unfold c, simp_all)
qed

section \<open>The vendor sector\<close>

text \<open>A driver of the vendor sector whose requests succeed and give back what was stored.\<close>

definition sector_driver ::
  "'w platform \<Rightarrow> ('w \<Rightarrow> 8 word list) \<Rightarrow> (8 word list \<Rightarrow> 'w \<Rightarrow> 'w) \<Rightarrow> bool" where
  "sector_driver P sector store \<longleftrightarrow>
     (\<forall>sd w. pf_ioctl P GET_VENDOR_SECTOR0 sd w = (0, sd\<lparr>vs_data := sector w\<rparr>, w)) \<and>
     (\<forall>sd w. pf_ioctl P STORE_VENDOR_SECTOR0 sd w = (0, sd, store (vs_data sd) w)) \<and>
     (\<forall>d w. sector (store d w) = d)"

text \<open>Where \<open>setDeviceResolution\<close> stands when it has read the sector: what it stores is settled.\<close>

lemma resolution_first:
  assumes "resolution_ok x y r f" "0 \<le> sint (pf_open P RKNAND_DEVICE (world s))" "sector_driver P sector store"
  shows "\<exists>rest s1. first_steps 2 (pool_prog P (Req_setDeviceResolution x y r f)) s = (rest, s1) \<and> world s1 = world s \<and>
    (\<forall>u. \<exists>u'. exec rest u = (RBool True, u') \<and> world u' = store (put_resolution x y r f (sector (world s))) (world u))"
  using assms
  by (simp add: resolution_prog_def resolution_ok_def sector_driver_def ioctl_def seq_prim Let_def stamp_sector_def
      numeral_2_eq_2)

lemma resolution_whole:
  assumes "resolution_ok x y r f" "0 \<le> sint (pf_open P RKNAND_DEVICE (world s))" "sector_driver P sector store"
  shows "\<exists>s'. exec (pool_prog P (Req_setDeviceResolution x y r f)) s = (RBool True, s') \<and>
    world s' = store (put_resolution x y r f (sector (world s))) (world s)"
proof -
  obtain rest s1 where A: "first_steps 2 (pool_prog P (Req_setDeviceResolution x y r f)) s = (rest, s1)" "world s1 = world s"
      "\<And>u. \<exists>u'. exec rest u = (RBool True, u') \<and> world u' = store (put_resolution x y r f (sector (world s))) (world u)"
    using resolution_first [OF assms] by blast
  from A(3) [of s1] show ?thesis by (simp only: exec_first_steps [OF A(1), symmetric] A(2))
qed

text \<open>Width, height and rate as they are read from the sector.\<close>

definition sector_sizes :: "8 word list \<Rightarrow> nat \<times> nat \<times> nat" where
  "sector_sizes d = (short_at 2 d, short_at 4 d, unat (d ! 6))"

lemma sector_sizes_flag: "sector_sizes (d[1 := v]) = sector_sizes d"
  by (simp add: sector_sizes_def short_at_def)

lemma sector_sizes_put:
  assumes "resolution_ok x y r f" "7 \<le> length d"
  shows "sector_sizes (put_resolution x y r f d) =
    (if f = 0 then sector_sizes d else (nat (sint x), nat (sint y), nat (sint r)))"
  using put_resolution_fields(3,4) [OF assms] sector_sizes_flag [of d 0]
  by (auto simp: sector_sizes_def sector_shows_def)

text \<open>One call after the other.\<close>

definition after_both :: "'w platform \<Rightarrow> request \<Rightarrow> request \<Rightarrow> 'w sys \<Rightarrow> 'w" where
  "after_both P q1 q2 s = world (end_of (perform (RjcoreService P) q2) (end_of (perform (RjcoreService P) q1) s))"

lemma after_both_sector:
  assumes "resolution_ok x1 y1 r1 f1" "resolution_ok x2 y2 r2 f2" "sector_driver P sector store"
    "0 \<le> sint (pf_open P RKNAND_DEVICE (world s0))" "\<And>d. 0 \<le> sint (pf_open P RKNAND_DEVICE (store d (world s0)))"
  shows "sector (after_both P (Req_setDeviceResolution x1 y1 r1 f1) (Req_setDeviceResolution x2 y2 r2 f2) s0) =
    put_resolution x2 y2 r2 f2 (put_resolution x1 y1 r1 f1 (sector (world s0)))"
proof -
  have stored: "sector (store d w) = d" for d w using assms(3) by (simp add: sector_driver_def)
  obtain s1 where s1: "exec (pool_prog P (Req_setDeviceResolution x1 y1 r1 f1)) s0 = (RBool True, s1)"
      "world s1 = store (put_resolution x1 y1 r1 f1 (sector (world s0))) (world s0)"
    using resolution_whole [OF assms(1,4,3)] by blast
  have "0 \<le> sint (pf_open P RKNAND_DEVICE (world s1))" using assms(5) s1(2) by simp
  from resolution_whole [OF assms(2) this assms(3)] obtain s2 where
      "exec (pool_prog P (Req_setDeviceResolution x2 y2 r2 f2)) s1 = (RBool True, s2)"
      "world s2 = store (put_resolution x2 y2 r2 f2 (sector (world s1))) (world s1)"
    by blast
  with s1 show ?thesis unfolding after_both_def uninterrupted_calls by (simp add: stored del: pool_prog.simps)
qed

text \<open>
  C10: No mutex covers \<open>setDeviceResolution\<close>, which reads the sector, changes it and stores it.  A call
  that clears the flag and a call that sets a resolution leave, in either order, the sizes of the second
  one in the sector; when they overlap, both can answer true with the sizes of the second
  one lost: the sector is the old one with the flag cleared.
\<close>

lemma resolution_lost_update:
  assumes "resolution_ok xa ya ra 0" "resolution_ok x y r f" "f \<noteq> 0" "sector_driver P sector store"
    "0 \<le> sint (pf_open P RKNAND_DEVICE (world s0))" "\<And>d. 0 \<le> sint (pf_open P RKNAND_DEVICE (store d (world s0)))"
    "7 \<le> length (sector (world s0))" "a = Req_setDeviceResolution xa ya ra 0" "b = Req_setDeviceResolution x y r f"
  shows "sector_sizes (sector (after_both P a b s0)) = (nat (sint x), nat (sint y), nat (sint r)) \<and>
    sector_sizes (sector (after_both P b a s0)) = (nat (sint x), nat (sint y), nat (sint r)) \<and>
    (\<exists>s. server_pool P (\<lambda>_. True) 2 s0 s \<and> (\<forall>t. thr s t = Idle) \<and>
      served s = [(0, b, RBool True), (1, a, RBool True)] \<and>
      sector (world (shared s)) = (sector (world s0))[1 := 0])"
proof (intro conjI)
  let ?d = "sector (world s0)"
  have stored: "sector (store d w) = d" for d w using assms(4) by (simp add: sector_driver_def)
  have len: "7 \<le> length (put_resolution x y r f ?d)" "7 \<le> length (put_resolution xa ya ra 0 ?d)"
    using put_resolution_fields(1) assms(1,2,7) by simp_all
  show "sector_sizes (sector (after_both P a b s0)) = (nat (sint x), nat (sint y), nat (sint r))"
    "sector_sizes (sector (after_both P b a s0)) = (nat (sint x), nat (sint y), nat (sint r))"
    unfolding assms(8,9) using assms(1-7) len by (simp_all add: after_both_sector sector_sizes_put)
  obtain restA sA where A: "first_steps 2 (pool_prog P a) s0 = (restA, sA)" "world sA = world s0"
      "\<And>u. \<exists>u'. exec restA u = (RBool True, u') \<and> world u' = store (put_resolution xa ya ra 0 ?d) (world u)"
    unfolding assms(8) using resolution_first [OF assms(1,5,4)] by blast
  obtain sB where B: "exec (pool_prog P b) sA = (RBool True, sB)"
    unfolding assms(9) using resolution_whole [OF assms(2), of P sA sector store] assms(4,5) A(2) by auto
  obtain sC where C: "exec restA sB = (RBool True, sC)" "world sC = store (put_resolution xa ya ra 0 ?d) (world sB)"
    using A(3) by blast
  have "sector (world sC) = ?d[1 := 0]" by (simp add: C(2) stored put_resolution_def)
  moreover have "first_steps 0 (pool_prog P b) s0 = (pool_prog P b, s0)" by simp
  from overlap [OF _ _ this A(1) B C(1)] have "\<exists>s. server_pool P (\<lambda>_. True) 2 s0 s \<and> (\<forall>t. thr s t = Idle) \<and>
      served s = [(0, b, RBool True), (1, a, RBool True)] \<and> shared s = sC"
    by (simp add: assms(8,9) del: pool_prog.simps)
  ultimately show "\<exists>s. server_pool P (\<lambda>_. True) 2 s0 s \<and> (\<forall>t. thr s t = Idle) \<and>
      served s = [(0, b, RBool True), (1, a, RBool True)] \<and> sector (world (shared s)) = ?d[1 := 0]"
    by auto
qed

lemma resolution_lost_update_witness:
  "let s0 = sector_state (replicate 512 7); a = Req_setDeviceResolution 800 600 60 0;
       b = Req_setDeviceResolution 1920 1080 60 1
   in sector_sizes (after_both sector_bench a b s0) = (1920, 1080, 60) \<and>
      sector_sizes (after_both sector_bench b a s0) = (1920, 1080, 60) \<and>
      (\<exists>s. server_pool sector_bench (\<lambda>_. True) 2 s0 s \<and> (\<forall>t. thr s t = Idle) \<and>
        served s = [(0, b, RBool True), (1, a, RBool True)] \<and> sector_sizes (world (shared s)) = (1799, 1799, 7))"
proof -
  let ?s0 = "sector_state (replicate 512 7)"
  have "resolution_ok 800 600 60 0" "resolution_ok 1920 1080 60 1" "(1 :: cint) \<noteq> 0" by (simp_all add: resolution_ok_def)
  moreover have "sector_driver sector_bench (\<lambda>w. w) (\<lambda>d w. d)" by (simp add: sector_driver_def sector_bench_def)
  moreover have "0 \<le> sint (pf_open sector_bench p w)" for p w by (simp add: sector_bench_def)
  moreover have w: "world ?s0 = replicate 512 7" by (simp add: sector_state_def)
  ultimately have L: "sector_sizes (after_both sector_bench (Req_setDeviceResolution 800 600 60 0) (Req_setDeviceResolution 1920 1080 60 1) ?s0) = (nat (sint (1920 :: cint)), nat (sint (1080 :: cint)), nat (sint (60 :: cint))) \<and>
    sector_sizes (after_both sector_bench (Req_setDeviceResolution 1920 1080 60 1) (Req_setDeviceResolution 800 600 60 0) ?s0) = (nat (sint (1920 :: cint)), nat (sint (1080 :: cint)), nat (sint (60 :: cint))) \<and>
    (\<exists>s. server_pool sector_bench (\<lambda>_. True) 2 ?s0 s \<and> (\<forall>t. thr s t = Idle) \<and>
      served s = [(0, Req_setDeviceResolution 1920 1080 60 1, RBool True), (1, Req_setDeviceResolution 800 600 60 0, RBool True)] \<and>
      world (shared s) = (world ?s0)[1 := 0])"
    by (intro resolution_lost_update [where sector = "\<lambda>w. w" and store = "\<lambda>d w. d"]) simp_all
  have "sector_sizes ((replicate 512 7)[1 := 0]) = (1799, 1799, 7)"
    unfolding sector_sizes_flag by (simp add: sector_sizes_def short_at_def)
  with L w show ?thesis unfolding Let_def by auto
qed

end
