(* ===== verification/PoolLocks.thy ===== *)
theory PoolLocks
  imports PoolProps
begin

text \<open>
  The same threads with the mutexes as the code has them: a call takes a mutex where it makes an
  \<open>Autolock\<close>, the thread waits there while another (or itself) has it, and the destructor gives it
  back at each return.  That a function needs its mutex, that it takes it before it touches the
  machine, that it gives it back and that it never asks for a second one are facts about the bodies
  here, where the pool of \<open>Pool\<close> has them in its rules; it is shown to be refined.
\<close>

section \<open>Programs with mutexes\<close>

datatype 'w lprog =
    LDone response
  | LAct "'w sys \<Rightarrow> 'w sys" "'w sys \<Rightarrow> 'w lprog"
  | Acquire mutex "'w lprog"
  | Release mutex "'w lprog"

primrec then_do :: "('w sys, response) prog \<Rightarrow> (response \<Rightarrow> 'w lprog) \<Rightarrow> 'w lprog" where
  "then_do (Done r) f = f r"
| "then_do (Act g k) f = LAct g (\<lambda>s. then_do (k s) f)"

text \<open>\<open>Mutex::Autolock\<close> before the rest of a function: its destructor runs after the result is made.\<close>

definition autolock :: "mutex \<Rightarrow> ('w sys, response) prog \<Rightarrow> 'w lprog" where
  "autolock m p = Acquire m (then_do p (\<lambda>r. Release m (LDone r)))"

fun service_prog :: "'w platform \<Rightarrow> request \<Rightarrow> 'w lprog" where
  "service_prog P (Req_collectLogFiles_block zipFilename) =
     (if zipFilename = to16 P [] then LDone (RBool False)
      else if \<not> contains (c_str P zipFilename) ''.zip'' then LDone (RBool False)
      else autolock LogLock (seq (collect_prog P zipFilename) (\<lambda>b. Done (RBool b))))"
| "service_prog P (Req_checkBandwidth_block serverIp user code) =
     autolock NetLock (seq (bandwidth_prog P serverIp user code) (\<lambda>x. Done (RStr x)))"
| "service_prog P q = then_do (pool_prog P q) LDone"

section \<open>Threads\<close>

datatype 'w lthread =
    LIdle
  | LQueued request
  | LRunning request "'w lprog"

record 'w lpool =
  lshared :: "'w sys"
  lthr :: "nat \<Rightarrow> 'w lthread"
  owner :: "mutex \<Rightarrow> nat option"
  lserved :: "(nat \<times> request \<times> response) list"

inductive lpool_step :: "(request \<Rightarrow> 'w lprog) \<Rightarrow> nat \<Rightarrow> 'w lpool \<Rightarrow> 'w lpool \<Rightarrow> bool" for body n where
  l_arrive: "t < n \<Longrightarrow> lthr s t = LIdle \<Longrightarrow>
     lpool_step body n s (s\<lparr>lthr := (lthr s)(t := LQueued q)\<rparr>)"
| l_begin: "lthr s t = LQueued q \<Longrightarrow>
     lpool_step body n s (s\<lparr>lthr := (lthr s)(t := LRunning q (body q))\<rparr>)"
| l_act: "lthr s t = LRunning q (LAct g k) \<Longrightarrow>
     lpool_step body n s (s\<lparr>lshared := g (lshared s), lthr := (lthr s)(t := LRunning q (k (lshared s)))\<rparr>)"
| l_acquire: "lthr s t = LRunning q (Acquire m p) \<Longrightarrow> owner s m = None \<Longrightarrow>
     lpool_step body n s (s\<lparr>lshared := lock_event ELock (Some m) (lshared s), lthr := (lthr s)(t := LRunning q p),
       owner := (owner s)(m := Some t)\<rparr>)"
| l_release: "lthr s t = LRunning q (Release m p) \<Longrightarrow>
     lpool_step body n s (s\<lparr>lshared := lock_event EUnlock (Some m) (lshared s), lthr := (lthr s)(t := LRunning q p),
       owner := (owner s)(m := None)\<rparr>)"
| l_answer: "lthr s t = LRunning q (LDone r) \<Longrightarrow>
     lpool_step body n s (s\<lparr>lthr := (lthr s)(t := LIdle), lserved := lserved s @ [(t, q, r)]\<rparr>)"

definition lpool_start :: "'w sys \<Rightarrow> 'w lpool \<Rightarrow> bool" where
  "lpool_start s0 s \<longleftrightarrow> lshared s = s0 \<and> (\<forall>t. lthr s t = LIdle) \<and> (\<forall>m. owner s m = None) \<and> lserved s = []"

abbreviation locked_pool :: "'w platform \<Rightarrow> nat \<Rightarrow> 'w sys \<Rightarrow> 'w lpool \<Rightarrow> bool" where
  "locked_pool P n s0 s \<equiv> reach (lpool_start s0) (lpool_step (service_prog P) n) s"

section \<open>The discipline of a body\<close>

text \<open>
  With \<open>h\<close> the mutex held: the machine is touched only under the mutex \<open>nd\<close> that is needed, if one is, a
  mutex is taken only when none is held, and what is taken is given back right before the answer.
\<close>

primrec disciplined :: "mutex option \<Rightarrow> 'w lprog \<Rightarrow> mutex option \<Rightarrow> bool" where
  "disciplined nd (LDone r) = (\<lambda>h. h = None)"
| "disciplined nd (LAct g k) = (\<lambda>h. (nd = None \<or> h = nd) \<and> (\<forall>s. disciplined nd (k s) h))"
| "disciplined nd (Acquire m p) = (\<lambda>h. h = None \<and> disciplined nd p (Some m))"
| "disciplined nd (Release m p) = (\<lambda>h. h = Some m \<and> (\<exists>r. p = LDone r))"

primrec acts_keep :: "('w sys \<Rightarrow> 'w sys \<Rightarrow> bool) \<Rightarrow> 'w lprog \<Rightarrow> bool" where
  "acts_keep R (LDone r) \<longleftrightarrow> True"
| "acts_keep R (LAct g k) \<longleftrightarrow> (\<forall>s. R s (g s) \<and> acts_keep R (k s))"
| "acts_keep R (Acquire m p) \<longleftrightarrow> acts_keep R p"
| "acts_keep R (Release m p) \<longleftrightarrow> acts_keep R p"

fun running_ok :: "(request \<Rightarrow> mutex option) \<Rightarrow> 'w lthread \<Rightarrow> mutex option \<Rightarrow> bool" where
  "running_ok nd (LRunning q p) h \<longleftrightarrow> disciplined (nd q) p h \<and> (\<forall>m. acts_keep (same_held (HMutex m)) p)"
| "running_ok nd _ h \<longleftrightarrow> h = None"

text \<open>Who holds what, by thread and by mutex.\<close>

definition owners_ok :: "(mutex \<Rightarrow> nat option) \<Rightarrow> (nat \<Rightarrow> mutex option) \<Rightarrow> bool" where
  "owners_ok ow h \<longleftrightarrow> (\<forall>m t. ow m = Some t \<longleftrightarrow> h t = Some m)"

definition lpool_inv :: "(request \<Rightarrow> mutex option) \<Rightarrow> nat \<Rightarrow> 'w sys \<Rightarrow> 'w lpool \<Rightarrow> bool" where
  "lpool_inv nd n s0 s \<longleftrightarrow> (\<forall>t\<ge>n. lthr s t = LIdle) \<and>
     (\<exists>h. (\<forall>t. running_ok nd (lthr s t) (h t)) \<and> owners_ok (owner s) h) \<and>
     (\<forall>m. held (HMutex m) (trace (lshared s)) = held (HMutex m) (trace s0) + (if owner s m = None then 0 else 1))"

lemma owners_ok_take: "owners_ok ow h \<Longrightarrow> ow m = None \<Longrightarrow> h t = None \<Longrightarrow> owners_ok (ow(m := Some t)) (h(t := Some m))"
  unfolding owners_ok_def by (auto simp: fun_upd_def) (metis option.distinct(1))+

lemma owners_ok_give: "owners_ok ow h \<Longrightarrow> h t = Some m \<Longrightarrow> owners_ok (ow(m := None)) (h(t := None))"
  unfolding owners_ok_def by (auto simp: fun_upd_def) (metis option.inject)+

lemma lpool_inv_upd:
  assumes inv: "lpool_inv nd n s0 s" and h: "\<forall>t. running_ok nd (lthr s t) (h t)"
    and s': "lthr s' = (lthr s)(t := x)" "t < n \<or> x = LIdle"
    and own: "owners_ok (owner s') (h(t := y))" "running_ok nd x y"
    and held: "\<forall>m. held (HMutex m) (trace (lshared s')) - held (HMutex m) (trace (lshared s)) =
      (if owner s' m = None then 0 else 1) - (if owner s m = None then 0 else 1)"
  shows "lpool_inv nd n s0 s'"
proof -
  have "\<forall>u\<ge>n. lthr s' u = LIdle" using inv s' by (auto simp: lpool_inv_def)
  moreover have "\<forall>u. running_ok nd (lthr s' u) ((h(t := y)) u)" using h s'(1) own(2) by simp
  moreover have "\<forall>m. held (HMutex m) (trace (lshared s')) = held (HMutex m) (trace s0) + (if owner s' m = None then 0 else 1)"
    using inv held unfolding lpool_inv_def by (smt (verit))
  ultimately show ?thesis using own(1) unfolding lpool_inv_def by blast
qed

locale lawful_calls =
  fixes body :: "request \<Rightarrow> 'w lprog" and nd :: "request \<Rightarrow> mutex option"
  assumes body_disciplined: "disciplined (nd q) (body q) None"
    and body_keeps: "acts_keep (same_held (HMutex m)) (body q)"
begin

lemma lpool_inv_step:
  assumes inv: "lpool_inv nd n s0 s" and step: "lpool_step body n s s'"
  shows "lpool_inv nd n s0 s'"
proof -
  obtain h where h: "\<forall>t. running_ok nd (lthr s t) (h t)" "owners_ok (owner s) h" using inv by (auto simp: lpool_inv_def)
  have busy: "t < n" if "lthr s t \<noteq> LIdle" for t using inv that by (auto simp: lpool_inv_def not_le [symmetric])
  have at: "running_ok nd (lthr s t) (h t)" for t using h(1) by blast
  have same: "h(t := h t) = h" for t by simp
  note upd = lpool_inv_upd [OF inv h(1)]
  show ?thesis using step
  proof (cases rule: lpool_step.cases)
    case (l_arrive t q)
    then have "h t = None" using at [of t] by simp
    then show ?thesis using l_arrive h(2) by (intro upd [where t = t and x = "LQueued q" and y = None]) (simp_all add: fun_upd_idem)
  next
    case (l_begin t q)
    then have "h t = None" using at [of t] by simp
    then show ?thesis using l_begin h(2) busy [of t] body_disciplined body_keeps
      by (intro upd [where t = t and x = "LRunning q (body q)" and y = None]) (simp_all add: fun_upd_idem)
  next
    case (l_act t q g k)
    then have "running_ok nd (LRunning q (k (lshared s))) (h t)"
        "\<forall>m. same_held (HMutex m) (lshared s) (g (lshared s))" using at [of t] by auto
    then show ?thesis using l_act h(2) busy [of t]
      by (intro upd [where t = t and x = "LRunning q (k (lshared s))" and y = "h t"]) (simp_all add: same_held_def)
  next
    case (l_acquire t q m p)
    then have "h t = None" "running_ok nd (LRunning q p) (Some m)" using at [of t] by auto
    then show ?thesis using l_acquire h(2) busy [of t]
      by (intro upd [where t = t and x = "LRunning q p" and y = "Some m"]) (auto intro: owners_ok_take)
  next
    case (l_release t q m p)
    then have m: "h t = Some m" "running_ok nd (LRunning q p) None" using at [of t] by auto
    then have "owner s m = Some t" using h(2) by (simp add: owners_ok_def)
    then show ?thesis using m l_release h(2) busy [of t]
      by (intro upd [where t = t and x = "LRunning q p" and y = None]) (auto intro: owners_ok_give)
  next
    case (l_answer t q r)
    then have "h t = None" using at [of t] by simp
    then show ?thesis using l_answer h(2) by (intro upd [where t = t and x = LIdle and y = None]) (simp_all add: fun_upd_idem)
  qed
qed

lemma lpool_inv_reach: "reach (lpool_start s0) (lpool_step body n) s \<Longrightarrow> lpool_inv nd n s0 s"
proof (induction rule: reach.induct)
  case (reach_start s)
  then show ?case by (auto simp: lpool_start_def lpool_inv_def owners_ok_def intro!: exI [of _ "\<lambda>_. None"])
qed (rule lpool_inv_step)

text \<open>
  A thread that holds a mutex, or any thread when none is held, can be run to its end with no other
  thread in between: it never has to wait.
\<close>

lemma lpool_solo:
  assumes "reach I (lpool_step body n) s" "lthr s t = LRunning q p" "disciplined d p h"
    "h = None \<Longrightarrow> \<forall>m. owner s m = None"
  shows "\<exists>s' r. reach I (lpool_step body n) s' \<and> lthr s' = (lthr s)(t := LIdle) \<and> lserved s' = lserved s @ [(t, q, r)]"
  using assms
proof (induction p arbitrary: s h)
  case (LDone r)
  from reach_step [OF LDone.prems(1) l_answer [OF LDone.prems(2)]] show ?case by (intro exI conjI) (assumption, simp_all)
next
  case (LAct g k)
  from LAct.IH [OF rangeI reach_step [OF LAct.prems(1) l_act [OF LAct.prems(2)]], of "lshared s" h] LAct.prems(3,4)
  show ?case by (simp del: fun_upd_apply add: fun_upd_same)
next
  case (Acquire m p)
  then have free: "owner s m = None" by simp
  from Acquire.IH [OF reach_step [OF Acquire.prems(1) l_acquire [OF Acquire.prems(2) free]], of "Some m"] Acquire.prems(3)
  show ?case by (simp del: fun_upd_apply add: fun_upd_same)
next
  case (Release m p)
  then obtain r where r: "p = LDone r" by auto
  let ?s = "s\<lparr>lshared := lock_event EUnlock (Some m) (lshared s), lthr := (lthr s)(t := LRunning q p), owner := (owner s)(m := None)\<rparr>"
  have "reach I (lpool_step body n) ?s" by (rule reach_step [OF Release.prems(1) l_release [OF Release.prems(2)]])
  moreover have "lpool_step body n ?s (?s\<lparr>lthr := (lthr ?s)(t := LIdle), lserved := lserved ?s @ [(t, q, r)]\<rparr>)"
    by (rule l_answer) (simp add: r)
  ultimately have "reach I (lpool_step body n) (?s\<lparr>lthr := (lthr ?s)(t := LIdle), lserved := lserved ?s @ [(t, q, r)]\<rparr>)"
    by (rule reach_step)
  then show ?case by (intro exI conjI) (assumption, simp_all)
qed

end

fun lcall_of :: "'w lthread \<Rightarrow> request option" where
  "lcall_of LIdle = None"
| "lcall_of (LQueued q) = Some q"
| "lcall_of (LRunning q p) = Some q"

fun answers_lthread :: "nat \<Rightarrow> 'w lthread \<Rightarrow> nat \<times> request \<times> response \<Rightarrow> bool" where
  "answers_lthread t x (u, q, r) \<longleftrightarrow> u = t \<and> lcall_of x = Some q"

sublocale lawful_calls \<subseteq> ldraining:
  draining "reach (lpool_start s0) (lpool_step body n)" lthr LIdle lserved answers_lthread for s0 n
proof unfold_locales
  fix s t
  let ?R = "reach (lpool_start s0) (lpool_step body n)"
  assume s: "?R s" and busy: "lthr s t \<noteq> LIdle"
  obtain h where h: "\<forall>t. running_ok nd (lthr s t) (h t)" "owners_ok (owner s) h"
    using lpool_inv_reach [OF s] by (auto simp: lpool_inv_def)
  have run: "\<exists>u s' e. lthr s u \<noteq> LIdle \<and> ?R s' \<and> lthr s' = (lthr s)(u := LIdle) \<and> lserved s' = lserved s @ [e] \<and>
      answers_lthread u (lthr s u) e"
    if u: "lthr s u = LRunning q p" and ok: "disciplined d p y" "y = None \<Longrightarrow> \<forall>m. owner s m = None" for u q p d y
  proof -
    obtain s' r where "?R s'" "lthr s' = (lthr s)(u := LIdle)" "lserved s' = lserved s @ [(u, q, r)]"
      using lpool_solo [OF s u ok] by blast
    then show ?thesis using u by (intro exI [of _ u] exI [of _ s'] exI [of _ "(u, q, r)"]) simp
  qed
  show "\<exists>u s' e. lthr s u \<noteq> LIdle \<and> ?R s' \<and> lthr s' = (lthr s)(u := LIdle) \<and> lserved s' = lserved s @ [e] \<and>
      answers_lthread u (lthr s u) e"
  proof (cases "\<exists>m u. owner s m = Some u")
    case True
    then obtain m u where hu: "h u = Some m" using h(2) by (auto simp: owners_ok_def)
    then have "running_ok nd (lthr s u) (Some m)" using h(1) by metis
    then obtain q p where "lthr s u = LRunning q p" "disciplined (nd q) p (Some m)" by (cases "lthr s u") auto
    then show ?thesis by (rule run) simp
  next
    case free: False
    then have none: "owner s m = None" for m by (cases "owner s m") auto
    show ?thesis
    proof (cases "lthr s t")
      case LIdle
      then show ?thesis using busy by simp
    next
      case (LQueued q)
      let ?s = "s\<lparr>lthr := (lthr s)(t := LRunning q (body q))\<rparr>"
      have "?R ?s" by (rule reach_step [OF s l_begin [OF LQueued]])
      from lpool_solo [OF this, of t q "body q" "nd q" None] body_disciplined none
      obtain s' r where "?R s'" "lthr s' = (lthr s)(t := LIdle)" "lserved s' = lserved s @ [(t, q, r)]" by auto
      then show ?thesis using LQueued by (intro exI [of _ t] exI [of _ s'] exI [of _ "(t, q, r)"]) simp
    next
      case (LRunning q p)
      have "running_ok nd (lthr s t) (h t)" using h(1) by blast
      then have "disciplined (nd q) p (h t)" using LRunning by simp
      then show ?thesis by (rule run [OF LRunning]) (simp add: none)
    qed
  qed
qed

section \<open>The bodies of the service\<close>

text \<open>The mutex each function has for its work.\<close>

fun needed_mutex :: "request \<Rightarrow> mutex option" where
  "needed_mutex (Req_collectLogFiles_block zipFilename) = Some LogLock"
| "needed_mutex (Req_checkBandwidth_block serverIp user code) = Some NetLock"
| "needed_mutex _ = None"

lemma disciplined_then:
  "nd = None \<or> h = nd \<Longrightarrow> (\<And>r. disciplined nd (f r) h) \<Longrightarrow> disciplined nd (then_do p f) h"
  by (induction p) auto

lemma disciplined_autolock: "nd = None \<or> nd = Some m \<Longrightarrow> disciplined nd (autolock m p) None"
  by (auto simp: autolock_def intro: disciplined_then)

lemma acts_keep_then: "steps_keep R p \<Longrightarrow> (\<And>r. acts_keep R (f r)) \<Longrightarrow> acts_keep R (then_do p f)"
  by (induction p) auto

text \<open>In the terms of the pool whose rules take the mutex.\<close>

definition finish :: "mutex option \<Rightarrow> response \<Rightarrow> 'w lprog" where
  "finish l r = (case l of None \<Rightarrow> LDone r | Some m \<Rightarrow> Release m (LDone r))"

lemma finish_simps [simp]: "finish None = LDone" "finish (Some m) = (\<lambda>r. Release m (LDone r))"
  by (simp_all add: finish_def fun_eq_iff)

lemma service_prog_alt:
  "service_prog P q = (case pool_lock P q of
     None \<Rightarrow> then_do (pool_prog P q) (finish None) | Some m \<Rightarrow> autolock m (pool_prog P q))"
  by (cases q) (simp_all add: refuses_zip_def autolock_def)

lemma service_keeps: "acts_keep (same_held (HMutex m)) (service_prog P q)"
  unfolding service_prog_alt
  by (auto simp: autolock_def intro!: acts_keep_then keep_calls split: option.split)

lemma service_disciplined: "disciplined (needed_mutex q) (service_prog P q) None"
  by (cases q) (auto intro: disciplined_autolock disciplined_then simp del: pool_prog.simps)

interpretation service_calls: lawful_calls "service_prog P" needed_mutex for P
  by unfold_locales (rule service_disciplined, rule service_keeps)

section \<open>The pool behind it\<close>

text \<open>
  A call that has begun and not yet taken its mutex is still waiting as far as the pool goes, and one
  that has given it back is answered there before its answer is sent.
\<close>

definition lcarries :: "'w platform \<Rightarrow> (nat \<times> request \<times> response) set \<Rightarrow> nat \<Rightarrow> 'w lthread \<Rightarrow> 'w thread \<Rightarrow> bool" where
  "lcarries P sent t b x \<longleftrightarrow> (case b of
       LIdle \<Rightarrow> x = Idle
     | LQueued q \<Rightarrow> x = Queued q
     | LRunning q p \<Rightarrow>
         (x = Queued q \<and> pool_lock P q \<noteq> None \<and> p = service_prog P q) \<or>
         (\<exists>p'. x = Inside q p' \<and> p = then_do p' (finish (pool_lock P q))) \<or>
         (\<exists>r. x = Idle \<and> pool_lock P q \<noteq> None \<and> p = LDone r \<and> (t, q, r) \<in> sent))"

definition lrel :: "'w platform \<Rightarrow> 'w lpool \<Rightarrow> 'w pool \<Rightarrow> bool" where
  "lrel P s a \<longleftrightarrow> lshared s = shared a \<and> set (lserved s) \<subseteq> set (served a) \<and>
     (\<forall>t. lcarries P (set (served a)) t (lthr s t) (thr a t)) \<and>
     (\<forall>m. owner s m = None \<longrightarrow> (\<forall>t. \<not> inside_lock (pool_lock P) m (thr a t)))"

lemma lcarries_more: "lcarries P sent t b x \<Longrightarrow> sent \<subseteq> sent' \<Longrightarrow> lcarries P sent' t b x"
  by (cases b) (auto simp: lcarries_def)

lemma lrel_upd:
  assumes "lrel P s a" "lshared s' = shared a'" "set (lserved s') \<subseteq> set (served a')" "set (served a) \<subseteq> set (served a')"
    "lthr s' = (lthr s)(t := b)" "thr a' = (thr a)(t := x)" "lcarries P (set (served a')) t b x"
    "\<And>m u. owner s' m = None \<Longrightarrow> \<not> inside_lock (pool_lock P) m (thr a' u)"
  shows "lrel P s' a'"
proof -
  have "lcarries P (set (served a')) u (lthr s u) (thr a u)" for u
    using assms(1,4) lcarries_more unfolding lrel_def by blast
  then show ?thesis using assms(2,3,5-8) by (simp add: lrel_def)
qed

text \<open>Where the program of a running thread begins.\<close>

lemma then_do_cases:
  "LAct g k = then_do p' (finish l) \<longleftrightarrow> (\<exists>k'. p' = Act g k' \<and> k = (\<lambda>s. then_do (k' s) (finish l)))"
  "LDone r = then_do p' (finish l) \<longleftrightarrow> l = None \<and> p' = Done r"
  "Release m p = then_do p' (finish l) \<longleftrightarrow> (\<exists>r. l = Some m \<and> p' = Done r \<and> p = LDone r)"
  "Acquire m p \<noteq> then_do p' (finish l)"
  by (cases p'; cases l; auto)+

lemma service_locked: "pool_lock P q = Some m \<Longrightarrow> service_prog P q = Acquire m (then_do (pool_prog P q) (finish (Some m)))"
  by (simp add: service_prog_alt autolock_def)

lemma lrelD:
  assumes "lrel P s a"
  shows "lshared s = shared a" "set (lserved s) \<subseteq> set (served a)" "lcarries P (set (served a)) t (lthr s t) (thr a t)"
    "owner s m = None \<Longrightarrow> \<not> inside_lock (pool_lock P) m (thr a t)"
  using assms by (simp_all add: lrel_def)

text \<open>A step that changes no owner and leaves the thread outside a mutex, or where it was.\<close>

lemma lrel_quiet:
  assumes rel: "lrel P s a" and s': "lshared s' = shared a'" "lthr s' = (lthr s)(t := b)" "thr a' = (thr a)(t := x)"
    "owner s' = owner s" "set (lserved s') \<subseteq> set (served a')" "set (served a) \<subseteq> set (served a')"
    "lcarries P (set (served a')) t b x" "\<And>m. inside_lock (pool_lock P) m x \<Longrightarrow> inside_lock (pool_lock P) m (thr a t)"
  shows "lrel P s' a'"
proof (rule lrel_upd [OF rel s'(1,5,6,2,3,7)])
  fix m u assume "owner s' m = None"
  then have "\<not> inside_lock (pool_lock P) m (thr a v)" for v using lrelD(4) [OF rel] s'(4) by simp
  then show "\<not> inside_lock (pool_lock P) m (thr a' u)" using s'(3,8) by auto
qed

lemma lrel_begin:
  assumes rel: "lrel P s a" and t: "lthr s t = LQueued q"
    and s': "s' = s\<lparr>lthr := (lthr s)(t := LRunning q (service_prog P q))\<rparr>"
  shows "\<exists>a'. (pool_step (\<lambda>_. True) (pool_lock P) (pool_prog P) n a a' \<or> a' = a) \<and> lrel P s' a'"
proof (cases "pool_lock P q")
  case None
  let ?a = "a\<lparr>shared := lock_event ELock (pool_lock P q) (shared a), thr := (thr a)(t := Inside q (pool_prog P q))\<rparr>"
  have "thr a t = Queued q" using lrelD(3) [OF rel, of t] t by (simp add: lcarries_def)
  then have "pool_step (\<lambda>_. True) (pool_lock P) (pool_prog P) n a ?a" using None by (intro enter) simp_all
  moreover have "lrel P s' ?a"
    using s' None lrelD(1,2) [OF rel]
    by (intro lrel_quiet [OF rel, where t = t and b = "LRunning q (service_prog P q)" and x = "Inside q (pool_prog P q)"])
      (auto simp: lcarries_def service_prog_alt simp del: pool_prog.simps pool_lock.simps service_prog.simps)
  ultimately show ?thesis by blast
next
  case (Some m)
  have q: "thr a t = Queued q" using lrelD(3) [OF rel, of t] t by (simp add: lcarries_def)
  have "lrel P s' a"
    using s' Some lrelD(1,2) [OF rel] q
    by (intro lrel_quiet [OF rel, where t = t and b = "LRunning q (service_prog P q)" and x = "Queued q"])
      (auto simp: lcarries_def simp del: pool_prog.simps pool_lock.simps service_prog.simps)
  then show ?thesis by blast
qed

lemma lrel_act:
  assumes rel: "lrel P s a" and t: "lthr s t = LRunning q (LAct g k)"
    and s': "s' = s\<lparr>lshared := g (lshared s), lthr := (lthr s)(t := LRunning q (k (lshared s)))\<rparr>"
  shows "\<exists>a'. pool_step (\<lambda>_. True) (pool_lock P) (pool_prog P) n a a' \<and> lrel P s' a'"
proof -
  have "service_prog P q \<noteq> LAct g k" if "pool_lock P q \<noteq> None" using that service_locked by fastforce
  then obtain k' where k: "thr a t = Inside q (Act g k')" "k = (\<lambda>s. then_do (k' s) (finish (pool_lock P q)))"
    using lrelD(3) [OF rel, of t] t by (auto simp: lcarries_def then_do_cases)
  let ?a = "a\<lparr>shared := g (shared a), thr := (thr a)(t := Inside q (k' (shared a)))\<rparr>"
  have "pool_step (\<lambda>_. True) (pool_lock P) (pool_prog P) n a ?a" by (rule work [OF k(1)])
  moreover have "lrel P s' ?a"
    using s' k lrelD(1,2) [OF rel]
    by (intro lrel_quiet [OF rel, where t = t and b = "LRunning q (k (lshared s))" and x = "Inside q (k' (shared a))"])
      (auto simp: lcarries_def)
  ultimately show ?thesis by blast
qed

lemma lrel_acquire:
  assumes rel: "lrel P s a" and t: "lthr s t = LRunning q (Acquire m p)" "owner s m = None"
    and s': "s' = s\<lparr>lshared := lock_event ELock (Some m) (lshared s), lthr := (lthr s)(t := LRunning q p),
      owner := (owner s)(m := Some t)\<rparr>"
  shows "\<exists>a'. pool_step (\<lambda>_. True) (pool_lock P) (pool_prog P) n a a' \<and> lrel P s' a'"
proof -
  have q: "thr a t = Queued q" "pool_lock P q \<noteq> None" "service_prog P q = Acquire m p"
    using lrelD(3) [OF rel, of t] t by (auto simp: lcarries_def then_do_cases)
  then have m: "pool_lock P q = Some m" "p = then_do (pool_prog P q) (finish (Some m))" using service_locked by fastforce+
  let ?a = "a\<lparr>shared := lock_event ELock (pool_lock P q) (shared a), thr := (thr a)(t := Inside q (pool_prog P q))\<rparr>"
  have "pool_step (\<lambda>_. True) (pool_lock P) (pool_prog P) n a ?a"
    using q m lrelD(4) [OF rel t(2)] by (intro enter) auto
  moreover have "lrel P s' ?a"
  proof (rule lrel_upd [OF rel, where t = t and b = "LRunning q p" and x = "Inside q (pool_prog P q)"])
    fix l u assume l: "owner s' l = None"
    then have "l \<noteq> m" "owner s l = None" using s' by (auto split: if_splits)
    then show "\<not> inside_lock (pool_lock P) l (thr ?a u)" using lrelD(4) [OF rel] m(1) by simp
  qed (use s' m lrelD(1,2) [OF rel] in \<open>auto simp: lcarries_def simp del: pool_prog.simps pool_lock.simps\<close>)
  ultimately show ?thesis by blast
qed

lemma lrel_release:
  assumes rel: "lrel P s a" and t: "lthr s t = LRunning q (Release m p)" and own: "owner s m = Some t"
    and single: "\<And>l. owner s l = Some t \<Longrightarrow> l = m"
    and s': "s' = s\<lparr>lshared := lock_event EUnlock (Some m) (lshared s), lthr := (lthr s)(t := LRunning q p),
      owner := (owner s)(m := None)\<rparr>"
    and alone: "threads_wf (\<lambda>_. True) (pool_lock P) n (thr a)"
  shows "\<exists>a'. pool_step (\<lambda>_. True) (pool_lock P) (pool_prog P) n a a' \<and> lrel P s' a'"
proof -
  have "service_prog P q \<noteq> Release m p" if "pool_lock P q \<noteq> None" using that service_locked by fastforce
  then obtain r where r: "pool_lock P q = Some m" "thr a t = Inside q (Done r)" "p = LDone r"
    using lrelD(3) [OF rel, of t] t by (auto simp: lcarries_def then_do_cases)
  let ?a = "a\<lparr>shared := lock_event EUnlock (pool_lock P q) (shared a), thr := (thr a)(t := Idle), served := served a @ [(t, q, r)]\<rparr>"
  have "pool_step (\<lambda>_. True) (pool_lock P) (pool_prog P) n a ?a" by (rule leave [OF r(2)])
  moreover have "lrel P s' ?a"
  proof (rule lrel_upd [OF rel, where t = t and b = "LRunning q p" and x = Idle])
    fix l u assume l: "owner s' l = None"
    show "\<not> inside_lock (pool_lock P) l (thr ?a u)"
    proof (cases "u = t")
      case False
      show ?thesis
      proof (cases "l = m")
        case True
        have "inside_lock (pool_lock P) m (thr a t)" using r by simp
        then show ?thesis using threads_wf_alone [OF alone, of m t u] False True by simp
      next
        case other: False
        then show ?thesis using l s' lrelD(4) [OF rel] False by simp
      qed
    qed simp
  qed (use s' r lrelD(1,2) [OF rel] in \<open>auto simp: lcarries_def simp del: pool_prog.simps pool_lock.simps\<close>)
  ultimately show ?thesis by blast
qed

lemma lrel_answer:
  assumes rel: "lrel P s a" and t: "lthr s t = LRunning q (LDone r)"
    and s': "s' = s\<lparr>lthr := (lthr s)(t := LIdle), lserved := lserved s @ [(t, q, r)]\<rparr>"
  shows "\<exists>a'. (pool_step (\<lambda>_. True) (pool_lock P) (pool_prog P) n a a' \<or> a' = a) \<and> lrel P s' a'"
proof -
  have "service_prog P q \<noteq> LDone r" if "pool_lock P q \<noteq> None" using that service_locked by fastforce
  then consider (sent) "thr a t = Idle" "(t, q, r) \<in> set (served a)" | (now) "pool_lock P q = None" "thr a t = Inside q (Done r)"
    using lrelD(3) [OF rel, of t] t by (auto simp: lcarries_def then_do_cases)
  then show ?thesis
  proof cases
    case sent
    then have "lrel P s' a" using s' lrelD(1,2) [OF rel]
      by (intro lrel_quiet [OF rel, where t = t and b = LIdle and x = Idle]) (auto simp: lcarries_def)
    then show ?thesis by blast
  next
    case now
    let ?a = "a\<lparr>shared := lock_event EUnlock (pool_lock P q) (shared a), thr := (thr a)(t := Idle), served := served a @ [(t, q, r)]\<rparr>"
    have "pool_step (\<lambda>_. True) (pool_lock P) (pool_prog P) n a ?a" by (rule leave [OF now(2)])
    moreover have "lrel P s' ?a" using s' now lrelD(1,2) [OF rel]
      by (intro lrel_quiet [OF rel, where t = t and b = LIdle and x = Idle]) (auto simp: lcarries_def)
    ultimately show ?thesis by blast
  qed
qed

lemma lrel_arrive:
  assumes rel: "lrel P s a" and t: "t < n" "lthr s t = LIdle" and s': "s' = s\<lparr>lthr := (lthr s)(t := LQueued q)\<rparr>"
  shows "\<exists>a'. pool_step (\<lambda>_. True) (pool_lock P) (pool_prog P) n a a' \<and> lrel P s' a'"
proof -
  let ?a = "a\<lparr>thr := (thr a)(t := Queued q)\<rparr>"
  have "thr a t = Idle" using lrelD(3) [OF rel, of t] t by (simp add: lcarries_def)
  then have "pool_step (\<lambda>_. True) (pool_lock P) (pool_prog P) n a ?a" using t(1) by (intro arrive) simp_all
  moreover have "lrel P s' ?a" using s' lrelD(1,2) [OF rel]
    by (intro lrel_quiet [OF rel, where t = t and b = "LQueued q" and x = "Queued q"]) (auto simp: lcarries_def)
  ultimately show ?thesis by blast
qed

text \<open>The relation together with what always holds on both sides.\<close>

definition locked_rel :: "'w platform \<Rightarrow> nat \<Rightarrow> 'w sys \<Rightarrow> 'w lpool \<Rightarrow> 'w pool \<Rightarrow> bool" where
  "locked_rel P n s0 s a \<longleftrightarrow> lrel P s a \<and> lpool_inv needed_mutex n s0 s \<and> threads_wf (\<lambda>_. True) (pool_lock P) n (thr a)"

lemma locked_sim:
  assumes rel: "lrel P s a" and inv: "lpool_inv needed_mutex n s0 s" and wf: "threads_wf (\<lambda>_. True) (pool_lock P) n (thr a)"
    and step: "lpool_step (service_prog P) n s s'"
  shows "\<exists>a'. (pool_step (\<lambda>_. True) (pool_lock P) (pool_prog P) n a a' \<or> a' = a) \<and> lrel P s' a'"
  using step
proof (cases rule: lpool_step.cases)
  case (l_arrive t q)
  from lrel_arrive [OF rel l_arrive(2,3,1)] show ?thesis by blast
next
  case (l_begin t q)
  from lrel_begin [OF rel l_begin(2,1)] show ?thesis .
next
  case (l_act t q g k)
  from lrel_act [OF rel l_act(2,1)] show ?thesis by blast
next
  case (l_acquire t q m p)
  from lrel_acquire [OF rel l_acquire(2,3,1)] show ?thesis by blast
next
  case (l_release t q m p)
  obtain h where h: "\<forall>t. running_ok needed_mutex (lthr s t) (h t)" "owners_ok (owner s) h" using inv by (auto simp: lpool_inv_def)
  have "running_ok needed_mutex (lthr s t) (h t)" using h(1) by blast
  then have "h t = Some m" using l_release(2) by simp
  then have "owner s m = Some t" "\<And>l. owner s l = Some t \<Longrightarrow> l = m" using h(2) by (simp_all add: owners_ok_def)
  from lrel_release [OF rel l_release(2) this l_release(1) wf] show ?thesis by blast
next
  case (l_answer t q r)
  from lrel_answer [OF rel l_answer(2,1)] show ?thesis .
qed

interpretation locked: simulation "lpool_start s0" "lpool_step (service_prog P) n" "pool_start s0"
  "pool_step (\<lambda>_. True) (pool_lock P) (pool_prog P) n" "locked_rel P n s0" for s0 P n
proof unfold_locales
  show "\<exists>a. pool_start s0 a \<and> locked_rel P n s0 s a" if "lpool_start s0 s" for s
    using that by (intro exI [of _ "fresh_pool s0"])
      (auto simp: lpool_start_def pool_start_def locked_rel_def lrel_def lcarries_def lpool_inv_def owners_ok_def threads_wf_def
        intro!: exI [of _ "\<lambda>_. None"])
  show "\<exists>a'. (pool_step (\<lambda>_. True) (pool_lock P) (pool_prog P) n a a' \<or> a' = a) \<and> locked_rel P n s0 s' a'"
    if rel: "locked_rel P n s0 s a" and step: "lpool_step (service_prog P) n s s'" for s a s'
  proof -
    obtain a' where a': "pool_step (\<lambda>_. True) (pool_lock P) (pool_prog P) n a a' \<or> a' = a" "lrel P s' a'"
      using rel locked_sim [OF _ _ _ step] unfolding locked_rel_def by blast
    moreover have "threads_wf (\<lambda>_. True) (pool_lock P) n (thr a')" using rel a'(1) pool_wf.inv_step unfolding locked_rel_def by blast
    moreover have "lpool_inv needed_mutex n s0 s'" using rel step service_calls.lpool_inv_step unfolding locked_rel_def by blast
    ultimately show ?thesis unfolding locked_rel_def by blast
  qed
qed

text \<open>One thread packs the logs, another waits for the mutex to do so.\<close>

abbreviation pack :: request where
  "pack \<equiv> Req_collectLogFiles_block (to16 (bench False 32) ''a.zip'')"

lemma pack_prog: "\<exists>g k. service_prog (bench False 32) pack = Acquire LogLock (LAct g k)"
proof -
  have "c_str (bench False 32) (to16 (bench False 32) ''a.zip'') = ''a.zip''" by (rule bench_c_str) (simp add: no_nul_def)
  then show ?thesis
    by (auto simp: contains_sublist sublist_code autolock_def collect_prog_def mySystem_prog_def seq_prim)
qed

lemma two_packers:
  "\<exists>s g k p. locked_pool (bench False 32) 2 (bench_state []) s \<and> lthr s 0 = LRunning pack (LAct g k) \<and>
     lthr s 1 = LRunning pack (Acquire LogLock p) \<and> lserved s = []"
proof -
  let ?P = "bench False 32"
  let ?R = "locked_pool ?P 2 (bench_state [])"
  obtain g k where prog: "service_prog ?P pack = Acquire LogLock (LAct g k)" using pack_prog by blast
  let ?s0 = "\<lparr>lshared = bench_state [], lthr = \<lambda>_. LIdle, owner = \<lambda>_. None, lserved = []\<rparr>"
  let ?s1 = "?s0\<lparr>lthr := (lthr ?s0)(0 := LQueued pack)\<rparr>"
  let ?s2 = "?s1\<lparr>lthr := (lthr ?s1)(0 := LRunning pack (service_prog ?P pack))\<rparr>"
  let ?s3 = "?s2\<lparr>lshared := lock_event ELock (Some LogLock) (lshared ?s2), lthr := (lthr ?s2)(0 := LRunning pack (LAct g k)),
    owner := (owner ?s2)(LogLock := Some 0)\<rparr>"
  let ?s4 = "?s3\<lparr>lthr := (lthr ?s3)(1 := LQueued pack)\<rparr>"
  let ?s5 = "?s4\<lparr>lthr := (lthr ?s4)(1 := LRunning pack (service_prog ?P pack))\<rparr>"
  have "?R ?s0" by (rule reach_start) (simp add: lpool_start_def)
  then have "?R ?s1" by (rule reach_step) (rule l_arrive, simp_all)
  then have "?R ?s2" by (rule reach_step) (rule l_begin, simp)
  then have "?R ?s3" by (rule reach_step) (rule l_acquire, simp_all add: prog del: service_prog.simps bench_fields)
  then have "?R ?s4" by (rule reach_step) (rule l_arrive, simp_all)
  then have "?R ?s5" by (rule reach_step) (rule l_begin, simp)
  then show ?thesis
    by (intro exI [of _ ?s5] exI [of _ g] exI [of _ k] exI [of _ "LAct g k"] conjI) (assumption, simp_all add: prog del: service_prog.simps bench_fields)
qed

section \<open>Properties\<close>

lemma locked_pool_owner:
  assumes "locked_pool P n s0 s"
  shows "\<exists>h. (\<forall>t. running_ok needed_mutex (lthr s t) (h t)) \<and> owners_ok (owner s) h"
  using service_calls.lpool_inv_reach [OF assms] by (auto simp: lpool_inv_def)

text \<open>
  C19: Whatever calls overlap, each thread taking and giving back mutexes where its function does: a
  thread that is about to touch the machine in \<open>collectLogFiles_block\<close> owns the log mutex, and one
  in \<open>checkBandwidth_block\<close> that of the network, so no two threads are at work in one of these functions
  at once; a thread that has its answer or waits for a call owns no mutex; and the record of takings
  and returns balances with the mutexes that are owned.  The threads do what those of the simpler
  pool do, where a call takes its mutex in its first step and gives it back in its last.
\<close>

lemma pool_exclusion:
  assumes "locked_pool P n s0 s"
  shows "(\<forall>t q g k m. lthr s t = LRunning q (LAct g k) \<and> needed_mutex q = Some m \<longrightarrow> owner s m = Some t) \<and>
    (\<forall>t m. lthr s t = LIdle \<or> (\<exists>q r. lthr s t = LRunning q (LDone r)) \<longrightarrow> owner s m \<noteq> Some t) \<and>
    (\<forall>m. held (HMutex m) (trace (lshared s)) = held (HMutex m) (trace s0) + (if owner s m = None then 0 else 1)) \<and>
    (\<exists>a. server_pool P (\<lambda>_. True) n s0 a \<and> shared a = lshared s \<and> set (lserved s) \<subseteq> set (served a))"
proof (intro conjI allI impI)
  obtain h where h: "\<forall>t. running_ok needed_mutex (lthr s t) (h t)" "owners_ok (owner s) h"
    using locked_pool_owner [OF assms] by blast
  have at: "running_ok needed_mutex (lthr s t) (h t)" for t using h(1) by blast
  show "owner s m = Some t" if "lthr s t = LRunning q (LAct g k) \<and> needed_mutex q = Some m" for t q g k m
    using at [of t] h(2) that by (simp add: owners_ok_def)
  show "owner s m \<noteq> Some t" if "lthr s t = LIdle \<or> (\<exists>q r. lthr s t = LRunning q (LDone r))" for t m
    using at [of t] h(2) that by (auto simp: owners_ok_def)
  show "held (HMutex m) (trace (lshared s)) = held (HMutex m) (trace s0) + (if owner s m = None then 0 else 1)" for m
    using service_calls.lpool_inv_reach [OF assms] by (simp add: lpool_inv_def)
  show "\<exists>a. server_pool P (\<lambda>_. True) n s0 a \<and> shared a = lshared s \<and> set (lserved s) \<subseteq> set (served a)"
    using locked.sim_reach [OF assms] unfolding locked_rel_def lrel_def by metis
qed

lemma pool_exclusion_witness:
  "\<exists>s g k p. locked_pool (bench False 32) 2 (bench_state []) s \<and> lthr s 0 = LRunning pack (LAct g k) \<and>
     lthr s 1 = LRunning pack (Acquire LogLock p) \<and> owner s LogLock = Some 0 \<and>
     held (HMutex LogLock) (trace (lshared s)) = held (HMutex LogLock) (trace (bench_state [])) + 1"
proof -
  obtain s g k p where s: "locked_pool (bench False 32) 2 (bench_state []) s" "lthr s 0 = LRunning pack (LAct g k)"
      "lthr s 1 = LRunning pack (Acquire LogLock p)" using two_packers by blast
  note all = pool_exclusion [OF s(1)]
  have own: "owner s LogLock = Some 0"
    by (rule conjunct1 [OF all, rule_format, of 0 pack g k LogLock]) (simp add: s(2))
  have "held (HMutex LogLock) (trace (lshared s)) =
      held (HMutex LogLock) (trace (bench_state [])) + (if owner s LogLock = None then 0 else 1)"
    using all by blast
  with s own show ?thesis by auto
qed

text \<open>
  C20: No call waits for ever: from every state of the threads with their mutexes, one is reachable in
  which every call that is under way or waiting has been answered and no thread is busy.
\<close>

lemma calls_answered:
  assumes "locked_pool P n s0 s"
  shows "\<exists>s' es. locked_pool P n s0 s' \<and> (\<forall>t. lthr s' t = LIdle) \<and> lserved s' = lserved s @ es \<and>
    (\<forall>t q. lcall_of (lthr s t) = Some q \<longrightarrow> (\<exists>r. (t, q, r) \<in> set es))"
proof -
  have "{t. lthr s t \<noteq> LIdle} \<subseteq> {..<n}"
    using service_calls.lpool_inv_reach [OF assms] by (auto simp: lpool_inv_def not_le [symmetric])
  then have "finite {t. lthr s t \<noteq> LIdle}" by (rule finite_subset) simp
  from service_calls.ldraining.drains [OF assms this] obtain s' es where *: "locked_pool P n s0 s'"
      "\<forall>t. lthr s' t = LIdle" "lserved s' = lserved s @ es"
      "\<forall>t. lthr s t \<noteq> LIdle \<longrightarrow> (\<exists>e \<in> set es. answers_lthread t (lthr s t) e)"
    by blast
  have "\<exists>r. (t, q, r) \<in> set es" if "lcall_of (lthr s t) = Some q" for t q
  proof -
    have "lthr s t \<noteq> LIdle" using that by auto
    then obtain u q' r where "(u, q', r) \<in> set es" "answers_lthread t (lthr s t) (u, q', r)"
      using *(4) by (metis prod_cases3)
    then show ?thesis using that by auto
  qed
  with *(1-3) show ?thesis by blast
qed

lemma calls_answered_witness:
  "\<exists>s r r'. locked_pool (bench False 32) 2 (bench_state []) s \<and> (\<forall>t. lthr s t = LIdle) \<and>
     (0, pack, r) \<in> set (lserved s) \<and> (1, pack, r') \<in> set (lserved s)"
proof -
  obtain s g k p where s: "locked_pool (bench False 32) 2 (bench_state []) s" "lthr s 0 = LRunning pack (LAct g k)"
      "lthr s 1 = LRunning pack (Acquire LogLock p)" "lserved s = []" using two_packers by blast
  from calls_answered [OF s(1)] obtain s' es where s': "locked_pool (bench False 32) 2 (bench_state []) s'"
      "\<forall>t. lthr s' t = LIdle" "lserved s' = lserved s @ es"
      "\<forall>t q. lcall_of (lthr s t) = Some q \<longrightarrow> (\<exists>r. (t, q, r) \<in> set es)" by blast
  have "lcall_of (lthr s 0) = Some pack" "lcall_of (lthr s 1) = Some pack" using s(2,3) by simp_all
  then obtain r r' where "(0, pack, r) \<in> set es" "(1, pack, r') \<in> set es" using s'(4) by blast
  with s' s(4) show ?thesis by auto
qed

end
