(* ===== verification/PoolBinder.thy ===== *)
theory PoolBinder
  imports PoolProps Marshal
begin

text \<open>
  The transactions of the clients on the threads of the server (\<open>joinThreadPool\<close> in
  \<open>main_rjcoreserver.cpp\<close>, \<open>BnRjcoreService::onTransact\<close>): a thread takes a code and a parcel,
  refuses them or reads the request, makes the call step by step among the other threads, and writes
  the reply.  This pool of parcels refines the pool of requests of \<open>PoolProps\<close>, and the proxy that
  made the call reads the answer that pool gave.
\<close>

section \<open>Transactions on threads\<close>

datatype ('w, 'p) bthread =
    BIdle
  | BQueued "32 word" 'p
  | BInside "32 word" 'p request "('w sys, response) prog"

record ('w, 'p) bpool =
  bshared :: "'w sys"
  bthr :: "nat \<Rightarrow> ('w, 'p) bthread"
  replies :: "(nat \<times> 32 word \<times> 'p \<times> status \<times> 'p) list"

fun binside_lock :: "(request \<Rightarrow> mutex option) \<Rightarrow> mutex \<Rightarrow> ('w, 'p) bthread \<Rightarrow> bool" where
  "binside_lock lock m (BInside code data q p) \<longleftrightarrow> lock q = Some m"
| "binside_lock lock m _ \<longleftrightarrow> False"

text \<open>
  What is answered without a call: the default of \<open>BBinder\<close>, an argument here, to a code that is
  not the interface's, and \<open>PERMISSION_DENIED\<close> to a parcel with another interface token.
\<close>

definition refusal ::
  "'p parcel_ops \<Rightarrow> (32 word \<Rightarrow> 'p \<Rightarrow> 'p \<Rightarrow> status \<times> 'p) \<Rightarrow> 32 word \<Rightarrow> 'p \<Rightarrow> status \<times> 'p" where
  "refusal ops parent code data =
     (if switch code = None then parent code data (p_new ops) else (PERMISSION_DENIED, p_new ops))"

inductive bn_step ::
  "'p parcel_ops \<Rightarrow> arg_order \<Rightarrow> (32 word \<Rightarrow> 'p \<Rightarrow> 'p \<Rightarrow> status \<times> 'p) \<Rightarrow> 'w platform \<Rightarrow> nat \<Rightarrow>
     ('w, 'p) bpool \<Rightarrow> ('w, 'p) bpool \<Rightarrow> bool" for ops ord parent P n where
  take: "t < n \<Longrightarrow> bthr s t = BIdle \<Longrightarrow>
     bn_step ops ord parent P n s (s\<lparr>bthr := (bthr s)(t := BQueued code data)\<rparr>)"
| refuse: "bthr s t = BQueued code data \<Longrightarrow> asked ops ord code data = None \<Longrightarrow>
     refusal ops parent code data = (st, reply) \<Longrightarrow>
     bn_step ops ord parent P n s
       (s\<lparr>bthr := (bthr s)(t := BIdle), replies := replies s @ [(t, code, data, st, reply)]\<rparr>)"
| accept: "bthr s t = BQueued code data \<Longrightarrow> asked ops ord code data = Some q \<Longrightarrow>
     (\<And>m u. pool_lock P q = Some m \<Longrightarrow> \<not> binside_lock (pool_lock P) m (bthr s u)) \<Longrightarrow>
     bn_step ops ord parent P n s
       (s\<lparr>bshared := lock_event ELock (pool_lock P q) (bshared s),
          bthr := (bthr s)(t := BInside code data q (pool_prog P q))\<rparr>)"
| bwork: "bthr s t = BInside code data q (Act g k) \<Longrightarrow>
     bn_step ops ord parent P n s
       (s\<lparr>bshared := g (bshared s), bthr := (bthr s)(t := BInside code data q (k (bshared s)))\<rparr>)"
| reply: "bthr s t = BInside code data q (Done r) \<Longrightarrow>
     bn_step ops ord parent P n s
       (s\<lparr>bshared := lock_event EUnlock (pool_lock P q) (bshared s), bthr := (bthr s)(t := BIdle),
          replies := replies s @ [(t, code, data, NO_ERROR, write_response ops r (p_new ops))]\<rparr>)"

inductive_cases bn_stepE: "bn_step ops ord parent P n s s'"

definition bn_start :: "'w sys \<Rightarrow> ('w, 'p) bpool \<Rightarrow> bool" where
  "bn_start s0 s \<longleftrightarrow> bshared s = s0 \<and> (\<forall>t. bthr s t = BIdle) \<and> replies s = []"

abbreviation binder_pool ::
  "'p parcel_ops \<Rightarrow> arg_order \<Rightarrow> (32 word \<Rightarrow> 'p \<Rightarrow> 'p \<Rightarrow> status \<times> 'p) \<Rightarrow> 'w platform \<Rightarrow> nat \<Rightarrow> 'w sys \<Rightarrow>
     ('w, 'p) bpool \<Rightarrow> bool" where
  "binder_pool ops ord parent P n s0 s \<equiv> reach (bn_start s0) (bn_step ops ord parent P n) s"

section \<open>The pool of requests behind it\<close>

text \<open>
  A thread that carries a transaction carries its request; one that has taken a transaction it will
  refuse is idle as far as the calls go.
\<close>

fun carries :: "'p parcel_ops \<Rightarrow> arg_order \<Rightarrow> ('w, 'p) bthread \<Rightarrow> 'w thread \<Rightarrow> bool" where
  "carries ops ord BIdle x \<longleftrightarrow> x = Idle"
| "carries ops ord (BQueued code data) x \<longleftrightarrow> x = (case asked ops ord code data of None \<Rightarrow> Idle | Some q \<Rightarrow> Queued q)"
| "carries ops ord (BInside code data q p) x \<longleftrightarrow> asked ops ord code data = Some q \<and> x = Inside q p"

lemma carries_lock: "carries ops ord b x \<Longrightarrow> binside_lock lock m b \<longleftrightarrow> inside_lock lock m x"
  by (cases b) (auto split: option.splits)

text \<open>The transactions that were calls, with the request each was and the reply it got.\<close>

definition call_reply ::
  "'p parcel_ops \<Rightarrow> arg_order \<Rightarrow> nat \<times> 32 word \<times> 'p \<times> status \<times> 'p \<Rightarrow> (nat \<times> request \<times> status \<times> 'p) option" where
  "call_reply ops ord e = (case e of (t, code, data, st, reply) \<Rightarrow>
     map_option (\<lambda>q. (t, q, st, reply)) (asked ops ord code data))"

definition written :: "'p parcel_ops \<Rightarrow> nat \<times> request \<times> response \<Rightarrow> nat \<times> request \<times> status \<times> 'p" where
  "written ops e = (case e of (t, q, r) \<Rightarrow> (t, q, NO_ERROR, write_response ops r (p_new ops)))"

definition bn_rel :: "'p parcel_ops \<Rightarrow> arg_order \<Rightarrow> ('w, 'p) bpool \<Rightarrow> 'w pool \<Rightarrow> bool" where
  "bn_rel ops ord s a \<longleftrightarrow> bshared s = shared a \<and> (\<forall>t. carries ops ord (bthr s t) (thr a t)) \<and>
     List.map_filter (call_reply ops ord) (replies s) = map (written ops) (served a)"

lemma bn_relD:
  assumes "bn_rel ops ord s a"
  shows "bshared s = shared a" "carries ops ord (bthr s t) (thr a t)"
    "List.map_filter (call_reply ops ord) (replies s) = map (written ops) (served a)"
  using assms by (simp_all add: bn_rel_def)

lemma bn_rel_upd:
  assumes "bn_rel ops ord s a" "bshared s' = shared a'" "bthr s' = (bthr s)(t := b)" "thr a' = (thr a)(t := x)"
    "carries ops ord b x" "List.map_filter (call_reply ops ord) (replies s') = map (written ops) (served a')"
  shows "bn_rel ops ord s' a'"
  using assms by (simp add: bn_rel_def)

lemma bn_rel_aside:
  assumes "bn_rel ops ord s a" "bshared s' = bshared s" "bthr s' = (bthr s)(t := b)" "carries ops ord b (thr a t)"
    "List.map_filter (call_reply ops ord) (replies s') = List.map_filter (call_reply ops ord) (replies s)"
  shows "bn_rel ops ord s' a"
  using assms by (simp add: bn_rel_def)

lemma map_filter_append: "List.map_filter f (xs @ ys) = List.map_filter f xs @ List.map_filter f ys"
  by (simp add: List.map_filter_def)

lemma bn_sim_take:
  assumes rel: "bn_rel ops ord s a" and t: "t < n" "bthr s t = BIdle"
    and s': "s' = s\<lparr>bthr := (bthr s)(t := BQueued code data)\<rparr>"
  shows "\<exists>a'. (pool_step (\<lambda>_. True) lock body n a a' \<or> a' = a) \<and> bn_rel ops ord s' a'"
proof (cases "asked ops ord code data")
  case None
  then have "bn_rel ops ord s' a" 
    using s' t bn_relD(2) [OF rel, of t]
    by (intro bn_rel_aside [OF rel, where t = t and b = "BQueued code data"]) simp_all
  then show ?thesis by blast
next
  case (Some q)
  let ?a = "a\<lparr>thr := (thr a)(t := Queued q)\<rparr>"
  have "pool_step (\<lambda>_. True) lock body n a ?a"
    using t bn_relD(2) [OF rel, of t] by (intro arrive) simp_all
  moreover have "bn_rel ops ord s' ?a"
    using s' bn_relD(1,3) [OF rel] Some
    by (intro bn_rel_upd [OF rel, where t = t and b = "BQueued code data" and x = "Queued q"]) simp_all
  ultimately show ?thesis by blast
qed

lemma bn_sim_reply:
  assumes rel: "bn_rel ops ord s a" and t: "bthr s t = BInside code data q (Done r)"
    and s': "s' = s\<lparr>bshared := lock_event EUnlock (pool_lock P q) (bshared s), bthr := (bthr s)(t := BIdle),
      replies := replies s @ [(t, code, data, NO_ERROR, write_response ops r (p_new ops))]\<rparr>"
  shows "\<exists>a'. pool_step (\<lambda>_. True) (pool_lock P) body n a a' \<and> bn_rel ops ord s' a'"
proof (intro exI conjI)
  let ?a = "a\<lparr>shared := lock_event EUnlock (pool_lock P q) (shared a), thr := (thr a)(t := Idle),
    served := served a @ [(t, q, r)]\<rparr>"
  note at = bn_relD(2) [OF rel, of t]
  show "pool_step (\<lambda>_. True) (pool_lock P) body n a ?a" using t at by (intro leave) simp
  show "bn_rel ops ord s' ?a"
    using s' t at bn_relD(1,3) [OF rel] by (intro bn_rel_upd [OF rel, where t = t and x = Idle and b = BIdle])
      (simp_all add: call_reply_def written_def map_filter_append List.map_filter_def)
qed

lemma bn_sim:
  assumes rel: "bn_rel ops ord s a" and step: "bn_step ops ord parent P n s s'"
  shows "\<exists>a'. (pool_step (\<lambda>_. True) (pool_lock P) (pool_prog P) n a a' \<or> a' = a) \<and> bn_rel ops ord s' a'"
proof -
  note same = bn_relD(1,3) [OF rel] and at = bn_relD(2) [OF rel]
  show ?thesis using step
  proof (cases rule: bn_step.cases)
    case (take t code data)
    from bn_sim_take [OF rel take(2,3,1)] show ?thesis .
  next
    case (refuse t code data st reply)
    then have "bn_rel ops ord s' a" using at [of t]
      by (intro bn_rel_aside [OF rel, where t = t and b = BIdle])
        (simp_all add: map_filter_append call_reply_def List.map_filter_def)
    then show ?thesis by blast
  next
    case (accept t code data q)
    let ?a = "a\<lparr>shared := lock_event ELock (pool_lock P q) (shared a), thr := (thr a)(t := Inside q (pool_prog P q))\<rparr>"
    have "pool_step (\<lambda>_. True) (pool_lock P) (pool_prog P) n a ?a"
      using accept(2-4) at [of t] carries_lock [OF at] by (intro enter) auto
    moreover have "bn_rel ops ord s' ?a"
      using accept(1,3) same by (intro bn_rel_upd [OF rel, where t = t and x = "Inside q (pool_prog P q)"
          and b = "BInside code data q (pool_prog P q)"]) simp_all
    ultimately show ?thesis by blast
  next
    case (bwork t code data q g k)
    let ?a = "a\<lparr>shared := g (shared a), thr := (thr a)(t := Inside q (k (shared a)))\<rparr>"
    have "pool_step (\<lambda>_. True) (pool_lock P) (pool_prog P) n a ?a"
      using bwork(2) at [of t] by (intro work) simp
    moreover have "bn_rel ops ord s' ?a"
      using bwork same at [of t] by (intro bn_rel_upd [OF rel, where t = t and x = "Inside q (k (shared a))"
          and b = "BInside code data q (k (bshared s))"]) simp_all
    ultimately show ?thesis by blast
  next
    case (reply t code data q r)
    from bn_sim_reply [OF rel reply(2,1)] show ?thesis by blast
  qed
qed

interpretation bn: simulation "bn_start s0" "bn_step ops ord parent P n" "pool_start s0"
  "pool_step (\<lambda>_. True) (pool_lock P) (pool_prog P) n" "bn_rel ops ord"
  for s0 ops ord parent P n
proof unfold_locales
  show "\<exists>a. pool_start s0 a \<and> bn_rel ops ord s a" if "bn_start s0 s" for s :: "('a, 'b) bpool"
    using that by (intro exI [of _ "fresh_pool s0"])
      (simp add: bn_start_def pool_start_def bn_rel_def List.map_filter_def)
qed (rule bn_sim)

section \<open>Every run of calls is a run of transactions\<close>

text \<open>The other direction, for clients that send what the proxy writes.\<close>

fun sent_thread :: "'p parcel_ops \<Rightarrow> 'w thread \<Rightarrow> ('w, 'p) bthread" where
  "sent_thread ops Idle = BIdle"
| "sent_thread ops (Queued q) = BQueued (code_of (txn_of q)) (rewind ops (parcel_of ops q))"
| "sent_thread ops (Inside q p) = BInside (code_of (txn_of q)) (rewind ops (parcel_of ops q)) q p"

definition sent_reply :: "'p parcel_ops \<Rightarrow> nat \<times> request \<times> response \<Rightarrow> nat \<times> 32 word \<times> 'p \<times> status \<times> 'p" where
  "sent_reply ops e = (case e of (t, q, r) \<Rightarrow>
     (t, code_of (txn_of q), rewind ops (parcel_of ops q), NO_ERROR, write_response ops r (p_new ops)))"

definition sent_pool :: "'p parcel_ops \<Rightarrow> 'w pool \<Rightarrow> ('w, 'p) bpool" where
  "sent_pool ops a = \<lparr>bshared = shared a, bthr = \<lambda>t. sent_thread ops (thr a t),
     replies = map (sent_reply ops) (served a)\<rparr>"

lemma sent_lock [simp]: "binside_lock lock m (sent_thread ops x) \<longleftrightarrow> inside_lock lock m x"
  by (cases x) simp_all

lemma sent_pool_simps [simp]:
  "bshared (sent_pool ops a) = shared a" "bthr (sent_pool ops a) t = sent_thread ops (thr a t)"
  "replies (sent_pool ops a) = map (sent_reply ops) (served a)"
  by (simp_all add: sent_pool_def)

lemma sent_pool_update:
  "sent_pool ops (a\<lparr>thr := (thr a)(t := x)\<rparr>) =
     sent_pool ops a\<lparr>bthr := (bthr (sent_pool ops a))(t := sent_thread ops x)\<rparr>"
  "sent_pool ops (a\<lparr>shared := g, thr := (thr a)(t := x)\<rparr>) =
     sent_pool ops a\<lparr>bshared := g, bthr := (bthr (sent_pool ops a))(t := sent_thread ops x)\<rparr>"
  "sent_pool ops (a\<lparr>shared := g, thr := (thr a)(t := x), served := served a @ [e]\<rparr>) =
     sent_pool ops a\<lparr>bshared := g, bthr := (bthr (sent_pool ops a))(t := sent_thread ops x),
       replies := replies (sent_pool ops a) @ [sent_reply ops e]\<rparr>"
  by (auto simp: sent_pool_def fun_eq_iff)

context parcels
begin

lemma sent_step:
  assumes "pool_step (\<lambda>_. True) (pool_lock P) (pool_prog P) n a a'"
  shows "bn_step ops LeftToRight parent P n (sent_pool ops a) (sent_pool ops a')"
  using assms
proof (cases rule: pool_step.cases)
  case (arrive t q)
  then show ?thesis unfolding arrive(1) sent_pool_update sent_thread.simps by (intro take) simp_all
next
  case (enter t q)
  have "bn_step ops LeftToRight parent P n (sent_pool ops a)
      (sent_pool ops a\<lparr>bshared := lock_event ELock (pool_lock P q) (bshared (sent_pool ops a)),
         bthr := (bthr (sent_pool ops a))(t := sent_thread ops (Inside q (pool_prog P q)))\<rparr>)"
    unfolding sent_thread.simps using enter asked_parcel [of q] by (intro accept) simp_all
  then show ?thesis unfolding enter(1) sent_pool_update by simp
next
  case (work t q g k)
  have "bn_step ops LeftToRight parent P n (sent_pool ops a)
      (sent_pool ops a\<lparr>bshared := g (bshared (sent_pool ops a)),
         bthr := (bthr (sent_pool ops a))(t := sent_thread ops (Inside q (k (bshared (sent_pool ops a)))))\<rparr>)"
    unfolding sent_thread.simps using work by (intro bwork) simp
  then show ?thesis unfolding work(1) sent_pool_update by simp
next
  case (leave t q r)
  have "bn_step ops LeftToRight parent P n (sent_pool ops a)
      (sent_pool ops a\<lparr>bshared := lock_event EUnlock (pool_lock P q) (bshared (sent_pool ops a)),
         bthr := (bthr (sent_pool ops a))(t := sent_thread ops Idle),
         replies := replies (sent_pool ops a) @ [sent_reply ops (t, q, r)]\<rparr>)"
    unfolding sent_reply_def prod.case sent_thread.simps using leave by (intro reply) simp
  then show ?thesis unfolding leave(1) sent_pool_update by simp
qed

end

sublocale parcels \<subseteq> sent: simulation "pool_start s0" "pool_step (\<lambda>_. True) (pool_lock P) (pool_prog P) n"
  "bn_start s0" "bn_step ops LeftToRight parent P n" "\<lambda>a s. s = sent_pool ops a"
  for s0 parent P n
  by unfold_locales (auto simp: pool_start_def bn_start_def intro: sent_step)

context parcels
begin

lemma sent_reach:
  "server_pool P (\<lambda>_. True) n s0 a \<Longrightarrow> binder_pool ops LeftToRight parent P n s0 (sent_pool ops a)"
  using sent.sim_reach by metis

end

section \<open>What is refused\<close>

definition refused_inv ::
  "'p parcel_ops \<Rightarrow> arg_order \<Rightarrow> (32 word \<Rightarrow> 'p \<Rightarrow> 'p \<Rightarrow> status \<times> 'p) \<Rightarrow> ('w, 'p) bpool \<Rightarrow> bool" where
  "refused_inv ops ord parent s \<longleftrightarrow>
     (\<forall>t code data q p. bthr s t = BInside code data q p \<longrightarrow> asked ops ord code data = Some q) \<and>
     (\<forall>(t, code, data, st, rp) \<in> set (replies s).
        asked ops ord code data = None \<longrightarrow> (st, rp) = refusal ops parent code data)"

interpretation bn_refused: step_system "bn_start s0" "bn_step ops ord parent P n" "refused_inv ops ord parent"
  for s0 ops ord parent P n
proof unfold_locales
  show "refused_inv ops ord parent s" if "bn_start s0 s" for s :: "('a, 'b) bpool"
    using that by (simp add: bn_start_def refused_inv_def)
  show "refused_inv ops ord parent s'"
    if inv: "refused_inv ops ord parent s" and step: "bn_step ops ord parent P n s s'" for s s'
    using step
  proof (cases rule: bn_step.cases)
    case (bwork t code data q g k)
    have "asked ops ord code data = Some q" using inv bwork(2) unfolding refused_inv_def by blast
    then show ?thesis using bwork inv by (auto simp: refused_inv_def)
  next
    case (reply t code data q r)
    have "asked ops ord code data = Some q" using inv reply(2) unfolding refused_inv_def by blast
    then show ?thesis using reply inv by (auto simp: refused_inv_def split: if_splits)
  qed (use inv in \<open>auto simp: refused_inv_def split: if_splits\<close>)
qed

section \<open>One transaction alone\<close>

lemma run_perform:
  "run_state (perform (RjcoreService P) q) s =
    (case exec (pool_prog P q) (lock_event ELock (pool_lock P q) s) of
       (r, s1) \<Rightarrow> (r, lock_event EUnlock (pool_lock P q) s1))"
proof (cases "pool_lock P q")
  case None
  then show ?thesis using uninterrupted_calls [of P q] by (simp add: case_prod_beta)
next
  case (Some m)
  then have "perform (RjcoreService P) q = with_lock m (uninterrupted (pool_prog P q))"
    using uninterrupted_calls [of P q] by simp
  then show ?thesis using Some by (simp add: rest_of_locked_call [symmetric] rest_of_call_def)
qed

lemma bn_solo:
  assumes "reach I (bn_step ops ord parent P n) s" "bthr s t = BInside code data q p" "exec p (bshared s) = (r, s1)"
  shows "reach I (bn_step ops ord parent P n)
    (s\<lparr>bshared := lock_event EUnlock (pool_lock P q) s1, bthr := (bthr s)(t := BIdle),
       replies := replies s @ [(t, code, data, NO_ERROR, write_response ops r (p_new ops))]\<rparr>)"
  using assms
proof (induction p arbitrary: s)
  case (Done x)
  from reach_step [OF Done.prems(1) reply [OF Done.prems(2)]] show ?case
    using Done.prems(3) by (simp only: exec.simps prod.inject)
next
  case (Act g k)
  let ?s = "s\<lparr>bshared := g (bshared s), bthr := (bthr s)(t := BInside code data q (k (bshared s)))\<rparr>"
  have "reach I (bn_step ops ord parent P n) ?s"
    using Act.prems(1) by (rule reach_step) (rule bwork [OF Act.prems(2)])
  moreover have "bthr ?s t = BInside code data q (k (bshared s))" "exec (k (bshared s)) (bshared ?s) = (r, s1)"
    using Act.prems(3) by simp_all
  ultimately have "reach I (bn_step ops ord parent P n) (?s\<lparr>bshared := lock_event EUnlock (pool_lock P q) s1,
      bthr := (bthr ?s)(t := BIdle),
      replies := replies ?s @ [(t, code, data, NO_ERROR, write_response ops r (p_new ops))]\<rparr>)"
    by (rule Act.IH [OF rangeI])
  then show ?case by (cases s) (simp del: fun_upd_apply)
qed

text \<open>With no call under way, what a thread does with a transaction is what \<open>onTransact\<close> does.\<close>

abbreviation served_by_stub ::
  "'p parcel_ops \<Rightarrow> arg_order \<Rightarrow> (32 word \<Rightarrow> 'p \<Rightarrow> 'p \<Rightarrow> status \<times> 'p) \<Rightarrow> 'w platform \<Rightarrow>
     32 word \<Rightarrow> 'p \<Rightarrow> 'p \<Rightarrow> ('w sys, 'p) transacted" where
  "served_by_stub ops ord parent P \<equiv>
     onTransact ops ord (RjcoreService P) (\<lambda>code data reply. State_Monad.return (parent code data reply))"

lemma bn_alone:
  assumes s: "reach I (bn_step ops ord parent P n) s" "bthr s t = BQueued code data"
    and free: "\<forall>m u. \<not> binside_lock (pool_lock P) m (bthr s u)"
    and run: "run_state (served_by_stub ops ord parent P code data (p_new ops)) (bshared s) = ((st, rp), s1)"
  shows "reach I (bn_step ops ord parent P n)
    (s\<lparr>bshared := s1, bthr := (bthr s)(t := BIdle), replies := replies s @ [(t, code, data, st, rp)]\<rparr>)"
proof (cases "asked ops ord code data")
  case None
  then have "refusal ops parent code data = (st, rp)" "s1 = bshared s"
    using run by (auto simp: refusal_def onTransact_not_asked split: if_splits)
  from reach_step [OF s(1) refuse [OF s(2) None this(1)]] this(2) show ?thesis by simp
next
  case (Some q)
  obtain r s2 where x: "exec (pool_prog P q) (lock_event ELock (pool_lock P q) (bshared s)) = (r, s2)" by fastforce
  then have out: "st = NO_ERROR" "rp = write_response ops r (p_new ops)" "s1 = lock_event EUnlock (pool_lock P q) s2"
    using run by (simp_all add: onTransact_asked [OF Some] run_perform)
  let ?s = "s\<lparr>bshared := lock_event ELock (pool_lock P q) (bshared s),
    bthr := (bthr s)(t := BInside code data q (pool_prog P q))\<rparr>"
  have "reach I (bn_step ops ord parent P n) ?s"
    using s(1) by (rule reach_step) (rule accept [OF s(2) Some], use free in blast)
  from bn_solo [OF this, of t code data q "pool_prog P q" r s2] show ?thesis
    using x out by (cases s) (simp del: fun_upd_apply add: fun_upd_same)
qed

lemma bn_taken:
  assumes "0 < n"
  shows "binder_pool ops ord parent P n s0
    \<lparr>bshared = s0, bthr = (\<lambda>_. BIdle)(0 := BQueued code data), replies = []\<rparr>"
proof -
  let ?s = "\<lparr>bshared = s0, bthr = \<lambda>_. BIdle, replies = []\<rparr>"
  have "binder_pool ops ord parent P n s0 ?s" by (rule reach_start) (simp add: bn_start_def)
  from reach_step [OF this take [where t = 0 and n = n and s = ?s and code = code and data = data]] assms
  show ?thesis by (simp del: fun_upd_apply)
qed

lemma bn_once:
  assumes "run_state (served_by_stub ops ord parent P code data (p_new ops)) s0 = ((st, rp), s1)" "0 < n"
  shows "binder_pool ops ord parent P n s0 \<lparr>bshared = s1, bthr = \<lambda>_. BIdle, replies = [(0, code, data, st, rp)]\<rparr>"
proof -
  let ?s = "\<lparr>bshared = s0, bthr = (\<lambda>_. BIdle)(0 := BQueued code data), replies = []\<rparr>"
  have "binder_pool ops ord parent P n s0
      (?s\<lparr>bshared := s1, bthr := (bthr ?s)(0 := BIdle), replies := replies ?s @ [(0, code, data, st, rp)]\<rparr>)"
    by (rule bn_alone [OF bn_taken [OF assms(2)]]) (use assms(1) in simp_all)
  then show ?thesis by (simp add: fun_upd_idem)
qed

text \<open>The default of \<open>BBinder\<close> as a value to compute with.\<close>

definition silent_parent :: "32 word \<Rightarrow> 'p \<Rightarrow> 'p \<Rightarrow> status \<times> 'p" where
  "silent_parent code data reply = (OTHER_STATUS (- 74), reply)"

section \<open>Every transaction is answered\<close>

fun transaction_of :: "('w, 'p) bthread \<Rightarrow> (32 word \<times> 'p) option" where
  "transaction_of BIdle = None"
| "transaction_of (BQueued code data) = Some (code, data)"
| "transaction_of (BInside code data q p) = Some (code, data)"

fun answers_transaction :: "nat \<Rightarrow> ('w, 'p) bthread \<Rightarrow> nat \<times> 32 word \<times> 'p \<times> status \<times> 'p \<Rightarrow> bool" where
  "answers_transaction t b (u, code, data, st, rp) \<longleftrightarrow> u = t \<and> transaction_of b = Some (code, data)"

fun_cases binside_lockE: "binside_lock lock m b"

interpretation bn_draining:
  draining "reach I (bn_step ops ord parent P n)" bthr BIdle replies answers_transaction for I ops ord parent P n
proof unfold_locales
  fix s t
  assume s: "reach I (bn_step ops ord parent P n) s" and busy: "bthr s t \<noteq> BIdle"
  show "\<exists>u s' e. bthr s u \<noteq> BIdle \<and> reach I (bn_step ops ord parent P n) s' \<and> bthr s' = (bthr s)(u := BIdle) \<and>
      replies s' = replies s @ [e] \<and> answers_transaction u (bthr s u) e"
  proof (cases "\<exists>u code data q p. bthr s u = BInside code data q p")
    case True
    then obtain u code data q p where u: "bthr s u = BInside code data q p" by blast
    obtain r s1 where "exec p (bshared s) = (r, s1)" by fastforce
    from bn_solo [OF s u this] u show ?thesis
      by (intro exI [of _ u] exI [of _ "s\<lparr>bshared := lock_event EUnlock (pool_lock P q) s1, bthr := (bthr s)(u := BIdle),
          replies := replies s @ [(u, code, data, NO_ERROR, write_response ops r (p_new ops))]\<rparr>"]
          exI [of _ "(u, code, data, NO_ERROR, write_response ops r (p_new ops))"]) simp
  next
    case no: False
    with busy obtain code data where u: "bthr s t = BQueued code data" by (cases "bthr s t") auto
    obtain st rp s1 where
      "run_state (served_by_stub ops ord parent P code data (p_new ops)) (bshared s) = ((st, rp), s1)"
      by (metis surj_pair)
    moreover have "\<forall>m u. \<not> binside_lock (pool_lock P) m (bthr s u)" using no by (auto elim: binside_lockE)
    ultimately show ?thesis using u bn_alone [OF s u]
      by (intro exI [of _ t] exI [of _ "s\<lparr>bshared := s1, bthr := (bthr s)(t := BIdle),
          replies := replies s @ [(t, code, data, st, rp)]\<rparr>"] exI [of _ "(t, code, data, st, rp)"]) simp
  qed
qed

interpretation bn_finite: step_system "bn_start s0" "bn_step ops ord parent P n" "\<lambda>s. finite {t. bthr s t \<noteq> BIdle}"
  for s0 ops ord parent P n
proof unfold_locales
  show "finite {t. bthr s' t \<noteq> BIdle}"
    if fin: "finite {t. bthr s t \<noteq> BIdle}" and step: "bn_step ops ord parent P n s s'" for s s' :: "('a, 'b) bpool"
  proof -
    have "\<exists>t b. bthr s' = (bthr s)(t := b)" using step by (elim bn_stepE) auto
    then obtain t b where "bthr s' = (bthr s)(t := b)" by blast
    then have "{u. bthr s' u \<noteq> BIdle} \<subseteq> insert t {u. bthr s u \<noteq> BIdle}" by (auto split: if_splits)
    then show ?thesis using fin finite_subset by blast
  qed
qed (simp add: bn_start_def)

section \<open>Properties\<close>

text \<open>What a caller of the proxy is given when the driver hands it the reply parcel.\<close>

definition proxy_returns :: "'p parcel_ops \<Rightarrow> request \<Rightarrow> 'p \<Rightarrow> response" where
  "proxy_returns ops q reply = res_of (perform (BpRjcoreService ops (\<lambda>_ _. State_Monad.return (rewind ops reply))) q) ()"

text \<open>A transaction of the proxy with its reply, as the server's threads record it.\<close>

definition of_proxy :: "'p parcel_ops \<Rightarrow> nat \<times> request \<times> status \<times> 'p \<Rightarrow> nat \<times> 32 word \<times> 'p \<times> status \<times> 'p" where
  "of_proxy ops e = (case e of (t, q, st, rp) \<Rightarrow> (t, code_of (txn_of q), rewind ops (parcel_of ops q), st, rp))"

lemma call_reply_of_proxy:
  assumes "parcel_laws ops pw pr"
  shows "call_reply ops LeftToRight (of_proxy ops e) = Some e"
  using parcels.asked_parcel [OF parcels.intro [OF assms]] by (cases e) (simp add: call_reply_def of_proxy_def)

lemma call_replies_of_proxy:
  assumes "parcel_laws ops pw pr"
  shows "List.map_filter (call_reply ops LeftToRight) (map (of_proxy ops) es) = es"
  by (induction es) (simp_all only: list.map List.map_filter_simps call_reply_of_proxy [OF assms] option.case)

lemma proxy_returns_answer:
  assumes "parcel_laws ops pw pr" "server_pool P (\<lambda>_. True) n s0 a" "(t, q, r) \<in> set (served a)"
  shows "proxy_returns ops q (write_response ops r (p_new ops)) = r"
proof -
  have "pool_post (board_is (members s0)) (answer_ok P (members s0)) a"
    by (rule pool_answers.post_reach [OF assms(2)]) simp
  then have "kind_of r = asked_kind q" using assms(3) by (auto simp: pool_post_def answer_ok_def)
  then show ?thesis
    using parcels.read_written_response [OF parcels.intro [OF assms(1)], of r "asked_kind q"]
    by (simp add: proxy_returns_def proxy_sends case_prod_beta)
qed

text \<open>
  C7: The threads serving parcels do for the callers of the proxy what threads serving requests do.  In
  every state they reach, the machine is as in a state of a pool of requests; to each transaction with the
  parcel the proxy writes for a call the status is \<open>NO_ERROR\<close>, that pool has served that very call with its
  arguments, and the proxy returns to its caller the answer that pool gave; when all transactions are
  the proxy's the calls, answers and their order are exactly those of that pool.  A code outside the
  interface gets the answer of the parent class, and a parcel with another token
  \<open>PERMISSION_DENIED\<close> and an empty reply.
\<close>

lemma transactions_are_calls:
  assumes "parcel_laws ops pw pr" "binder_pool ops LeftToRight parent P n s0 s"
  shows "(\<exists>a. server_pool P (\<lambda>_. True) n s0 a \<and> shared a = bshared s \<and>
      (\<forall>t q st rp. of_proxy ops (t, q, st, rp) \<in> set (replies s) \<longrightarrow>
         st = NO_ERROR \<and> (t, q, proxy_returns ops q rp) \<in> set (served a)) \<and>
      (\<forall>es. replies s = map (of_proxy ops) es \<longrightarrow>
         served a = map (\<lambda>(t, q, st, rp). (t, q, proxy_returns ops q rp)) es)) \<and>
    (\<forall>(t, code, data, st, rp) \<in> set (replies s).
       (switch code = None \<longrightarrow> (st, rp) = parent code data (p_new ops)) \<and>
       (switch code \<noteq> None \<and> \<not> fst (enforce ops descriptor data) \<longrightarrow> st = PERMISSION_DENIED \<and> rp = p_new ops))"
proof
  obtain a where a: "server_pool P (\<lambda>_. True) n s0 a" "shared a = bshared s"
      "List.map_filter (call_reply ops LeftToRight) (replies s) = map (written ops) (served a)"
    using bn.sim_reach [OF assms(2)] unfolding bn_rel_def by metis
  have one: "st = NO_ERROR \<and> (t, q, proxy_returns ops q rp) \<in> set (served a)"
    if entry: "(t, q, st, rp) \<in> set (map (written ops) (served a))" for t q st rp
  proof -
    obtain r where "(t, q, r) \<in> set (served a)" "st = NO_ERROR" "rp = write_response ops r (p_new ops)"
      using entry by (auto simp: written_def)
    then show ?thesis using proxy_returns_answer [OF assms(1) a(1)] by metis
  qed
  have "st = NO_ERROR \<and> (t, q, proxy_returns ops q rp) \<in> set (served a)"
    if "of_proxy ops (t, q, st, rp) \<in> set (replies s)" for t q st rp
  proof -
    have "(t, q, st, rp) \<in> set (List.map_filter (call_reply ops LeftToRight) (replies s))"
      using that call_reply_of_proxy [OF assms(1), of "(t, q, st, rp)"] by (force simp: List.map_filter_def)
    then show ?thesis unfolding a(3) by (rule one)
  qed
  moreover have "served a = map (\<lambda>(t, q, st, rp). (t, q, proxy_returns ops q rp)) es"
    if "replies s = map (of_proxy ops) es" for es
  proof -
    have "es = map (written ops) (served a)" using a(3) call_replies_of_proxy [OF assms(1)] that by metis
    moreover have "(\<lambda>(t, q, st, rp). (t, q, proxy_returns ops q rp)) (written ops e) = e" if "e \<in> set (served a)" for e
      using proxy_returns_answer [OF assms(1) a(1)] that by (cases e) (simp add: written_def)
    ultimately show ?thesis by (simp add: map_idI)
  qed
  ultimately show "\<exists>a. server_pool P (\<lambda>_. True) n s0 a \<and> shared a = bshared s \<and>
      (\<forall>t q st rp. of_proxy ops (t, q, st, rp) \<in> set (replies s) \<longrightarrow>
         st = NO_ERROR \<and> (t, q, proxy_returns ops q rp) \<in> set (served a)) \<and>
      (\<forall>es. replies s = map (of_proxy ops) es \<longrightarrow>
         served a = map (\<lambda>(t, q, st, rp). (t, q, proxy_returns ops q rp)) es)" using a(1,2) by blast
  have "asked ops LeftToRight code data = None" if "switch code = None \<or> \<not> fst (enforce ops descriptor data)" for code data
    using that by (auto simp: asked_def split: option.split prod.splits)
  then show "\<forall>(t, code, data, st, rp) \<in> set (replies s).
       (switch code = None \<longrightarrow> (st, rp) = parent code data (p_new ops)) \<and>
       (switch code \<noteq> None \<and> \<not> fst (enforce ops descriptor data) \<longrightarrow> st = PERMISSION_DENIED \<and> rp = p_new ops)"
    using bn_refused.inv_reach [OF assms(2)] by (fastforce simp: refused_inv_def refusal_def)
qed

lemma transactions_are_calls_witness:
  "let ops = list_ops; P = bench False 32; q = Req_chmodFile [] []
   in \<exists>s a rp. binder_pool ops LeftToRight silent_parent P 2 (bench_state []) s \<and>
        replies s = [(0, code_of CHMOD_FILE, rewind ops (parcel_of ops q), NO_ERROR, rp)] \<and>
        server_pool P (\<lambda>_. True) 2 (bench_state []) a \<and> shared a = bshared s \<and>
        served a = [(0, q, proxy_returns ops q rp)]"
proof -
  let ?q = "Req_chmodFile [] []" and ?P = "bench False 32"
  let ?data = "rewind list_ops (parcel_of list_ops ?q)"
  obtain st rp s1 where
    "run_state (served_by_stub list_ops LeftToRight silent_parent ?P (code_of CHMOD_FILE) ?data (p_new list_ops)) (bench_state []) =
      ((st, rp), s1)"
    by (metis surj_pair)
  from bn_once [OF this, of 2] obtain s where s: "binder_pool list_ops LeftToRight silent_parent ?P 2 (bench_state []) s"
      "replies s = [(0, code_of CHMOD_FILE, ?data, st, rp)]" by fastforce
  then have r: "replies s = map (of_proxy list_ops) [(0, ?q, st, rp)]" by (simp add: of_proxy_def)
  obtain a where a: "server_pool ?P (\<lambda>_. True) 2 (bench_state []) a" "shared a = bshared s"
      "\<forall>t q st rp. of_proxy list_ops (t, q, st, rp) \<in> set (replies s) \<longrightarrow>
         st = NO_ERROR \<and> (t, q, proxy_returns list_ops q rp) \<in> set (served a)"
      "\<forall>es. replies s = map (of_proxy list_ops) es \<longrightarrow>
         served a = map (\<lambda>(t, q, st, rp). (t, q, proxy_returns list_ops q rp)) es"
    using transactions_are_calls [OF list_parcel_laws s(1)] by blast
  have "of_proxy list_ops (0, ?q, st, rp) \<in> set (replies s)" unfolding r by simp
  then have "st = NO_ERROR" using a(3) by blast
  moreover have "served a = [(0, ?q, proxy_returns list_ops ?q rp)]" using a(4) [rule_format, OF r] by simp
  ultimately show ?thesis using s a(1,2) unfolding Let_def by blast
qed

text \<open>
  C8: And whatever the threads can do with requests, clients bring about with the parcels the proxy writes:
  every state of the pool of requests is one of the threads over parcels, with the same machine, the same calls on the
  same threads, and to every answer so far its transaction and its reply.
\<close>

lemma calls_are_transactions:
  assumes "parcel_laws ops pw pr" "server_pool P (\<lambda>_. True) n s0 a"
  shows "\<exists>s. binder_pool ops LeftToRight parent P n s0 s \<and> bshared s = shared a \<and>
    (\<forall>t. transaction_of (bthr s t) =
       map_option (\<lambda>q. (code_of (txn_of q), rewind ops (parcel_of ops q))) (call_of_thread (thr a t))) \<and>
    replies s = map (\<lambda>(t, q, r).
       (t, code_of (txn_of q), rewind ops (parcel_of ops q), NO_ERROR, write_response ops r (p_new ops))) (served a)"
proof (intro exI conjI allI)
  show "binder_pool ops LeftToRight parent P n s0 (sent_pool ops a)"
    using parcels.sent_reach [OF parcels.intro [OF assms(1)] assms(2)] .
  show "transaction_of (bthr (sent_pool ops a) t) =
      map_option (\<lambda>q. (code_of (txn_of q), rewind ops (parcel_of ops q))) (call_of_thread (thr a t))" for t
    by (cases "thr a t") simp_all
qed (simp_all add: sent_reply_def [abs_def])

lemma calls_are_transactions_witness:
  "\<exists>s. binder_pool list_ops LeftToRight silent_parent (bench False 32) 2 (bench_state []) s \<and> replies s = [] \<and>
     transaction_of (bthr s 0) = Some (code_of RM_FILE, rewind list_ops (parcel_of list_ops (Req_rmFile [])))"
proof -
  let ?P = "bench False 32" and ?q = "Req_rmFile []"
  have "server_pool ?P (\<lambda>_. True) 2 (bench_state []) (call_pool ?P ?q (bench_state []))" by (rule reach_call) simp_all
  from calls_are_transactions [OF list_parcel_laws this, where parent = silent_parent] obtain s where
      "binder_pool list_ops LeftToRight silent_parent ?P 2 (bench_state []) s"
      "transaction_of (bthr s 0) = map_option (\<lambda>q. (code_of (txn_of q), rewind list_ops (parcel_of list_ops q)))
         (call_of_thread (thr (call_pool ?P ?q (bench_state [])) 0))" "replies s = map (\<lambda>(t, q, r).
       (t, code_of (txn_of q), rewind list_ops (parcel_of list_ops q), NO_ERROR, write_response list_ops r (p_new list_ops)))
         (served (call_pool ?P ?q (bench_state [])))"
    by blast
  moreover have "served (call_pool ?P ?q (bench_state [])) = []"
    "call_of_thread (thr (call_pool ?P ?q (bench_state [])) 0) = Some ?q" by simp_all
  ultimately show ?thesis by (simp only: list.map option.map txn_of.simps) blast
qed

text \<open>
  C9: A call made through the proxy and served by the threads, whatever other transactions overlap it, is
  answered \<open>NO_ERROR\<close>, and what the proxy returns to its caller is of the kind the function has, and is
  the settled answer where the arguments or the fields of the board settle one; no transaction changes those fields.
\<close>

lemma client_reads_answer:
  assumes "parcel_laws ops pw pr" "binder_pool ops LeftToRight parent P n s0 s"
    and "(t, code_of (txn_of q), rewind ops (parcel_of ops q), st, rp) \<in> set (replies s)"
    and "res_of (transact (code_of (txn_of q)) (parcel_of ops q)) c = rewind ops rp"
  shows "st = NO_ERROR \<and> members (bshared s) = members s0 \<and>
    answer_ok P (members s0) q (res_of (perform (BpRjcoreService ops transact) q) c)"
proof -
  obtain a where a: "server_pool P (\<lambda>_. True) n s0 a" "shared a = bshared s"
      "List.map_filter (call_reply ops LeftToRight) (replies s) = map (written ops) (served a)"
    using bn.sim_reach [OF assms(2)] unfolding bn_rel_def by metis
  have "(t, q, st, rp) \<in> set (List.map_filter (call_reply ops LeftToRight) (replies s))"
    using assms(3) by (force simp: List.map_filter_def call_reply_def parcels.asked_parcel [OF parcels.intro [OF assms(1)]])
  then obtain r where r: "(t, q, r) \<in> set (served a)" "st = NO_ERROR" "rp = write_response ops r (p_new ops)"
    unfolding a(3) by (auto simp: written_def)
  have post: "pool_post (board_is (members s0)) (answer_ok P (members s0)) a"
    by (rule pool_answers.post_reach [OF a(1)]) simp
  then have ok: "answer_ok P (members s0) q r" using r(1) by (auto simp: pool_post_def)
  then have "read_response ops (asked_kind q) (rewind ops rp) = r"
    unfolding r(3) by (intro parcels.read_written_response [OF parcels.intro [OF assms(1)]]) (simp add: answer_ok_def)
  with ok r(2) post a(2) show ?thesis
    using assms(4) by (simp add: proxy_sends case_prod_beta pool_post_def)
qed

lemma client_reads_answer_witness:
  "let ops = list_ops; P = bench False 32; q = Req_chmodFile [] []
   in \<exists>s rp. binder_pool ops LeftToRight silent_parent P 2 (bench_state []) s \<and>
        (0, code_of CHMOD_FILE, rewind ops (parcel_of ops q), NO_ERROR, rp) \<in> set (replies s) \<and>
        res_of (perform (BpRjcoreService ops (\<lambda>_ _. State_Monad.return (rewind ops rp))) q) () = RBool False"
proof -
  let ?q = "Req_chmodFile [] []" and ?P = "bench False 32" and ?code = "code_of CHMOD_FILE"
  let ?data = "rewind list_ops (parcel_of list_ops ?q)"
  obtain st rp s1 where
    "run_state (served_by_stub list_ops LeftToRight silent_parent ?P ?code ?data (p_new list_ops)) (bench_state []) =
      ((st, rp), s1)"
    by (metis surj_pair)
  from bn_once [OF this, of 2] obtain s where s: "binder_pool list_ops LeftToRight silent_parent ?P 2 (bench_state []) s"
      "(0, code_of (txn_of ?q), ?data, st, rp) \<in> set (replies s)" by fastforce
  let ?r = "res_of (perform (BpRjcoreService list_ops (\<lambda>_ _. State_Monad.return (rewind list_ops rp))) ?q) ()"
  have "st = NO_ERROR" "answer_ok ?P (members (bench_state [])) ?q ?r"
    using client_reads_answer [OF list_parcel_laws s, of "\<lambda>_ _. State_Monad.return (rewind list_ops rp)" "()"] by simp_all
  then have "st = NO_ERROR" "?r = RBool False" by (simp_all add: answer_ok_def members_def Let_def)
  with s show ?thesis unfolding Let_def txn_of.simps by blast
qed

text \<open>
  No transaction waits for ever: from every state of the threads one is reachable in which every transaction
  that is under way has got its reply and no thread is busy.
\<close>

lemma transactions_answered:
  assumes "binder_pool ops ord parent P n s0 s"
  shows "\<exists>s' es. binder_pool ops ord parent P n s0 s' \<and> (\<forall>t. bthr s' t = BIdle) \<and> replies s' = replies s @ es \<and>
    (\<forall>t code data. transaction_of (bthr s t) = Some (code, data) \<longrightarrow> (\<exists>st rp. (t, code, data, st, rp) \<in> set es))"
proof -
  obtain s' es where *: "binder_pool ops ord parent P n s0 s'" "\<forall>t. bthr s' t = BIdle" "replies s' = replies s @ es"
      "\<forall>t. bthr s t \<noteq> BIdle \<longrightarrow> (\<exists>e \<in> set es. answers_transaction t (bthr s t) e)"
    using bn_draining.drains [OF assms] bn_finite.inv_reach [OF assms] by blast
  have "\<exists>st rp. (t, code, data, st, rp) \<in> set es" if "transaction_of (bthr s t) = Some (code, data)" for t code data
  proof -
    have "bthr s t \<noteq> BIdle" using that by auto
    then obtain u code' data' st rp where "(u, code', data', st, rp) \<in> set es"
        "answers_transaction t (bthr s t) (u, code', data', st, rp)" using *(4) by (metis prod_cases5)
    then show ?thesis using that by auto
  qed
  with *(1-3) show ?thesis by blast
qed

end
