(* ===== verification/Androint.thy ===== *)
theory Androint
  imports Prelude
begin

text \<open>
  The character device \<open>/dev/androint\<close>
  (\<open>androint-moko365/androint_mod_add/androint_module.c\<close>): two integers are written, their
  sum is read.  The state is the structure \<open>androint_dev\<close> without its \<open>cdev\<close>, which
  the registry of character devices below stands for.  An \<open>int\<close> is four bytes, the lowest
  first, as on the targets of the repository.
\<close>

section \<open>Integers as bytes\<close>

definition le32 :: "cint \<Rightarrow> 8 word list" where
  "le32 x = [ucast x, ucast (drop_bit 8 x), ucast (drop_bit 16 x), ucast (drop_bit 24 x)]"

definition of_le32 :: "8 word list \<Rightarrow> cint" where
  "of_le32 bs = foldr (\<lambda>b acc. ucast b OR push_bit 8 acc) (take 4 bs) 0"

lemma length_le32 [simp]: "length (le32 x) = 4"
  by (simp add: le32_def)

lemma of_le32_le32 [simp]: "of_le32 (le32 x @ bs) = x"
proof (rule bit_word_eqI)
  fix n assume n: "n < LENGTH(32)"
  show "bit (of_le32 (le32 x @ bs)) n \<longleftrightarrow> bit x n"
  proof -
    consider "n < 8" | "8 \<le> n" "n < 16" | "16 \<le> n" "n < 24" | "24 \<le> n" by linarith
    then show ?thesis
    proof cases
      case 2
      then obtain m where "n = 8 + m" using le_Suc_ex by blast
      with n 2 show ?thesis by (auto simp: le32_def of_le32_def bit_simps)
    next
      case 3
      then obtain m where "n = 16 + m" using le_Suc_ex by blast
      with n 3 show ?thesis by (auto simp: le32_def of_le32_def bit_simps)
    next
      case 4
      then obtain m where "n = 24 + m" using le_Suc_ex by blast
      with n show ?thesis by (auto simp: le32_def of_le32_def bit_simps)
    qed (use n in \<open>auto simp: le32_def of_le32_def bit_simps\<close>)
  qed
qed

lemma of_le32_id [simp]: "of_le32 (le32 x) = x"
  using of_le32_le32 [of x "[]"] by simp

lemma le32_inject: "le32 x = le32 y \<longleftrightarrow> x = y"
  by (metis of_le32_id)

section \<open>The driver\<close>

text \<open>
  Access to the memory of the caller is the kernel's: \<open>'u\<close> is that memory.
  \<open>copy_from_user\<close> gives the bytes that land in a kernel buffer of the size asked for and
  the number that could not be copied; \<open>copy_to_user\<close> gives the memory afterwards and that
  number.
\<close>

record 'u uaccess =
  copy_from_user :: "'u \<Rightarrow> nat \<Rightarrow> 8 word list \<times> nat"
  copy_to_user :: "'u \<Rightarrow> 8 word list \<Rightarrow> 'u \<times> nat"

definition ERESTARTSYS :: int where "ERESTARTSYS = 512"
definition EFAULT :: int where "EFAULT = 14"
definition EINTR :: int where "EINTR = 4"

lemmas errno_defs = ERESTARTSYS_def EFAULT_def EINTR_def

record androint_dev =
  data0 :: cint
  data1 :: cint
  sem :: nat

text \<open>
  \<open>down_interruptible\<close> takes the semaphore when it is free, whatever signals are pending;
  otherwise it sleeps, which is \<open>None\<close>, until a signal ends it.
\<close>

definition down_interruptible :: "bool \<Rightarrow> androint_dev \<Rightarrow> (int \<times> androint_dev) option" where
  "down_interruptible signal d =
     (if 0 < sem d then Some (0, d\<lparr>sem := sem d - 1\<rparr>)
      else if signal then Some (- EINTR, d)
      else None)"

definition up :: "androint_dev \<Rightarrow> androint_dev" where
  "up d = d\<lparr>sem := sem d + 1\<rparr>"

text \<open>\<open>androint_access\<close> between the two operations on the semaphore.\<close>

definition access_locked ::
  "'u uaccess \<Rightarrow> int \<Rightarrow> 'u \<Rightarrow> nat \<Rightarrow> androint_dev \<Rightarrow> (int \<times> 'u) \<times> androint_dev" where
  "access_locked K access_dir buf count d =
     (if access_dir = 0
      then (let sum = data0 d + data1 d
            in if count \<noteq> 4 then ((0, buf), d)
               else (let (buf', left) = copy_to_user K buf (le32 sum)
                     in if left \<noteq> 0 then ((- EFAULT, buf'), d) else ((int count, buf'), d)))
      else if count \<noteq> 4 * 2 then ((0, buf), d)
      else (let (bytes, left) = copy_from_user K buf count;
                d' = d\<lparr>data0 := of_le32 bytes, data1 := of_le32 (drop 4 bytes)\<rparr>
            in if left \<noteq> 0 then ((- EFAULT, buf), d') else ((int count, buf), d')))"

definition androint_access ::
  "'u uaccess \<Rightarrow> bool \<Rightarrow> int \<Rightarrow> 'u \<Rightarrow> nat \<Rightarrow> androint_dev \<Rightarrow> ((int \<times> 'u) \<times> androint_dev) option" where
  "androint_access K signal access_dir buf count d =
     (case down_interruptible signal d of
        None \<Rightarrow> None
      | Some (r, d1) \<Rightarrow>
          if r \<noteq> 0 then Some ((- ERESTARTSYS, buf), d1)
          else (let (res, d2) = access_locked K access_dir buf count d1 in Some (res, up d2)))"

definition androint_read ::
  "'u uaccess \<Rightarrow> bool \<Rightarrow> 'u \<Rightarrow> nat \<Rightarrow> androint_dev \<Rightarrow> ((int \<times> 'u) \<times> androint_dev) option" where
  "androint_read K signal buf count d = androint_access K signal 0 buf count d"

definition androint_write ::
  "'u uaccess \<Rightarrow> bool \<Rightarrow> 'u \<Rightarrow> nat \<Rightarrow> androint_dev \<Rightarrow> ((int \<times> 'u) \<times> androint_dev) option" where
  "androint_write K signal buf count d = androint_access K signal 1 buf count d"

text \<open>\<open>open\<close> notes the device in the file, \<open>release\<close> does nothing.\<close>

definition androint_open :: "androint_dev \<Rightarrow> int \<times> androint_dev" where
  "androint_open d = (0, d)"

definition androint_release :: "androint_dev \<Rightarrow> int \<times> androint_dev" where
  "androint_release d = (0, d)"

text \<open>The table the character device is registered with.\<close>

record 'u chr_fops =
  fo_open :: "androint_dev \<Rightarrow> int \<times> androint_dev"
  fo_read :: "bool \<Rightarrow> 'u \<Rightarrow> nat \<Rightarrow> androint_dev \<Rightarrow> ((int \<times> 'u) \<times> androint_dev) option"
  fo_write :: "bool \<Rightarrow> 'u \<Rightarrow> nat \<Rightarrow> androint_dev \<Rightarrow> ((int \<times> 'u) \<times> androint_dev) option"
  fo_release :: "androint_dev \<Rightarrow> int \<times> androint_dev"

definition androint_fops :: "'u uaccess \<Rightarrow> 'u chr_fops" where
  "androint_fops K = \<lparr>fo_open = androint_open, fo_read = androint_read K, fo_write = androint_write K,
     fo_release = androint_release\<rparr>"

lemma androint_fops_fields [simp]:
  "fo_open (androint_fops K) = androint_open" "fo_read (androint_fops K) = androint_read K"
  "fo_write (androint_fops K) = androint_write K" "fo_release (androint_fops K) = androint_release"
  by (simp_all add: androint_fops_def)

lemmas androint_fops_defs =
  androint_read_def androint_write_def androint_access_def access_locked_def
  down_interruptible_def up_def

section \<open>Loading and unloading the module\<close>

text \<open>
  The kernel's table of character devices: the numbers that are reserved, and those a device
  is live under.  What \<open>register_chrdev_region\<close> and \<open>cdev_add\<close> answer is the kernel's
  choice; a failing one changes nothing.
\<close>

type_synonym dev_t = "nat \<times> nat"

record chrdevs =
  regions :: "dev_t list"
  cdevs :: "dev_t list"

definition androint_devno :: dev_t where
  "androint_devno = (123, 0)"

definition register_chrdev_region :: "int \<Rightarrow> dev_t \<Rightarrow> chrdevs \<Rightarrow> int \<times> chrdevs" where
  "register_chrdev_region answer devno r =
     (answer, if answer < 0 then r else r\<lparr>regions := devno # regions r\<rparr>)"

definition unregister_chrdev_region :: "dev_t \<Rightarrow> chrdevs \<Rightarrow> chrdevs" where
  "unregister_chrdev_region devno r = r\<lparr>regions := filter (\<lambda>x. x \<noteq> devno) (regions r)\<rparr>"

definition cdev_add :: "int \<Rightarrow> dev_t \<Rightarrow> chrdevs \<Rightarrow> int \<times> chrdevs" where
  "cdev_add answer devno r =
     (answer, if answer \<noteq> 0 then r else r\<lparr>cdevs := devno # cdevs r\<rparr>)"

definition cdev_del :: "dev_t \<Rightarrow> chrdevs \<Rightarrow> chrdevs" where
  "cdev_del devno r = r\<lparr>cdevs := filter (\<lambda>x. x \<noteq> devno) (cdevs r)\<rparr>"

definition androint_cleanup :: "chrdevs \<Rightarrow> chrdevs" where
  "androint_cleanup r = unregister_chrdev_region androint_devno (cdev_del androint_devno r)"

text \<open>The state the module starts from is its zeroed global \<open>androint_device\<close>.\<close>

definition androint_init :: "int \<Rightarrow> int \<Rightarrow> androint_dev \<times> chrdevs \<Rightarrow> int \<times> androint_dev \<times> chrdevs" where
  "androint_init reg_answer add_answer s =
     (let (result, r1) = register_chrdev_region reg_answer androint_devno (snd s)
      in if result < 0 then (result, fst s, r1)
         else (let d1 = (fst s)\<lparr>sem := 1\<rparr>;
                   (result2, r2) = cdev_add add_answer androint_devno r1
               in if result2 \<noteq> 0 then (result2, d1, androint_cleanup r2)
                  else (0, d1, r2)))"

lemmas chrdev_defs =
  register_chrdev_region_def unregister_chrdev_region_def cdev_add_def cdev_del_def
  androint_cleanup_def

end
