(* ===== verification/AdderSteps.thy ===== *)
theory AdderSteps
  imports Androint
begin

text \<open>
  The driver with several threads inside.  What \<open>access_locked\<close> does between \<open>down\<close> and
  \<open>up\<close> touches the two integers one after the other, so each is a step of its own that steps
  of other threads may come between; the semaphore decides who may be there.  A call that
  returns is entered in \<open>finished\<close> with its result, also one that a signal keeps from the
  semaphore.

  The abstract driver is a pair of integers that every call reads or writes at once.
\<close>

text \<open>
  A call has the number of bytes it asks for and the outcome of its copy: whether all of the sum
  could be stored, or what lands in the device and whether all of it was copied.
\<close>

datatype call =
    CRead nat bool
  | CWrite nat cint cint bool

text \<open>What a call returns, and the sum it handed to \<open>copy_to_user\<close>.\<close>

datatype ret = Ret (answer: int) (copied: "cint option")

datatype pc =
    Out
  | Waits call                     \<comment> \<open>before \<open>down_interruptible\<close> has returned\<close>
  | In call                        \<comment> \<open>holds the semaphore\<close>
  | Mid call cint                  \<comment> \<open>the first integer is read or written\<close>
  | Summed call cint               \<comment> \<open>the sum is computed, the count not yet tested\<close>
  | Served call ret                \<comment> \<open>before \<open>up\<close>\<close>

record adder_state =
  adev :: androint_dev
  loc :: "nat \<Rightarrow> pc"
  finished :: "(nat \<times> call \<times> ret) list"

text \<open>The result of a call whose count is right: the count when everything was copied.\<close>

fun copy_answer :: "bool \<Rightarrow> nat \<Rightarrow> int" where
  "copy_answer ok n = (if ok then int n else - EFAULT)"

inductive adder_step :: "adder_state \<Rightarrow> adder_state \<Rightarrow> bool" where
  enter: "loc s t = Out \<Longrightarrow> adder_step s (s\<lparr>loc := (loc s)(t := Waits c)\<rparr>)"
| down: "loc s t = Waits c \<Longrightarrow> down_interruptible False (adev s) = Some (0, d) \<Longrightarrow>
     adder_step s (s\<lparr>adev := d, loc := (loc s)(t := In c)\<rparr>)"
| signal: "loc s t = Waits c \<Longrightarrow> down_interruptible True (adev s) = Some (- EINTR, d) \<Longrightarrow>
     adder_step s (s\<lparr>loc := (loc s)(t := Out), finished := finished s @ [(t, c, Ret (- ERESTARTSYS) None)]\<rparr>)"
| load0: "loc s t = In (CRead n ok) \<Longrightarrow>
     adder_step s (s\<lparr>loc := (loc s)(t := Mid (CRead n ok) (data0 (adev s)))\<rparr>)"
| load1: "loc s t = Mid (CRead n ok) x \<Longrightarrow>
     adder_step s (s\<lparr>loc := (loc s)(t := Summed (CRead n ok) (x + data1 (adev s)))\<rparr>)"
| short_read: "loc s t = Summed (CRead n ok) x \<Longrightarrow> n \<noteq> 4 \<Longrightarrow>
     adder_step s (s\<lparr>loc := (loc s)(t := Served (CRead n ok) (Ret 0 None))\<rparr>)"
| copy_sum: "loc s t = Summed (CRead n ok) x \<Longrightarrow> n = 4 \<Longrightarrow>
     adder_step s (s\<lparr>loc := (loc s)(t := Served (CRead n ok) (Ret (copy_answer ok n) (Some x)))\<rparr>)"
| short_write: "loc s t = In (CWrite n a b ok) \<Longrightarrow> n \<noteq> 8 \<Longrightarrow>
     adder_step s (s\<lparr>loc := (loc s)(t := Served (CWrite n a b ok) (Ret 0 None))\<rparr>)"
| store0: "loc s t = In (CWrite n a b ok) \<Longrightarrow> n = 8 \<Longrightarrow>
     adder_step s (s\<lparr>adev := (adev s)\<lparr>data0 := a\<rparr>, loc := (loc s)(t := Mid (CWrite n a b ok) a)\<rparr>)"
| store1: "loc s t = Mid (CWrite n a b ok) x \<Longrightarrow>
     adder_step s (s\<lparr>adev := (adev s)\<lparr>data1 := b\<rparr>,
       loc := (loc s)(t := Served (CWrite n a b ok) (Ret (copy_answer ok n) None))\<rparr>)"
| leave: "loc s t = Served c r \<Longrightarrow>
     adder_step s (s\<lparr>adev := up (adev s), loc := (loc s)(t := Out), finished := finished s @ [(t, c, r)]\<rparr>)"

definition adder_start :: "adder_state \<Rightarrow> bool" where
  "adder_start s \<longleftrightarrow> sem (adev s) = 1 \<and> data0 (adev s) = 0 \<and> data1 (adev s) = 0 \<and>
     (\<forall>t. loc s t = Out) \<and> finished s = []"

section \<open>The abstract driver\<close>

record pair_spec =
  pair :: "cint \<times> cint"
  history :: "(nat \<times> call \<times> ret) list"

fun apply_call :: "call \<Rightarrow> cint \<times> cint \<Rightarrow> ret \<times> cint \<times> cint" where
  "apply_call (CRead n ok) (a, b) =
     (if n \<noteq> 4 then Ret 0 None else Ret (copy_answer ok n) (Some (a + b)), (a, b))"
| "apply_call (CWrite n a b ok) p =
     (if n \<noteq> 8 then (Ret 0 None, p) else (Ret (copy_answer ok n) None, (a, b)))"

inductive pair_step :: "pair_spec \<Rightarrow> pair_spec \<Rightarrow> bool" where
  atomic: "apply_call c (pair a) = (r, p) \<Longrightarrow>
     pair_step a \<lparr>pair = p, history = history a @ [(t, c, r)]\<rparr>"
| interrupted: "pair_step a (a\<lparr>history := history a @ [(t, c, Ret (- ERESTARTSYS) None)]\<rparr>)"

definition pair_start :: "pair_spec \<Rightarrow> bool" where
  "pair_start a \<longleftrightarrow> pair a = (0, 0) \<and> history a = []"

section \<open>The simulation\<close>

text \<open>
  Where the thread that holds the semaphore stands decides how the two integers of the device
  relate to the pair.
\<close>

fun outside :: "pc \<Rightarrow> bool" where
  "outside Out = True"
| "outside (Waits c) = True"
| "outside _ = False"

fun inside_rel :: "pc \<Rightarrow> androint_dev \<Rightarrow> cint \<times> cint \<Rightarrow> bool" where
  "inside_rel (In c) d p = ((data0 d, data1 d) = p)"
| "inside_rel (Mid (CRead n ok) x) d p = ((data0 d, data1 d) = p \<and> x = data0 d)"
| "inside_rel (Mid (CWrite n a b ok) x) d p = (n = 8 \<and> data0 d = a)"
| "inside_rel (Summed (CRead n ok) x) d p = ((data0 d, data1 d) = p \<and> x = data0 d + data1 d)"
| "inside_rel (Served c r) d p = (apply_call c p = (r, data0 d, data1 d))"
| "inside_rel _ d p = False"

definition adder_rel :: "adder_state \<Rightarrow> pair_spec \<Rightarrow> bool" where
  "adder_rel s a \<longleftrightarrow> history a = finished s \<and>
     ((sem (adev s) = 1 \<and> (\<forall>t. outside (loc s t)) \<and> (data0 (adev s), data1 (adev s)) = pair a) \<or>
      (sem (adev s) = 0 \<and> (\<exists>t. inside_rel (loc s t) (adev s) (pair a) \<and> (\<forall>u. u \<noteq> t \<longrightarrow> outside (loc s u)))))"

lemma inside_not_outside: "inside_rel q d p \<Longrightarrow> \<not> outside q"
  by (cases q) auto

lemma adder_rel_free:
  "adder_rel s a \<Longrightarrow> 0 < sem (adev s) \<Longrightarrow>
   history a = finished s \<and> sem (adev s) = 1 \<and> (\<forall>t. outside (loc s t)) \<and> pair a = (data0 (adev s), data1 (adev s))"
  by (auto simp: adder_rel_def)

lemma adder_rel_held:
  "adder_rel s a \<Longrightarrow> \<not> outside (loc s t) \<Longrightarrow>
   history a = finished s \<and> sem (adev s) = 0 \<and> inside_rel (loc s t) (adev s) (pair a) \<and>
   (\<forall>u. u \<noteq> t \<longrightarrow> outside (loc s u))"
  unfolding adder_rel_def by (metis inside_not_outside)

text \<open>A step of the thread inside, or of one that is and stays outside, restores the relation.\<close>

lemma adder_rel_inside:
  "history a = finished s \<Longrightarrow> sem d = 0 \<Longrightarrow> inside_rel q d (pair a) \<Longrightarrow>
   \<forall>u. u \<noteq> t \<longrightarrow> outside (loc s u) \<Longrightarrow> adder_rel (s\<lparr>adev := d, loc := (loc s)(t := q)\<rparr>) a"
  by (auto simp: adder_rel_def intro: exI [of _ t])

lemma adder_rel_outside:
  assumes "adder_rel s a" "outside (loc s t)" "outside q"
  shows "adder_rel (s\<lparr>loc := (loc s)(t := q)\<rparr>) a"
proof (cases "sem (adev s) = 1")
  case True
  then show ?thesis using assms by (auto simp: adder_rel_def)
next
  case False
  with assms(1) obtain u where u: "inside_rel (loc s u) (adev s) (pair a)"
      "\<forall>v. v \<noteq> u \<longrightarrow> outside (loc s v)" "sem (adev s) = 0" "history a = finished s"
    by (auto simp: adder_rel_def)
  with assms(2) have "u \<noteq> t" using inside_not_outside by blast
  with u assms(3) show ?thesis by (auto simp: adder_rel_def intro!: exI [of _ u])
qed

text \<open>The thread inside reads or writes an integer.\<close>

lemma adder_rel_move:
  assumes R: "adder_rel s a" and t: "\<not> outside (loc s t)" "sem d = sem (adev s)"
    and q: "inside_rel (loc s t) (adev s) (pair a) \<Longrightarrow> inside_rel q d (pair a)"
  shows "adder_rel (s\<lparr>adev := d, loc := (loc s)(t := q)\<rparr>) a"
  using adder_rel_held [OF R t(1)] t(2) q by (intro adder_rel_inside) simp_all

lemma adder_down:
  assumes R: "adder_rel s a" and t: "loc s t = Waits c" "down_interruptible False (adev s) = Some (0, d)"
  shows "adder_rel (s\<lparr>adev := d, loc := (loc s)(t := In c)\<rparr>) a"
proof -
  have "0 < sem (adev s)" using t(2) by (auto simp: down_interruptible_def split: if_splits)
  note free = adder_rel_free [OF R this]
  have "d = (adev s)\<lparr>sem := 0\<rparr>" using t(2) free by (auto simp: down_interruptible_def)
  then show ?thesis using t(1) free by (intro adder_rel_inside) auto
qed

text \<open>A call takes its effect in the specification when the semaphore is given back.\<close>

lemma adder_up:
  assumes R: "adder_rel s a" and t: "loc s t = Served c r"
    and s': "s' = s\<lparr>adev := up (adev s), loc := (loc s)(t := Out), finished := finished s @ [(t, c, r)]\<rparr>"
  shows "\<exists>a'. pair_step a a' \<and> adder_rel s' a'"
proof -
  let ?p = "(data0 (adev s), data1 (adev s))"
  have held: "history a = finished s" "sem (adev s) = 0" "apply_call c (pair a) = (r, ?p)"
      "\<forall>u. u \<noteq> t \<longrightarrow> outside (loc s u)"
    using adder_rel_held [OF R, of t] t by auto
  have "pair_step a \<lparr>pair = ?p, history = history a @ [(t, c, r)]\<rparr>" by (rule atomic) (rule held)
  moreover have "adder_rel s' \<lparr>pair = ?p, history = history a @ [(t, c, r)]\<rparr>"
    using s' held by (simp add: adder_rel_def up_def)
  ultimately show ?thesis by blast
qed

text \<open>A call that a signal keeps from the semaphore has no effect.\<close>

lemma adder_signal:
  assumes R: "adder_rel s a" and t: "loc s t = Waits c"
  shows "\<exists>a'. pair_step a a' \<and>
    adder_rel (s\<lparr>loc := (loc s)(t := Out), finished := finished s @ [(t, c, Ret (- ERESTARTSYS) None)]\<rparr>) a'"
proof -
  let ?a = "a\<lparr>history := history a @ [(t, c, Ret (- ERESTARTSYS) None)]\<rparr>"
  have "adder_rel (s\<lparr>loc := (loc s)(t := Out)\<rparr>) a" using R t by (intro adder_rel_outside) auto
  then have "adder_rel (s\<lparr>loc := (loc s)(t := Out), finished := finished s @ [(t, c, Ret (- ERESTARTSYS) None)]\<rparr>) ?a"
    by (simp add: adder_rel_def)
  then show ?thesis using interrupted by blast
qed

lemma adder_sim:
  assumes R: "adder_rel s a" and step: "adder_step s s'"
  shows "\<exists>a'. (pair_step a a' \<or> a' = a) \<and> adder_rel s' a'"
  using step
proof (cases rule: adder_step.cases)
  case (enter t c)
  then show ?thesis using adder_rel_outside [OF R, of t "Waits c"] by auto
next
  case (down t c d)
  then show ?thesis using adder_down [OF R, of t c d] by auto
next
  case (signal t c d)
  then show ?thesis using adder_signal [OF R, of t c] by blast
next
  case (load0 t n ok)
  then show ?thesis using adder_rel_move [OF R, of t "adev s" "Mid (CRead n ok) (data0 (adev s))"] by auto
next
  case (load1 t n ok x)
  then show ?thesis
    using adder_rel_move [OF R, of t "adev s" "Summed (CRead n ok) (x + data1 (adev s))"] by auto
next
  case (short_read t n ok x)
  have "inside_rel (Served (CRead n ok) (Ret 0 None)) (adev s) (pair a)"
    if "inside_rel (Summed (CRead n ok) x) (adev s) (pair a)"
    using that short_read(3) by (cases "pair a") simp
  then show ?thesis
    using short_read adder_rel_move [OF R, of t "adev s" "Served (CRead n ok) (Ret 0 None)"] by auto
next
  case (copy_sum t n ok x)
  have "inside_rel (Served (CRead n ok) (Ret (copy_answer ok n) (Some x))) (adev s) (pair a)"
    if "inside_rel (Summed (CRead n ok) x) (adev s) (pair a)"
    using that copy_sum(3) by (cases "pair a") simp
  then show ?thesis
    using copy_sum adder_rel_move [OF R, of t "adev s" "Served (CRead n ok) (Ret (copy_answer ok n) (Some x))"] by auto
next
  case (short_write t n x y ok)
  then show ?thesis
    using adder_rel_move [OF R, of t "adev s" "Served (CWrite n x y ok) (Ret 0 None)"] by auto
next
  case (store0 t n x y ok)
  then show ?thesis
    using adder_rel_move [OF R, of t "(adev s)\<lparr>data0 := x\<rparr>" "Mid (CWrite n x y ok) x"] by auto
next
  case (store1 t n x y ok z)
  then show ?thesis
    using adder_rel_move [OF R, of t "(adev s)\<lparr>data1 := y\<rparr>"
        "Served (CWrite n x y ok) (Ret (copy_answer ok n) None)"] by auto
next
  case (leave t c r)
  then show ?thesis using adder_up [OF R, of t c r s'] by blast
qed

interpretation adder: simulation adder_start adder_step pair_start pair_step adder_rel
proof unfold_locales
  show "\<exists>a. pair_start a \<and> adder_rel s a" if "adder_start s" for s
    using that
    by (intro exI [of _ "\<lparr>pair = (0, 0), history = []\<rparr>"])
       (simp add: adder_start_def pair_start_def adder_rel_def)
qed (rule adder_sim)

section \<open>The steps of one thread make up the function\<close>

text \<open>What a call asks of the device, and what it is told, from the arguments of \<open>access_locked\<close>.\<close>

definition call_of :: "'u uaccess \<Rightarrow> int \<Rightarrow> 'u \<Rightarrow> nat \<Rightarrow> androint_dev \<Rightarrow> call" where
  "call_of K dir buf count d =
     (if dir = 0 then CRead count (snd (copy_to_user K buf (le32 (data0 d + data1 d))) = 0)
      else (case copy_from_user K buf count of
              (bytes, left) \<Rightarrow> CWrite count (of_le32 bytes) (of_le32 (drop 4 bytes)) (left = 0)))"

text \<open>The memory of the caller after the call.\<close>

definition stored :: "'u uaccess \<Rightarrow> 'u \<Rightarrow> ret \<Rightarrow> 'u" where
  "stored K buf r = (case copied r of None \<Rightarrow> buf | Some x \<Rightarrow> fst (copy_to_user K buf (le32 x)))"

text \<open>
  From the semaphore taken to the semaphore given back, with no other thread inside: for every
  count and every outcome of the copy the steps come to what \<open>access_locked\<close> computes.
\<close>

lemma alone_steps:
  assumes loc: "loc s t = In c" and c: "c = call_of K dir buf count (adev s)"
    and res: "access_locked K dir buf count (adev s) = ((v, buf'), d)"
  shows "\<exists>s' r. adder_step\<^sup>*\<^sup>* s s' \<and> s' = s\<lparr>adev := d, loc := (loc s)(t := Served c r)\<rparr> \<and>
    answer r = v \<and> stored K buf r = buf'"
proof (cases c)
  case (CRead n ok)
  have dir: "dir = 0" "n = count" using CRead c by (auto simp: call_of_def split: if_splits prod.splits)
  obtain b left where cp: "copy_to_user K buf (le32 (data0 (adev s) + data1 (adev s))) = (b, left)" by fastforce
  have ok: "ok = (left = 0)" using CRead c dir cp by (simp add: call_of_def)
  let ?x = "data0 (adev s)"
  let ?y = "?x + data1 (adev s)"
  let ?r = "if n \<noteq> 4 then Ret 0 None else Ret (copy_answer ok n) (Some ?y)"
  let ?s1 = "s\<lparr>loc := (loc s)(t := Mid c ?x)\<rparr>"
  let ?s2 = "?s1\<lparr>loc := (loc ?s1)(t := Summed c ?y)\<rparr>"
  let ?s3 = "?s2\<lparr>loc := (loc ?s2)(t := Served c ?r)\<rparr>"
  have "adder_step s ?s1" using load0 [of s t n ok] loc CRead by simp
  moreover have "adder_step ?s1 ?s2" using load1 [of ?s1 t n ok ?x] CRead by simp
  moreover have "adder_step ?s2 ?s3"
    using short_read [of ?s2 t n ok ?y] copy_sum [of ?s2 t n ok ?y] CRead by simp
  moreover have "d = adev s" "answer ?r = v" "stored K buf ?r = buf'"
    using res dir cp ok by (auto simp: access_locked_def stored_def Let_def split: if_splits)
  ultimately show ?thesis
    by (intro exI [of _ ?s3] exI [of _ ?r]) (auto intro: rtranclp.rtrancl_into_rtrancl)
next
  case (CWrite n x y ok)
  have dir: "dir \<noteq> 0" "n = count" using CWrite c by (auto simp: call_of_def split: if_splits prod.splits)
  obtain bytes left where cp: "copy_from_user K buf count = (bytes, left)" by fastforce
  have xy: "x = of_le32 bytes" "y = of_le32 (drop 4 bytes)" "ok = (left = 0)"
    using CWrite c dir cp by (simp_all add: call_of_def)
  show ?thesis
  proof (cases "n = 8")
    case False
    let ?r = "Ret 0 None"
    have "adder_step s (s\<lparr>loc := (loc s)(t := Served c ?r)\<rparr>)"
      using short_write [of s t n x y ok] loc CWrite False by simp
    moreover have "d = adev s" "v = 0" "buf' = buf" using res dir False by (auto simp: access_locked_def)
    ultimately show ?thesis by (intro exI [of _ "s\<lparr>loc := (loc s)(t := Served c ?r)\<rparr>"] exI [of _ ?r]) (auto simp: stored_def)
  next
    case True
    let ?r = "Ret (copy_answer ok n) None"
    let ?s1 = "s\<lparr>adev := (adev s)\<lparr>data0 := x\<rparr>, loc := (loc s)(t := Mid c x)\<rparr>"
    let ?s2 = "?s1\<lparr>adev := (adev ?s1)\<lparr>data1 := y\<rparr>, loc := (loc ?s1)(t := Served c ?r)\<rparr>"
    have "adder_step s ?s1" using store0 [of s t n x y ok] loc CWrite True by simp
    moreover have "adder_step ?s1 ?s2" using store1 [of ?s1 t n x y ok x] CWrite by simp
    moreover have "d = (adev s)\<lparr>data0 := x, data1 := y\<rparr>" "answer ?r = v" "stored K buf ?r = buf'"
      using res dir cp True xy by (auto simp: access_locked_def stored_def Let_def split: if_splits)
    ultimately show ?thesis
      by (intro exI [of _ ?s2] exI [of _ ?r]) (auto intro: rtranclp.rtrancl_into_rtrancl)
  qed
qed

lemma alone_is_access:
  assumes "loc s t = In (call_of K dir buf count (adev s))"
    and "access_locked K dir buf count (adev s) = ((v, buf'), d)"
  shows "\<exists>s' r. adder_step\<^sup>*\<^sup>* s s' \<and> adev s' = up d \<and> loc s' = (loc s)(t := Out) \<and>
    finished s' = finished s @ [(t, call_of K dir buf count (adev s), r)] \<and>
    answer r = v \<and> stored K buf r = buf'"
proof -
  from alone_steps [OF assms(1) refl assms(2)] obtain s1 r where s1: "adder_step\<^sup>*\<^sup>* s s1"
      "s1 = s\<lparr>adev := d, loc := (loc s)(t := Served (call_of K dir buf count (adev s)) r)\<rparr>"
      "answer r = v" "stored K buf r = buf'" by blast
  from leave [of s1 t] s1 show ?thesis
    by (intro exI [of _ "s1\<lparr>adev := up (adev s1), loc := (loc s1)(t := Out),
        finished := finished s1 @ [(t, call_of K dir buf count (adev s), r)]\<rparr>"] exI [of _ r])
       (auto intro: rtranclp.rtrancl_into_rtrancl)
qed

end
