(* ===== verification/AdderClients.thy ===== *)
theory AdderClients
  imports Androint "HOL-Library.Monad_Syntax"
begin

text \<open>
  The programs that add two integers with the device: the native method that opens
  \<open>/dev/androint\<close> itself (\<open>AndroInt-activity-jni-driver/androint-jni.c\<close>), the one that
  goes through the hardware module (\<open>androint-hal\<close>), and the one that needs no device
  (\<open>AndroInt-activity-jni/androint-jni.c\<close>).  A call is a function from the state to its
  result and the next state; \<open>None\<close> is a call that does not return, because it sleeps for
  ever or because the process is killed.
\<close>

section \<open>Files\<close>

text \<open>
  The system calls a client uses, as its interface to the device.  \<open>f_read\<close> gives the
  returned number and the bytes stored in the buffer of the caller.
\<close>

record 's files =
  f_open :: "string \<Rightarrow> 's \<Rightarrow> (int \<times> 's) option"
  f_write :: "int \<Rightarrow> 8 word list \<Rightarrow> 's \<Rightarrow> (int \<times> 's) option"
  f_read :: "int \<Rightarrow> nat \<Rightarrow> 's \<Rightarrow> ((int \<times> 8 word list) \<times> 's) option"
  f_close :: "int \<Rightarrow> 's \<Rightarrow> (int \<times> 's) option"

definition DEVFILE :: string where "DEVFILE = ''/dev/androint''"
definition ADDER_FILE :: string where "ADDER_FILE = ''/dev/androint''"

text \<open>An \<open>int\<close> variable whose first bytes a \<open>read\<close> has overwritten.\<close>

definition overlay :: "8 word list \<Rightarrow> cint \<Rightarrow> cint" where
  "overlay bytes x = of_le32 (bytes @ drop (length bytes) (le32 x))"

lemma overlay_le32 [simp]: "overlay (le32 y) x = y"
  by (simp add: overlay_def)

lemma overlay_Nil [simp]: "overlay [] x = x"
  by (simp add: overlay_def)

section \<open>The native methods\<close>

text \<open>\<open>garbage\<close> is what the uninitialised variable \<open>result\<close> holds.\<close>

definition addJNI_driver :: "'s files \<Rightarrow> cint \<Rightarrow> cint \<Rightarrow> cint \<Rightarrow> 's \<Rightarrow> (cint \<times> 's) option" where
  "addJNI_driver F garbage a b s = do {
     (fd, s1) \<leftarrow> f_open F DEVFILE s;
     (_, s2) \<leftarrow> f_write F fd (le32 a @ le32 b) s1;
     ((_, bytes), s3) \<leftarrow> f_read F fd 4 s2;
     (_, s4) \<leftarrow> f_close F fd s3;
     Some (overlay bytes garbage, s4) }"

definition addJNI_plain :: "cint \<Rightarrow> cint \<Rightarrow> cint" where
  "addJNI_plain a b = a + b"

section \<open>The hardware module\<close>

definition add_androint :: "'s files \<Rightarrow> cint \<Rightarrow> cint \<Rightarrow> cint \<Rightarrow> 's \<Rightarrow> (cint \<times> 's) option" where
  "add_androint F garbage a b s = do {
     let inp = [a, b];
     (fd, s1) \<leftarrow> f_open F ADDER_FILE s;
     (_, s2) \<leftarrow> f_write F fd (concat (map le32 inp)) s1;
     ((_, bytes), s3) \<leftarrow> f_read F fd 4 s2;
     (_, s4) \<leftarrow> f_close F fd s3;
     Some (overlay bytes garbage, s4) }"

datatype hal_fn = Fn_open_androint | Fn_close_androint | Fn_add_androint

text \<open>\<open>androint_device_t\<close>; a function pointer is the name of the function.\<close>

record androint_device_t =
  ad_tag :: string
  ad_version :: nat
  ad_module :: string
  ad_close :: "hal_fn option"
  ad_add :: "hal_fn option"

text \<open>
  The heap of the process holds device structures; an address is a position, a freed one is
  \<open>None\<close>.  Whether \<open>malloc\<close> succeeds is an argument.
\<close>

type_synonym 's hal_state = "'s \<times> androint_device_t option list"

definition open_androint ::
  "bool \<Rightarrow> string \<Rightarrow> string \<Rightarrow> 's hal_state \<Rightarrow> ((int \<times> nat) \<times> 's hal_state) option" where
  "open_androint malloc_ok hw name s =
     (if \<not> malloc_ok then None
      else Some ((0, length (snd s)),
        (fst s, snd s @ [Some \<lparr>ad_tag = ''HARDWARE_DEVICE_TAG'', ad_version = 0, ad_module = hw,
                               ad_close = Some Fn_close_androint, ad_add = Some Fn_add_androint\<rparr>])))"

definition close_androint :: "nat option \<Rightarrow> 's hal_state \<Rightarrow> int \<times> 's hal_state" where
  "close_androint dev s =
     (case dev of
        None \<Rightarrow> (0, s)
      | Some p \<Rightarrow> (0, (fst s, (snd s)[p := None])))"

text \<open>\<open>HAL_MODULE_INFO_SYM\<close> of the library, with the table of its methods.\<close>

definition ANDROINT_HARDWARE_MODULE_ID :: string where "ANDROINT_HARDWARE_MODULE_ID = ''androint''"
definition ANDROINT_ID :: string where "ANDROINT_ID = ''androint''"

record androint_module =
  am_tag :: string
  am_version_major :: nat
  am_version_minor :: nat
  am_id :: string
  am_name :: string
  am_author :: string
  am_open :: "hal_fn option"           \<comment> \<open>\<open>methods->open\<close>\<close>

definition HAL_MODULE_INFO_SYM_androint :: androint_module where
  "HAL_MODULE_INFO_SYM_androint = \<lparr>am_tag = ''HARDWARE_MODULE_TAG'', am_version_major = 1, am_version_minor = 0,
     am_id = ANDROINT_HARDWARE_MODULE_ID, am_name = ''The AndroInt Adder Module'', am_author = ''William W.-Y. Liang'',
     am_open = Some Fn_open_androint\<rparr>"

lemma androint_module_fields [simp]:
  "am_open HAL_MODULE_INFO_SYM_androint = Some Fn_open_androint"
  "am_id HAL_MODULE_INFO_SYM_androint = ANDROINT_HARDWARE_MODULE_ID"
  by (simp_all add: HAL_MODULE_INFO_SYM_androint_def)

text \<open>A call through the pointer \<open>add\<close> of a device.\<close>

definition call_add ::
  "'s files \<Rightarrow> cint \<Rightarrow> nat \<Rightarrow> cint \<Rightarrow> cint \<Rightarrow> 's hal_state \<Rightarrow> (cint \<times> 's hal_state) option" where
  "call_add F garbage p a b s =
     (if length (snd s) \<le> p then None
      else case snd s ! p of
        None \<Rightarrow> None
      | Some d \<Rightarrow> (case ad_add d of
          Some Fn_add_androint \<Rightarrow> do {
            (r, k) \<leftarrow> add_androint F garbage a b (fst s);
            Some (r, (k, snd s)) }
        | _ \<Rightarrow> None))"

text \<open>
  The native method over the module: \<open>found\<close> says whether \<open>hw_get_module\<close> found one; its
  result is not looked at, so without a module the call through \<open>module\<close> goes nowhere.
\<close>

definition addJNI_hal ::
  "'s files \<Rightarrow> bool \<Rightarrow> bool \<Rightarrow> cint \<Rightarrow> cint \<Rightarrow> cint \<Rightarrow> 's hal_state \<Rightarrow> (cint \<times> 's hal_state) option" where
  "addJNI_hal F found malloc_ok garbage a b s =
     (if \<not> found then None
      else case am_open HAL_MODULE_INFO_SYM_androint of
        Some Fn_open_androint \<Rightarrow> do {
          ((_, p), s1) \<leftarrow> open_androint malloc_ok (am_id HAL_MODULE_INFO_SYM_androint) ANDROINT_ID s;
          call_add F garbage p a b s1 }
      | _ \<Rightarrow> None)"

section \<open>What a client relies on\<close>

text \<open>
  \<open>good s\<close>: the device can be used in \<open>s\<close>; \<open>table s\<close>: the open descriptors.  A write of eight
  bytes sets the two integers, a read of four gives their sum, and neither sleeps for ever.
\<close>

locale adder_files =
  fixes F :: "'s files" and good :: "'s \<Rightarrow> bool" and table :: "'s \<Rightarrow> nat list" and pair_of :: "'s \<Rightarrow> cint \<times> cint"
  assumes open_fresh: "good s \<Longrightarrow> \<exists>n s'. f_open F DEVFILE s = Some (int n, s') \<and> good s' \<and>
      n \<notin> set (table s) \<and> table s' = n # table s"
    and write_sets: "good s \<Longrightarrow> n \<in> set (table s) \<Longrightarrow> \<exists>s'. f_write F (int n) (le32 a @ le32 b) s = Some (8, s') \<and>
      good s' \<and> table s' = table s \<and> pair_of s' = (a, b)"
    and read_sums: "good s \<Longrightarrow> n \<in> set (table s) \<Longrightarrow>
      \<exists>s'. f_read F (int n) 4 s = Some ((4, le32 (fst (pair_of s) + snd (pair_of s))), s') \<and>
      good s' \<and> table s' = table s"
    and close_removes: "good s \<Longrightarrow> n \<in> set (table s) \<Longrightarrow> \<exists>s'. f_close F (int n) s = Some (0, s') \<and>
      good s' \<and> table s' = removeAll n (table s)"
begin

lemma driver_adds:
  assumes "good s"
  shows "\<exists>s'. addJNI_driver F garbage a b s = Some (a + b, s') \<and> good s' \<and> table s' = table s"
proof -
  obtain n s1 where 1: "f_open F DEVFILE s = Some (int n, s1)" "good s1" "n \<notin> set (table s)" "table s1 = n # table s"
    using open_fresh [OF assms] by blast
  obtain s2 where 2: "f_write F (int n) (le32 a @ le32 b) s1 = Some (8, s2)" "good s2" "table s2 = table s1"
      "pair_of s2 = (a, b)"
    using write_sets [of s1 n] 1 by auto
  obtain s3 where 3: "f_read F (int n) 4 s2 = Some ((4, le32 (a + b)), s3)" "good s3" "table s3 = table s1"
    using read_sums [of s2 n] 1 2 by auto
  obtain s4 where 4: "f_close F (int n) s3 = Some (0, s4)" "good s4" "table s4 = removeAll n (n # table s)"
    using close_removes [of s3 n] 1 3 by auto
  show ?thesis using 1 2 3 4 by (simp add: addJNI_driver_def)
qed

lemma module_is_driver: "add_androint F = addJNI_driver F"
  by (intro ext) (simp add: add_androint_def addJNI_driver_def DEVFILE_def ADDER_FILE_def)

lemma hal_adds:
  assumes "good (fst s)"
  shows "\<exists>k d. addJNI_hal F True True garbage a b s = Some (a + b, (k, snd s @ [Some d])) \<and>
    good k \<and> table k = table (fst s)"
  using driver_adds [OF assms, of garbage a b]
  by (auto simp: addJNI_hal_def open_androint_def call_add_def module_is_driver nth_append)

end

section \<open>The files of a process, over the driver\<close>

text \<open>
  The memory of the process at the buffer it passes: so many bytes can be accessed, what is
  missing is padded with zeros in the buffer of the kernel.
\<close>

definition plain_user :: "8 word list uaccess" where
  "plain_user = \<lparr>
     copy_from_user = (\<lambda>u n. (take n u @ replicate (n - length u) 0, n - length u)),
     copy_to_user = (\<lambda>u bs. (take (length u) bs @ drop (length bs) u, length bs - length u)) \<rparr>"

record adder_sys =
  kdev :: androint_dev
  fds :: "nat list"

text \<open>
  A descriptor number is chosen by \<open>pick\<close>, which may refuse; \<open>live\<close> says whether the module is
  loaded.  A descriptor that is not open gives an error and no effect.
\<close>

definition sys_open :: "(nat list \<Rightarrow> nat option) \<Rightarrow> bool \<Rightarrow> string \<Rightarrow> adder_sys \<Rightarrow> (int \<times> adder_sys) option" where
  "sys_open pick live path s =
     (if path \<noteq> DEVFILE \<or> \<not> live then Some (- 1, s)
      else case pick (fds s) of
        None \<Rightarrow> Some (- 1, s)
      | Some n \<Rightarrow> Some (int n, s\<lparr>kdev := snd (fo_open (androint_fops plain_user) (kdev s)), fds := n # fds s\<rparr>))"

definition sys_write :: "int \<Rightarrow> 8 word list \<Rightarrow> adder_sys \<Rightarrow> (int \<times> adder_sys) option" where
  "sys_write fd bytes s =
     (if fd < 0 \<or> nat fd \<notin> set (fds s) then Some (- 1, s)
      else case fo_write (androint_fops plain_user) False bytes (length bytes) (kdev s) of
        None \<Rightarrow> None
      | Some ((n, _), d) \<Rightarrow> Some (if n < 0 then - 1 else n, s\<lparr>kdev := d\<rparr>))"

definition sys_read :: "int \<Rightarrow> nat \<Rightarrow> adder_sys \<Rightarrow> ((int \<times> 8 word list) \<times> adder_sys) option" where
  "sys_read fd count s =
     (if fd < 0 \<or> nat fd \<notin> set (fds s) then Some ((- 1, []), s)
      else case fo_read (androint_fops plain_user) False (replicate count 0) count (kdev s) of
        None \<Rightarrow> None
      | Some ((n, buf), d) \<Rightarrow> Some ((if n < 0 then - 1 else n, take (nat n) buf), s\<lparr>kdev := d\<rparr>))"

definition sys_close :: "int \<Rightarrow> adder_sys \<Rightarrow> (int \<times> adder_sys) option" where
  "sys_close fd s =
     (if fd < 0 \<or> nat fd \<notin> set (fds s) then Some (- 1, s)
      else Some (0, s\<lparr>kdev := snd (fo_release (androint_fops plain_user) (kdev s)), fds := removeAll (nat fd) (fds s)\<rparr>))"

definition androint_files :: "(nat list \<Rightarrow> nat option) \<Rightarrow> bool \<Rightarrow> adder_sys files" where
  "androint_files pick live =
     \<lparr>f_open = sys_open pick live, f_write = sys_write, f_read = sys_read, f_close = sys_close\<rparr>"

lemma write_plain:
  "sem d = 1 \<Longrightarrow> androint_write plain_user sig (le32 a @ le32 b) 8 d =
     Some ((8, le32 a @ le32 b), d\<lparr>data0 := a, data1 := b\<rparr>)"
  by (simp add: androint_fops_defs plain_user_def)

lemma read_plain:
  "sem d = 1 \<Longrightarrow> androint_read plain_user sig (replicate 4 0) 4 d = Some ((4, le32 (data0 d + data1 d)), d)"
  by (simp add: androint_fops_defs plain_user_def)

text \<open>The lowest number that is free, with no limit on the table.\<close>

definition lowest_free :: "nat list \<Rightarrow> nat option" where
  "lowest_free ns = find (\<lambda>n. n \<notin> set ns) [0..<Suc (length ns)]"

lemma lowest_free: "\<exists>n. lowest_free ns = Some n \<and> n \<notin> set ns"
proof (cases "lowest_free ns")
  case None
  then have "set [0..<Suc (length ns)] \<subseteq> set ns"
    unfolding lowest_free_def find_None_iff by blast
  then have "card (set [0..<Suc (length ns)]) \<le> length ns"
    using card_mono [OF finite_set] card_length le_trans by blast
  then show ?thesis by simp
next
  case (Some n)
  then show ?thesis unfolding lowest_free_def find_Some_iff by auto
qed

definition usable :: "adder_sys \<Rightarrow> bool" where
  "usable s \<longleftrightarrow> sem (kdev s) = 1"

interpretation androint_client:
  adder_files "androint_files lowest_free True" usable fds "\<lambda>s. (data0 (kdev s), data1 (kdev s))"
proof unfold_locales
  fix s :: adder_sys and n :: nat and a b :: cint
  assume s: "usable s"
  then show "\<exists>n s'. f_open (androint_files lowest_free True) DEVFILE s = Some (int n, s') \<and> usable s' \<and>
      n \<notin> set (fds s) \<and> fds s' = n # fds s"
    using lowest_free [of "fds s"]
    by (auto simp: androint_files_def sys_open_def usable_def androint_open_def)
  assume n: "n \<in> set (fds s)"
  show "\<exists>s'. f_write (androint_files lowest_free True) (int n) (le32 a @ le32 b) s = Some (8, s') \<and>
      usable s' \<and> fds s' = fds s \<and> (data0 (kdev s'), data1 (kdev s')) = (a, b)"
    using s n by (simp add: androint_files_def sys_write_def usable_def write_plain)
  show "\<exists>s'. f_read (androint_files lowest_free True) (int n) 4 s =
      Some ((4, le32 (fst (data0 (kdev s), data1 (kdev s)) + snd (data0 (kdev s), data1 (kdev s)))), s') \<and>
      usable s' \<and> fds s' = fds s"
    using s n by (simp add: androint_files_def sys_read_def usable_def read_plain)
  show "\<exists>s'. f_close (androint_files lowest_free True) (int n) s = Some (0, s') \<and>
      usable s' \<and> fds s' = removeAll n (fds s)"
    using s n by (simp add: androint_files_def sys_close_def usable_def androint_release_def)
qed

end
