(* ===== verification/AdderProps.thy ===== *)
theory AdderProps
  imports AdderSteps AdderClients
begin

text \<open>
  What the adder guarantees: the driver is atomic, its calls keep the semaphore, its clients
  agree when they are alone, and what happens to them when they are not.
\<close>

section \<open>The driver\<close>

text \<open>
  One thread has asked for five bytes and been told 0, another is between the two integers it
  writes, a third waits.
\<close>

definition busy_state :: adder_state where
  "busy_state = \<lparr>adev = \<lparr>data0 = 2, data1 = 0, sem = 0\<rparr>,
     loc = (\<lambda>_. Out)(0 := Mid (CWrite 8 2 3 True) 2, 1 := Waits (CRead 4 True)),
     finished = [(2, CRead 5 True, Ret 0 None)]\<rparr>"

lemma busy_reachable: "reach adder_start adder_step busy_state"
proof -
  let ?w = "CWrite 8 2 3 True"
  let ?q = "CRead 5 True"
  let ?f = "[(2, ?q, Ret 0 None)] :: (nat \<times> call \<times> ret) list"
  let ?st = "\<lambda>d0 m l f. \<lparr>adev = \<lparr>data0 = d0, data1 = 0, sem = m\<rparr>, loc = l, finished = f\<rparr>"
  let ?o = "\<lambda>_ :: nat. Out"
  have "reach adder_start adder_step (?st 0 1 ?o [])" by (rule reach_start) (simp add: adder_start_def)
  then have "reach adder_start adder_step (?st 0 1 (?o(2 := Waits ?q)) [])"
    by (rule reach_step) (use enter [of "?st 0 1 ?o []" 2 ?q] in simp)
  then have "reach adder_start adder_step (?st 0 0 (?o(2 := In ?q)) [])"
    by (rule reach_step) (use down [of "?st 0 1 (?o(2 := Waits ?q)) []" 2 ?q] in \<open>simp add: down_interruptible_def\<close>)
  then have "reach adder_start adder_step (?st 0 0 (?o(2 := Mid ?q 0)) [])"
    by (rule reach_step) (use load0 [of "?st 0 0 (?o(2 := In ?q)) []" 2 5 True] in simp)
  then have "reach adder_start adder_step (?st 0 0 (?o(2 := Summed ?q 0)) [])"
    by (rule reach_step) (use load1 [of "?st 0 0 (?o(2 := Mid ?q 0)) []" 2 5 True 0] in simp)
  then have "reach adder_start adder_step (?st 0 0 (?o(2 := Served ?q (Ret 0 None))) [])"
    by (rule reach_step) (use short_read [of "?st 0 0 (?o(2 := Summed ?q 0)) []" 2 5 True 0] in simp)
  then have "reach adder_start adder_step (?st 0 1 (?o(2 := Out)) ?f)"
    by (rule reach_step)
       (use leave [of "?st 0 0 (?o(2 := Served ?q (Ret 0 None))) []" 2 ?q "Ret 0 None"] in \<open>simp add: up_def\<close>)
  moreover have "?o(2 := Out) = ?o" by (rule ext) simp
  ultimately have "reach adder_start adder_step (?st 0 1 ?o ?f)" by (simp only:)
  then have "reach adder_start adder_step (?st 0 1 (?o(0 := Waits ?w)) ?f)"
    by (rule reach_step) (use enter [of "?st 0 1 ?o ?f" 0 ?w] in simp)
  then have "reach adder_start adder_step (?st 0 0 (?o(0 := In ?w)) ?f)"
    by (rule reach_step) (use down [of "?st 0 1 (?o(0 := Waits ?w)) ?f" 0 ?w] in \<open>simp add: down_interruptible_def\<close>)
  then have "reach adder_start adder_step (?st 2 0 (?o(0 := Mid ?w 2)) ?f)"
    by (rule reach_step) (rule back_subst [of "adder_step _"], rule store0 [of _ 0 8 2 3 True], simp_all)
  then have "reach adder_start adder_step (?st 2 0 (?o(0 := Mid ?w 2, 1 := Waits (CRead 4 True))) ?f)"
    by (rule reach_step) (use enter [of "?st 2 0 (?o(0 := Mid ?w 2)) ?f" 1 "CRead 4 True"] in simp)
  then show ?thesis by (simp add: busy_state_def)
qed

text \<open>
  C4: Whatever threads are inside the driver, with whatever counts and outcomes of their copies, and
  however their steps interleave, the calls that have returned have the results they would have
  had one after the other, each in one step, in the order in which they returned: 0 for a wrong
  count, \<open>-EFAULT\<close> for a copy that fails, \<open>-ERESTARTSYS\<close> with no effect for a call that a
  signal interrupts; and whenever the semaphore is free the two integers are those of that
  sequential driver.
\<close>

lemma driver_is_atomic:
  assumes "reach adder_start adder_step s"
  shows "\<exists>a. reach pair_start pair_step a \<and> history a = finished s \<and>
    (sem (adev s) = 0 \<or> (sem (adev s) = 1 \<and> pair a = (data0 (adev s), data1 (adev s))))"
  using adder.sim_reach [OF assms] unfolding adder_rel_def by fastforce

lemma driver_is_atomic_witness:
  "\<exists>a. reach pair_start pair_step a \<and> history a = finished busy_state \<and>
    (sem (adev busy_state) = 0 \<or>
     (sem (adev busy_state) = 1 \<and> pair a = (data0 (adev busy_state), data1 (adev busy_state))))"
  by (rule driver_is_atomic [OF busy_reachable])

text \<open>
  A call that returns leaves the semaphore as it found it and answers the number of bytes asked
  for, 0, \<open>-EFAULT\<close> or \<open>-ERESTARTSYS\<close>.  It answers a number of bytes above 0 only for a
  read of four or a write of eight, and changes an integer only in a write of eight.
\<close>

lemma driver_calls:
  assumes "androint_access K signal dir buf count d = Some ((r, buf'), d')"
  shows "sem d' = sem d \<and> r \<in> {int count, 0, - EFAULT, - ERESTARTSYS} \<and>
    (0 < r \<longrightarrow> count = (if dir = 0 then 4 else 8)) \<and>
    ((data0 d', data1 d') = (data0 d, data1 d) \<or> (dir \<noteq> 0 \<and> count = 8))"
  using assms
  by (auto simp: androint_fops_defs errno_defs Let_def split: if_splits option.splits prod.splits)

lemma driver_calls_witness:
  "let d = \<lparr>data0 = 0, data1 = 0, sem = 1\<rparr>; d' = \<lparr>data0 = 2, data1 = 3, sem = 1\<rparr>
   in sem d' = sem d \<and> (8::int) \<in> {int 8, 0, - EFAULT, - ERESTARTSYS} \<and>
     (0 < (8::int) \<longrightarrow> (8::nat) = (if (1::int) = 0 then 4 else 8)) \<and>
     ((data0 d', data1 d') = (data0 d, data1 d) \<or> ((1::int) \<noteq> 0 \<and> (8::nat) = 8))"
  unfolding Let_def
  by (rule driver_calls [where K = plain_user and signal = False and buf = "le32 2 @ le32 3"])
     (simp add: androint_fops_defs plain_user_def)

text \<open>
  A write from a buffer of which only the first \<open>k < 8\<close> bytes can be read answers
  \<open>-EFAULT\<close>, but has already replaced both integers of the device by those bytes and zeros: the
  next reader is given the sum of a pair nobody wrote.
\<close>

lemma faulting_write_clobbers:
  assumes "length buf < 8" "sem d = 1"
  shows "\<exists>d'. androint_write plain_user signal buf 8 d = Some ((- EFAULT, buf), d') \<and>
    (let padded = buf @ replicate (8 - length buf) 0; x = of_le32 padded; y = of_le32 (drop 4 padded)
     in data0 d' = x \<and> data1 d' = y \<and>
        androint_read plain_user signal (replicate 4 0) 4 d' = Some ((4, le32 (x + y)), d'))"
  using assms by (auto simp: androint_fops_defs plain_user_def Let_def)

lemma faulting_write_clobbers_witness:
  "\<exists>d'. androint_write plain_user False [7] 8 \<lparr>data0 = 2, data1 = 3, sem = 1\<rparr> = Some ((- EFAULT, [7]), d') \<and>
    (let padded = [7] @ replicate (8 - length [7::8 word]) 0; x = of_le32 padded; y = of_le32 (drop 4 padded)
     in data0 d' = x \<and> data1 d' = y \<and>
        androint_read plain_user False (replicate 4 0) 4 d' = Some ((4, le32 (x + y)), d'))"
  by (rule faulting_write_clobbers) simp_all

section \<open>Loading the module\<close>

text \<open>
  C31: Loading answers 0 exactly when both the number was reserved and the device was added, and then
  unloading takes both back; when either step fails its code is answered and the tables of the kernel
  are as they were before.
\<close>

lemma module_load_is_transaction:
  assumes "androint_devno \<notin> set (regions r)" "androint_devno \<notin> set (cdevs r)"
    "androint_init reg_answer add_answer (d, r) = (result, d', r')"
  shows "(if 0 \<le> reg_answer \<and> add_answer = 0
    then result = 0 \<and> sem d' = 1 \<and> androint_devno \<in> set (regions r') \<and> androint_devno \<in> set (cdevs r') \<and>
      androint_cleanup r' = r
    else result = (if reg_answer < 0 then reg_answer else add_answer) \<and> result \<noteq> 0 \<and> r' = r)"
proof -
  have other: "filter (\<lambda>x. x \<noteq> androint_devno) xs = xs" if "androint_devno \<notin> set xs" for xs
    using that by (metis (mono_tags, lifting) filter_True)
  show ?thesis using assms
    by (auto simp: androint_init_def chrdev_defs other Let_def split: if_splits)
qed

lemma module_load_is_transaction_witness:
  "if (0::int) \<le> 0 \<and> (-12::int) = 0
   then (-12::int) = 0 \<and> sem \<lparr>data0 = 0, data1 = 0, sem = 1\<rparr> = 1 \<and>
     androint_devno \<in> set (regions \<lparr>regions = [], cdevs = []\<rparr>) \<and>
     androint_devno \<in> set (cdevs \<lparr>regions = [], cdevs = []\<rparr>) \<and>
     androint_cleanup \<lparr>regions = [], cdevs = []\<rparr> = \<lparr>regions = [], cdevs = []\<rparr>
   else (-12::int) = (if (0::int) < 0 then 0 else -12) \<and> (-12::int) \<noteq> 0 \<and>
     \<lparr>regions = [], cdevs = []\<rparr> = \<lparr>regions = [], cdevs = []\<rparr>"
  by (rule module_load_is_transaction [where d = "\<lparr>data0 = 0, data1 = 0, sem = 0\<rparr>"])
     (simp_all add: androint_init_def chrdev_defs)

section \<open>Clients\<close>

text \<open>
  C36: With the device to itself the native method that opens it, the one over the hardware module and
  the one that needs no device answer the same sum, wrapped to 32 bits; the descriptor is closed
  again, but the method over the module leaves one more device structure in the heap; and when the
  device cannot be opened the answer is whatever the uninitialised variable held.
\<close>

lemma adder_clients_agree:
  assumes "sem (kdev s) = 1"
  shows "\<exists>s1 s2 d.
    addJNI_driver (androint_files lowest_free True) garbage a b s = Some (addJNI_plain a b, s1) \<and> fds s1 = fds s \<and>
    addJNI_hal (androint_files lowest_free True) True True garbage a b (s, heap) =
      Some (addJNI_plain a b, (s2, heap @ [Some d])) \<and> fds s2 = fds s \<and>
    addJNI_driver (androint_files lowest_free False) garbage a b s = Some (garbage, s)"
proof -
  have "usable s" using assms by (simp add: usable_def)
  moreover have "addJNI_driver (androint_files lowest_free False) garbage a b s = Some (garbage, s)"
    by (simp add: addJNI_driver_def androint_files_def sys_open_def sys_write_def sys_read_def sys_close_def)
  ultimately show ?thesis
    using androint_client.driver_adds [of s garbage a b] androint_client.hal_adds [of "(s, heap)" garbage a b]
    by (auto simp: addJNI_plain_def)
qed

lemma adder_clients_agree_witness:
  "\<exists>s1 s2 d. let s = \<lparr>kdev = \<lparr>data0 = 0, data1 = 0, sem = 1\<rparr>, fds = [0, 1, 2]\<rparr> in
    addJNI_driver (androint_files lowest_free True) 9 (-1) 3 s = Some (addJNI_plain (-1) 3, s1) \<and> fds s1 = fds s \<and>
    addJNI_hal (androint_files lowest_free True) True True 9 (-1) 3 (s, []) =
      Some (addJNI_plain (-1) 3, (s2, [] @ [Some d])) \<and> fds s2 = fds s \<and>
    addJNI_driver (androint_files lowest_free False) 9 (-1) 3 s = Some (9, s)"
  unfolding Let_def by (rule adder_clients_agree) simp

text \<open>
  Several clients at once: threads in \<open>addJNI_driver\<close>, over the steps of the driver.  Each
  opens the file, writes its pair, reads the sum and closes, and looks at none of the results: a
  failed \<open>open\<close> leaves it with a descriptor for which the other calls reach no driver, and a
  call that a signal interrupts is either made again by the kernel or given up.  The buffers are
  variables of the caller, so a copy never fails.  What the uninitialised \<open>result\<close> of a thread
  holds is \<open>junk\<close>.
\<close>

datatype client_at =
    Begun
  | Opened bool                    \<comment> \<open>whether the descriptor is one of the device\<close>
  | Writing                        \<comment> \<open>inside the driver\<close>
  | Written bool
  | Reading                        \<comment> \<open>inside the driver\<close>
  | Closing cint                   \<comment> \<open>the value of \<open>result\<close>\<close>
  | Answered cint

record clients =
  drv :: adder_state
  client :: "nat \<Rightarrow> client_at"

definition pair_write :: "cint \<times> cint \<Rightarrow> call" where
  "pair_write p = CWrite 8 (fst p) (snd p) True"

definition sum_read :: call where
  "sum_read = CRead 4 True"

text \<open>The variable after the call: the stored sum, or what it held.\<close>

definition result_of :: "ret \<Rightarrow> cint \<Rightarrow> cint" where
  "result_of r garbage = (case copied r of None \<Rightarrow> garbage | Some x \<Rightarrow> overlay (le32 x) garbage)"

inductive client_step :: "(nat \<Rightarrow> cint \<times> cint) \<Rightarrow> (nat \<Rightarrow> cint) \<Rightarrow> clients \<Rightarrow> clients \<Rightarrow> bool" for arg junk where
  client_open: "client s t = Begun \<Longrightarrow>
     client_step arg junk s (s\<lparr>client := (client s)(t := Opened ok)\<rparr>)"
| client_no_write: "client s t = Opened False \<Longrightarrow>
     client_step arg junk s (s\<lparr>client := (client s)(t := Written False)\<rparr>)"
| client_write: "client s t = Opened True \<Longrightarrow>
     d = (drv s)\<lparr>loc := (loc (drv s))(t := Waits (pair_write (arg t)))\<rparr> \<Longrightarrow> adder_step (drv s) d \<Longrightarrow>
     client_step arg junk s (s\<lparr>drv := d, client := (client s)(t := Writing)\<rparr>)"
| client_wrote: "client s t = Writing \<Longrightarrow> adder_step (drv s) d \<Longrightarrow>
     finished d = finished (drv s) @ [(t, c, r)] \<Longrightarrow> q = Written True \<or> (answer r = - ERESTARTSYS \<and> q = Opened True) \<Longrightarrow>
     client_step arg junk s (s\<lparr>drv := d, client := (client s)(t := q)\<rparr>)"
| client_no_read: "client s t = Written False \<Longrightarrow>
     client_step arg junk s (s\<lparr>client := (client s)(t := Closing (junk t))\<rparr>)"
| client_read: "client s t = Written True \<Longrightarrow>
     d = (drv s)\<lparr>loc := (loc (drv s))(t := Waits sum_read)\<rparr> \<Longrightarrow> adder_step (drv s) d \<Longrightarrow>
     client_step arg junk s (s\<lparr>drv := d, client := (client s)(t := Reading)\<rparr>)"
| client_got: "client s t = Reading \<Longrightarrow> adder_step (drv s) d \<Longrightarrow>
     finished d = finished (drv s) @ [(t, c, r)] \<Longrightarrow>
     q = Closing (result_of r (junk t)) \<or> (answer r = - ERESTARTSYS \<and> q = Written True) \<Longrightarrow>
     client_step arg junk s (s\<lparr>drv := d, client := (client s)(t := q)\<rparr>)"
| client_close: "client s t = Closing x \<Longrightarrow>
     client_step arg junk s (s\<lparr>client := (client s)(t := Answered x)\<rparr>)"
| client_inside: "adder_step (drv s) d \<Longrightarrow> finished d = finished (drv s) \<Longrightarrow>
     \<forall>t. loc (drv s) t = Out \<longrightarrow> loc d t = Out \<Longrightarrow>
     client_step arg junk s (s\<lparr>drv := d\<rparr>)"

definition clients_start :: "clients \<Rightarrow> bool" where
  "clients_start s \<longleftrightarrow> adder_start (drv s) \<and> (\<forall>t. client s t = Begun)"

definition sums_of :: "(nat \<Rightarrow> cint \<times> cint) \<Rightarrow> cint set" where
  "sums_of arg = (\<lambda>t. fst (arg t) + snd (arg t)) ` UNIV"

subsection \<open>What the history of the driver says of a sum\<close>

text \<open>The pair after a call of the history.\<close>

fun pair_after :: "cint \<times> cint \<Rightarrow> nat \<times> call \<times> ret \<Rightarrow> cint \<times> cint" where
  "pair_after p (t, c, r) = (if answer r = - ERESTARTSYS then p else snd (apply_call c p))"

definition last_pair :: "(nat \<times> call \<times> ret) list \<Rightarrow> cint \<times> cint" where
  "last_pair h = foldl pair_after (0, 0) h"

lemma last_pair_append [simp]: "last_pair [] = (0, 0)" "last_pair (h @ [e]) = pair_after (last_pair h) e"
  by (simp_all add: last_pair_def)

lemma apply_call_answers: "answer (fst (apply_call c p)) \<noteq> - ERESTARTSYS"
  by (cases c; cases p) (auto simp: errno_defs)

definition call_result :: "call \<Rightarrow> cint \<times> cint \<Rightarrow> ret \<Rightarrow> bool" where
  "call_result c p r \<longleftrightarrow> r = Ret (- ERESTARTSYS) None \<or> r = fst (apply_call c p)"

lemma pair_history:
  "reach pair_start pair_step a \<Longrightarrow> pair a = last_pair (history a) \<and>
   (\<forall>h t c r h'. history a = h @ (t, c, r) # h' \<longrightarrow> call_result c (last_pair h) r)"
proof (induction rule: reach.induct)
  case (reach_step s s')
  have more: "\<forall>h t c r h'. xs @ [e] = h @ (t, c, r) # h' \<longrightarrow> call_result c (last_pair h) r"
    if "\<forall>h t c r h'. xs = h @ (t, c, r) # h' \<longrightarrow> call_result c (last_pair h) r"
      "call_result (fst (snd e)) (last_pair xs) (snd (snd e))" for xs e
  proof (intro allI impI)
    fix h t c r h'
    assume "xs @ [e] = h @ (t, c, r) # h'"
    then consider "xs = h" "e = (t, c, r)" | y where "xs = h @ (t, c, r) # y"
      by (cases h' rule: rev_cases) auto
    then show "call_result c (last_pair h) r" using that by cases auto
  qed
  from reach_step.hyps(2) show ?case
  proof (cases rule: pair_step.cases)
    case (atomic c r p t)
    then have "answer r \<noteq> - ERESTARTSYS" "snd (apply_call c (pair s)) = p" "r = fst (apply_call c (pair s))"
      using apply_call_answers [of c "pair s"] by simp_all
    then show ?thesis
      unfolding atomic(1) using reach_step.IH more [of "history s" "(t, c, r)"]
      by (simp add: call_result_def)
  next
    case (interrupted t c)
    then show ?thesis
      unfolding interrupted using reach_step.IH more [of "history s" "(t, c, Ret (- ERESTARTSYS) None)"]
      by (simp add: call_result_def)
  qed
qed (simp add: pair_start_def)

text \<open>So for the calls the driver has finished.\<close>

lemma driver_history:
  assumes "reach adder_start adder_step d" "finished d = h @ (t, c, r) # h'"
  shows "call_result c (last_pair h) r"
proof -
  obtain a where "reach pair_start pair_step a" "adder_rel d a" using adder.sim_reach [OF assms(1)] by blast
  then show ?thesis using pair_history [of a] assms(2) by (auto simp: adder_rel_def)
qed

lemma driver_sum_read:
  assumes "reach adder_start adder_step d" "(t, sum_read, r) \<in> set (finished d)"
  shows "r = Ret (- ERESTARTSYS) None \<or> (\<exists>x. r = Ret 4 (Some x))"
proof -
  obtain h h' where "finished d = h @ (t, sum_read, r) # h'" using assms(2) by (meson split_list)
  from driver_history [OF assms(1) this] show ?thesis
    by (cases "last_pair h") (auto simp: call_result_def sum_read_def)
qed

subsection \<open>The clients' invariant\<close>

fun call_at :: "pc \<Rightarrow> call option" where
  "call_at Out = None"
| "call_at (Waits c) = Some c"
| "call_at (In c) = Some c"
| "call_at (Mid c x) = Some c"
| "call_at (Summed c x) = Some c"
| "call_at (Served c r) = Some c"

lemma call_at_None [simp]: "call_at q = None \<longleftrightarrow> q = Out"
  by (cases q) simp_all

lemma quiet_step:
  assumes "adder_step d d'" "finished d' = finished d" "\<forall>t. loc d t = Out \<longrightarrow> loc d' t = Out"
  shows "call_at (loc d' t) = call_at (loc d t)"
  using assms by (cases rule: adder_step.cases) (auto split: if_splits)

lemma ending_step:
  assumes "adder_step d d'" "finished d' = finished d @ [(t, c, r)]"
  shows "call_at (loc d t) = Some c \<and> loc d' = (loc d)(t := Out)"
  using assms by (cases rule: adder_step.cases) auto

definition no_sum :: "(nat \<times> call \<times> ret) list \<Rightarrow> nat \<Rightarrow> bool" where
  "no_sum fin t \<longleftrightarrow> (\<forall>r. (t, sum_read, r) \<in> set fin \<longrightarrow> copied r = None)"

definition got_sum :: "(nat \<Rightarrow> cint \<times> cint) \<Rightarrow> (nat \<times> call \<times> ret) list \<Rightarrow> nat \<Rightarrow> cint \<Rightarrow> bool" where
  "got_sum arg fin t x \<longleftrightarrow> (\<exists>h h'. fin = h @ (t, sum_read, Ret 4 (Some x)) # h' \<and>
     (\<forall>r. (t, pair_write (arg t), r) \<notin> set h'))"

fun doing :: "(nat \<Rightarrow> cint \<times> cint) \<Rightarrow> nat \<Rightarrow> client_at \<Rightarrow> call option" where
  "doing arg t Writing = Some (pair_write (arg t))"
| "doing arg t Reading = Some sum_read"
| "doing arg t _ = None"

fun holding :: "client_at \<Rightarrow> cint option" where
  "holding (Closing x) = Some x"
| "holding (Answered x) = Some x"
| "holding _ = None"

definition thread_ok ::
  "(nat \<Rightarrow> cint \<times> cint) \<Rightarrow> (nat \<Rightarrow> cint) \<Rightarrow> adder_state \<Rightarrow> nat \<Rightarrow> client_at \<Rightarrow> bool" where
  "thread_ok arg junk d t q \<longleftrightarrow> call_at (loc d t) = doing arg t q \<and>
     (\<forall>c r. (t, c, r) \<in> set (finished d) \<longrightarrow> c = pair_write (arg t) \<or> c = sum_read) \<and>
     (case holding q of
        None \<Rightarrow> no_sum (finished d) t
      | Some x \<Rightarrow> (x = junk t \<and> no_sum (finished d) t) \<or> got_sum arg (finished d) t x)"

lemma got_sum_more: "got_sum arg fin t x \<Longrightarrow> \<forall>e \<in> set es. fst e \<noteq> t \<Longrightarrow> got_sum arg (fin @ es) t x"
  unfolding got_sum_def
proof (elim exE conjE)
  fix h h'
  assume "\<forall>e \<in> set es. fst e \<noteq> t" "fin = h @ (t, sum_read, Ret 4 (Some x)) # h'"
    "\<forall>r. (t, pair_write (arg t), r) \<notin> set h'"
  then show "\<exists>h h'. fin @ es = h @ (t, sum_read, Ret 4 (Some x)) # h' \<and> (\<forall>r. (t, pair_write (arg t), r) \<notin> set h')"
    by (intro exI [of _ h] exI [of _ "h' @ es"]) force
qed

lemma other_thread:
  assumes "thread_ok arg junk d t q" "call_at (loc d' t) = call_at (loc d t)"
    "finished d' = finished d @ es" "\<forall>e \<in> set es. fst e \<noteq> t"
  shows "thread_ok arg junk d' t q"
proof -
  have "(t, c, r) \<in> set (finished d') \<longleftrightarrow> (t, c, r) \<in> set (finished d)" for c r
    using assms(3,4) by auto
  then show ?thesis using assms got_sum_more [of arg "finished d" t _ es]
    by (auto simp: thread_ok_def no_sum_def split: option.splits)
qed

definition clients_inv :: "(nat \<Rightarrow> cint \<times> cint) \<Rightarrow> (nat \<Rightarrow> cint) \<Rightarrow> clients \<Rightarrow> bool" where
  "clients_inv arg junk s \<longleftrightarrow> reach adder_start adder_step (drv s) \<and> (\<forall>t. thread_ok arg junk (drv s) t (client s t))"

text \<open>A step that changes one thread keeps the invariant when that thread is well afterwards.\<close>

lemma clients_inv_step:
  assumes "clients_inv arg junk s" "adder_step (drv s) d \<or> d = drv s"
    "\<forall>u. u \<noteq> t \<longrightarrow> call_at (loc d u) = call_at (loc (drv s) u)"
    "finished d = finished (drv s) @ es" "\<forall>e \<in> set es. fst e = t"
    "thread_ok arg junk d t q"
  shows "clients_inv arg junk (s\<lparr>drv := d, client := (client s)(t := q)\<rparr>)"
proof -
  have "reach adder_start adder_step d" using assms(1,2) reach_step by (auto simp: clients_inv_def)
  moreover have "thread_ok arg junk d u (client s u)" if "u \<noteq> t" for u
    using assms(1,3,4,5) that by (intro other_thread [of arg junk "drv s" u _ d es]) (auto simp: clients_inv_def)
  ultimately show ?thesis using assms(6) by (simp add: clients_inv_def)
qed

text \<open>A thread that moves outside the driver.\<close>

lemma client_alone:
  assumes "clients_inv arg junk s" "doing arg t (client s t) = None" "doing arg t q = None"
    "holding q = holding (client s t) \<or> (holding (client s t) = None \<and> holding q = Some (junk t))"
  shows "clients_inv arg junk (s\<lparr>client := (client s)(t := q)\<rparr>)"
proof -
  have "thread_ok arg junk (drv s) t (client s t)" using assms(1) by (simp add: clients_inv_def)
  then have "thread_ok arg junk (drv s) t q" using assms(2-4) by (auto simp: thread_ok_def)
  then show ?thesis using clients_inv_step [OF assms(1), of "drv s" t "[]" q] by simp
qed

text \<open>A thread that enters the driver.\<close>

lemma client_enters:
  assumes "clients_inv arg junk s" "adder_step (drv s) d" "d = (drv s)\<lparr>loc := (loc (drv s))(t := Waits c)\<rparr>"
    "doing arg t q = Some c" "holding q = None" "holding (client s t) = None"
  shows "clients_inv arg junk (s\<lparr>drv := d, client := (client s)(t := q)\<rparr>)"
proof -
  have "thread_ok arg junk (drv s) t (client s t)" using assms(1) by (simp add: clients_inv_def)
  then have "thread_ok arg junk d t q" using assms(3-6) by (simp add: thread_ok_def)
  then show ?thesis using assms(2,3) by (intro clients_inv_step [OF assms(1), where es = "[]"]) auto
qed

text \<open>A thread whose call returns.\<close>

lemma pair_write_not_read [simp]: "pair_write p \<noteq> sum_read" "sum_read \<noteq> pair_write p"
  by (simp_all add: pair_write_def sum_read_def)

lemma client_ends:
  assumes inv: "clients_inv arg junk s" and pos: "client s t = Writing \<or> client s t = Reading"
    and step: "adder_step (drv s) d" "finished d = finished (drv s) @ [(t, c, r)]"
    and q: "doing arg t q = None"
      "client s t = Writing \<Longrightarrow> holding q = None"
      "client s t = Reading \<Longrightarrow> holding q = Some (result_of r (junk t)) \<or> (answer r = - ERESTARTSYS \<and> holding q = None)"
  shows "clients_inv arg junk (s\<lparr>drv := d, client := (client s)(t := q)\<rparr>)"
proof -
  have ended: "call_at (loc (drv s) t) = Some c" "loc d = (loc (drv s))(t := Out)" using ending_step [OF step] by auto
  have ok: "thread_ok arg junk (drv s) t (client s t)" and before: "reach adder_start adder_step (drv s)"
    using inv by (simp_all add: clients_inv_def)
  have d: "reach adder_start adder_step d" by (rule reach_step [OF before step(1)])
  have old: "no_sum (finished (drv s)) t" using pos ok by (elim disjE) (simp_all add: thread_ok_def)
  have "thread_ok arg junk d t q"
  proof (cases "client s t")
    case Writing
    then have "c = pair_write (arg t)" using ok ended(1) by (simp add: thread_ok_def)
    moreover from this have "no_sum (finished d) t" using old step(2) by (auto simp: no_sum_def)
    ultimately show ?thesis using ok ended step(2) q(1) q(2) [OF Writing] by (auto simp: thread_ok_def)
  next
    case Reading
    then have c: "c = sum_read" using ok ended(1) by (simp add: thread_ok_def)
    have "r = Ret (- ERESTARTSYS) None \<or> (\<exists>x. r = Ret 4 (Some x))"
      using driver_sum_read [OF d, of t r] step(2) c by simp
    then show ?thesis
    proof (elim disjE exE)
      assume r: "r = Ret (- ERESTARTSYS) None"
      then have "no_sum (finished d) t" using old step(2) by (auto simp: no_sum_def)
      then show ?thesis using ok ended step(2) c q(1) q(3) [OF Reading] r
        by (auto simp: thread_ok_def result_of_def)
    next
      fix x assume r: "r = Ret 4 (Some x)"
      then have "holding q = Some x" using q(3) [OF Reading] by (auto simp: result_of_def errno_defs)
      moreover have "got_sum arg (finished d) t x" using step(2) c r unfolding got_sum_def
        by (intro exI [of _ "finished (drv s)"] exI [of _ "[]"]) simp
      ultimately show ?thesis using ok ended step(2) c q(1) by (auto simp: thread_ok_def)
    qed
  qed (use pos in auto)
  then show ?thesis using step ended(2) by (intro clients_inv_step [OF inv, where es = "[(t, c, r)]"]) auto
qed

interpretation any_clients: step_system clients_start "client_step arg junk" "clients_inv arg junk" for arg junk
proof unfold_locales
  show "clients_inv arg junk s" if "clients_start s" for s
    using that reach_start [of adder_start]
    by (auto simp: clients_inv_def clients_start_def thread_ok_def no_sum_def adder_start_def)
  show "clients_inv arg junk s'" if inv: "clients_inv arg junk s" and "client_step arg junk s s'" for s s'
    using that(2)
  proof (cases rule: client_step.cases)
    case (client_open t ok)
    then show ?thesis using client_alone [OF inv, of t "Opened ok"] by simp
  next
    case (client_no_write t)
    then show ?thesis using client_alone [OF inv, of t "Written False"] by simp
  next
    case (client_write t d)
    then show ?thesis using client_enters [OF inv client_write(4,3), of Writing] by simp
  next
    case (client_wrote t d c r q)
    then show ?thesis using client_ends [OF inv _ client_wrote(3,4), of q] by auto
  next
    case (client_no_read t)
    then show ?thesis using client_alone [OF inv, of t "Closing (junk t)"] by simp
  next
    case (client_read t d)
    then show ?thesis using client_enters [OF inv client_read(4,3), of Reading] by simp
  next
    case (client_got t d c r q)
    then show ?thesis using client_ends [OF inv _ client_got(3,4), of q] by auto
  next
    case (client_close t x)
    then show ?thesis using client_alone [OF inv, of t "Answered x"] by simp
  next
    case (client_inside d)
    have "reach adder_start adder_step d" using inv client_inside(2) reach_step by (auto simp: clients_inv_def)
    moreover have "thread_ok arg junk d t (client s t)" for t
      using inv client_inside quiet_step [OF client_inside(2,3,4), of t]
      by (intro other_thread [of arg junk "drv s" t _ d "[]"]) (auto simp: clients_inv_def)
    ultimately show ?thesis unfolding client_inside(1) by (simp add: clients_inv_def)
  qed
qed

text \<open>The last pair written is one of the clients', once one has got through.\<close>

lemma last_pair_range:
  assumes "\<forall>(t, c, r) \<in> set h. c = pair_write (arg t) \<or> c = sum_read"
  shows "last_pair h \<in> insert (0, 0) (range arg) \<and>
    ((\<exists>t r. (t, pair_write (arg t), r) \<in> set h \<and> answer r \<noteq> - ERESTARTSYS) \<longrightarrow> last_pair h \<in> range arg)"
  using assms
proof (induction h rule: rev_induct)
  case (snoc e h)
  obtain t c r where e: "e = (t, c, r)" by (cases e) auto
  obtain p q where pq: "last_pair h = (p, q)" by fastforce
  have "snd (apply_call c (last_pair h)) = (if c = sum_read then last_pair h else arg t)"
    using snoc.prems e pq by (auto simp: pair_write_def sum_read_def)
  then show ?case using snoc e by auto
qed simp

lemma sum_in:
  "p \<in> insert (0, 0) (range arg) \<Longrightarrow> fst p + snd p = (0 :: cint) \<or> fst p + snd p \<in> sums_of arg"
  "p \<in> range arg \<Longrightarrow> fst p + snd p \<in> sums_of arg"
  by (auto simp: sums_of_def)

lemma clients_entries:
  "clients_inv arg junk s \<Longrightarrow> \<forall>(t, c, r) \<in> set (finished (drv s)). c = pair_write (arg t) \<or> c = sum_read"
  by (fastforce simp: clients_inv_def thread_ok_def)

lemma client_sum:
  assumes inv: "clients_inv arg junk s" and x: "client s t = Answered x"
  shows "(x = junk t \<and> no_sum (finished (drv s)) t) \<or> x = 0 \<or> x \<in> sums_of arg"
    and "(t, pair_write (arg t), Ret 8 None) \<in> set (finished (drv s)) \<Longrightarrow>
      (x = junk t \<and> no_sum (finished (drv s)) t) \<or> x \<in> sums_of arg"
proof -
  have d: "reach adder_start adder_step (drv s)" and "thread_ok arg junk (drv s) t (Answered x)"
    using inv x by (auto simp: clients_inv_def dest: spec [of _ t])
  then consider "x = junk t" "no_sum (finished (drv s)) t" | "got_sum arg (finished (drv s)) t x"
    by (auto simp: thread_ok_def)
  note kinds = this
  have got: "(x = 0 \<or> x \<in> sums_of arg) \<and>
      ((t, pair_write (arg t), Ret 8 None) \<in> set (finished (drv s)) \<longrightarrow> x \<in> sums_of arg)"
    if g: "got_sum arg (finished (drv s)) t x"
  proof -
    obtain h h' where h: "finished (drv s) = h @ (t, sum_read, Ret 4 (Some x)) # h'"
        "\<forall>r. (t, pair_write (arg t), r) \<notin> set h'"
      using g unfolding got_sum_def by blast
    have xs: "x = fst (last_pair h) + snd (last_pair h)"
      using driver_history [OF d h(1)] by (cases "last_pair h") (auto simp: call_result_def sum_read_def)
    have "\<forall>(t, c, r) \<in> set h. c = pair_write (arg t) \<or> c = sum_read"
      using clients_entries [OF inv] h(1) by auto
    note range = last_pair_range [OF this]
    have "(t, pair_write (arg t), Ret 8 None) \<in> set h"
      if "(t, pair_write (arg t), Ret 8 None) \<in> set (finished (drv s))" using that h by auto
    then show ?thesis using range sum_in [of "last_pair h" arg] xs by (fastforce simp: errno_defs)
  qed
  show "(x = junk t \<and> no_sum (finished (drv s)) t) \<or> x = 0 \<or> x \<in> sums_of arg" using kinds got by cases auto
  show "(x = junk t \<and> no_sum (finished (drv s)) t) \<or> x \<in> sums_of arg"
    if "(t, pair_write (arg t), Ret 8 None) \<in> set (finished (drv s))" using kinds got that by cases auto
qed

subsection \<open>Runs\<close>

text \<open>A call made with no other thread inside, from the entry to the return.\<close>

lemma client_within:
  "adder_step d d' \<Longrightarrow> finished d' = finished d \<Longrightarrow> \<forall>t. loc d t = Out \<longrightarrow> loc d' t = Out \<Longrightarrow>
   client_step arg junk (s\<lparr>drv := d, client := f\<rparr>) (s\<lparr>drv := d', client := f\<rparr>)"
  using client_inside [of "s\<lparr>drv := d, client := f\<rparr>" d' arg junk] by (cases s) simp

lemma client_writes:
  assumes "client s t = Opened True" "sem (adev (drv s)) = 1" "loc (drv s) t = Out"
  shows "(client_step arg junk)\<^sup>*\<^sup>* s (s\<lparr>drv := (drv s)\<lparr>adev := \<lparr>data0 = fst (arg t), data1 = snd (arg t), sem = 1\<rparr>,
      finished := finished (drv s) @ [(t, pair_write (arg t), Ret 8 None)]\<rparr>,
    client := (client s)(t := Written True)\<rparr>)"
proof -
  let ?c = "pair_write (arg t)"
  let ?a = "fst (arg t)"
  let ?b = "snd (arg t)"
  let ?d = "drv s"
  let ?d1 = "?d\<lparr>loc := (loc ?d)(t := Waits ?c)\<rparr>"
  let ?d2 = "?d1\<lparr>adev := (adev ?d)\<lparr>sem := 0\<rparr>, loc := (loc ?d1)(t := In ?c)\<rparr>"
  let ?d3 = "?d2\<lparr>adev := (adev ?d2)\<lparr>data0 := ?a\<rparr>, loc := (loc ?d2)(t := Mid ?c ?a)\<rparr>"
  let ?d4 = "?d3\<lparr>adev := (adev ?d3)\<lparr>data1 := ?b\<rparr>, loc := (loc ?d3)(t := Served ?c (Ret 8 None))\<rparr>"
  let ?d5 = "?d4\<lparr>adev := up (adev ?d4), loc := (loc ?d4)(t := Out), finished := finished ?d4 @ [(t, ?c, Ret 8 None)]\<rparr>"
  let ?s = "\<lambda>d q. s\<lparr>drv := d, client := (client s)(t := q)\<rparr>"
  have c: "?c = CWrite 8 ?a ?b True" by (simp add: pair_write_def)
  have "client_step arg junk s (?s ?d1 Writing)"
    using client_write [of s t ?d1 arg junk] assms enter [of ?d t ?c] by simp
  moreover have "client_step arg junk (?s ?d1 Writing) (?s ?d2 Writing)"
    using assms down [of ?d1 t ?c "(adev ?d)\<lparr>sem := 0\<rparr>"] by (intro client_within) (simp_all add: down_interruptible_def)
  moreover have "client_step arg junk (?s ?d2 Writing) (?s ?d3 Writing)"
    using assms store0 [of ?d2 t 8 ?a ?b True] c by (intro client_within) simp_all
  moreover have "client_step arg junk (?s ?d3 Writing) (?s ?d4 Writing)"
    using assms store1 [of ?d3 t 8 ?a ?b True ?a] c by (intro client_within) simp_all
  moreover have "client_step arg junk (?s ?d4 Writing) (?s ?d5 (Written True))"
    using client_wrote [of "?s ?d4 Writing" t ?d5 ?c "Ret 8 None" "Written True" arg junk]
      leave [of ?d4 t ?c "Ret 8 None"] by simp
  moreover have "loc ?d5 = loc ?d" using assms(3) by (simp add: fun_upd_idem)
  then have "?s ?d5 (Written True) = s\<lparr>drv := (drv s)\<lparr>adev := \<lparr>data0 = ?a, data1 = ?b, sem = 1\<rparr>,
      finished := finished (drv s) @ [(t, ?c, Ret 8 None)]\<rparr>, client := (client s)(t := Written True)\<rparr>"
    by (simp add: up_def)
  ultimately show ?thesis by (metis (no_types, lifting) converse_rtranclp_into_rtranclp rtranclp.rtrancl_refl)
qed

lemma client_reads:
  assumes "client s t = Written True" "sem (adev (drv s)) = 1" "loc (drv s) t = Out"
    and x: "x = data0 (adev (drv s)) + data1 (adev (drv s))"
  shows "(client_step arg junk)\<^sup>*\<^sup>* s (s\<lparr>drv := (drv s)\<lparr>finished := finished (drv s) @ [(t, sum_read, Ret 4 (Some x))]\<rparr>,
    client := (client s)(t := Closing x)\<rparr>)"
proof -
  let ?d = "drv s"
  let ?r = "Ret 4 (Some x)"
  let ?a = "data0 (adev ?d)"
  let ?d1 = "?d\<lparr>loc := (loc ?d)(t := Waits sum_read)\<rparr>"
  let ?d2 = "?d1\<lparr>adev := (adev ?d)\<lparr>sem := 0\<rparr>, loc := (loc ?d1)(t := In sum_read)\<rparr>"
  let ?d3 = "?d2\<lparr>loc := (loc ?d2)(t := Mid sum_read ?a)\<rparr>"
  let ?d4 = "?d3\<lparr>loc := (loc ?d3)(t := Summed sum_read x)\<rparr>"
  let ?d5 = "?d4\<lparr>loc := (loc ?d4)(t := Served sum_read ?r)\<rparr>"
  let ?d6 = "?d5\<lparr>adev := up (adev ?d5), loc := (loc ?d5)(t := Out), finished := finished ?d5 @ [(t, sum_read, ?r)]\<rparr>"
  let ?s = "\<lambda>d q. s\<lparr>drv := d, client := (client s)(t := q)\<rparr>"
  have "client_step arg junk s (?s ?d1 Reading)"
    using client_read [of s t ?d1 arg junk] assms(1,3) enter [of ?d t sum_read] by simp
  moreover have "client_step arg junk (?s ?d1 Reading) (?s ?d2 Reading)"
    using assms(2,3) down [of ?d1 t sum_read "(adev ?d)\<lparr>sem := 0\<rparr>"]
    by (intro client_within) (simp_all add: down_interruptible_def)
  moreover have "client_step arg junk (?s ?d2 Reading) (?s ?d3 Reading)"
    using assms(3) load0 [of ?d2 t 4 True] by (intro client_within) (simp_all add: sum_read_def)
  moreover have "client_step arg junk (?s ?d3 Reading) (?s ?d4 Reading)"
    using assms(3) load1 [of ?d3 t 4 True ?a] x by (intro client_within) (simp_all add: sum_read_def)
  moreover have "client_step arg junk (?s ?d4 Reading) (?s ?d5 Reading)"
    using assms(3) copy_sum [of ?d4 t 4 True x] by (intro client_within) (simp_all add: sum_read_def)
  moreover have "client_step arg junk (?s ?d5 Reading) (?s ?d6 (Closing x))"
    using client_got [of "?s ?d5 Reading" t ?d6 sum_read ?r "Closing x" junk arg]
      leave [of ?d5 t sum_read ?r] by (simp add: result_of_def)
  moreover have "loc ?d6 = loc ?d" using assms(3) by (simp add: fun_upd_idem)
  then have "?s ?d6 (Closing x) = s\<lparr>drv := (drv s)\<lparr>finished := finished (drv s) @ [(t, sum_read, ?r)]\<rparr>,
    client := (client s)(t := Closing x)\<rparr>"
    using assms(2) by (simp add: up_def)
  ultimately show ?thesis by (metis (no_types, lifting) converse_rtranclp_into_rtranclp rtranclp.rtrancl_refl)
qed

lemma reach_steps: "step\<^sup>*\<^sup>* s s' \<Longrightarrow> reach I step s \<Longrightarrow> reach I step s'"
  by (induction rule: rtranclp_induct) (auto intro: reach_step)

definition idle_clients :: clients where
  "idle_clients = \<lparr>drv = \<lparr>adev = \<lparr>data0 = 0, data1 = 0, sem = 1\<rparr>, loc = (\<lambda>_. Out), finished = []\<rparr>,
     client = (\<lambda>_. Begun)\<rparr>"

text \<open>The first thread has written its pair, the second has the file open.\<close>

definition first_wrote :: "(nat \<Rightarrow> cint \<times> cint) \<Rightarrow> nat \<Rightarrow> nat \<Rightarrow> clients" where
  "first_wrote arg t u = \<lparr>drv = \<lparr>adev = \<lparr>data0 = fst (arg t), data1 = snd (arg t), sem = 1\<rparr>, loc = (\<lambda>_. Out),
       finished = [(t, pair_write (arg t), Ret 8 None)]\<rparr>,
     client = (\<lambda>_. Begun)(t := Written True, u := Opened True)\<rparr>"

lemma first_wrote_reachable:
  assumes "t \<noteq> u"
  shows "reach clients_start (client_step arg junk) (first_wrote arg t u)"
proof -
  let ?R = "reach clients_start (client_step arg junk)"
  let ?s1 = "idle_clients\<lparr>client := (client idle_clients)(t := Opened True)\<rparr>"
  let ?s2 = "?s1\<lparr>drv := (drv ?s1)\<lparr>adev := \<lparr>data0 = fst (arg t), data1 = snd (arg t), sem = 1\<rparr>,
      finished := finished (drv ?s1) @ [(t, pair_write (arg t), Ret 8 None)]\<rparr>, client := (client ?s1)(t := Written True)\<rparr>"
  have "?R idle_clients" by (rule reach_start) (simp add: clients_start_def adder_start_def idle_clients_def)
  then have "?R ?s1" by (rule reach_step) (rule client_open, simp add: idle_clients_def)
  then have "?R ?s2"
    by (rule reach_steps [OF client_writes, rotated -1]) (simp_all add: idle_clients_def)
  then have "?R (?s2\<lparr>client := (client ?s2)(u := Opened True)\<rparr>)"
    by (rule reach_step) (rule client_open, use assms in \<open>simp add: idle_clients_def\<close>)
  then show ?thesis by (simp add: first_wrote_def idle_clients_def)
qed

text \<open>The second writes and the first reads.\<close>

lemma overtaken:
  assumes "t \<noteq> u" "x = fst (arg u) + snd (arg u)"
  shows "\<exists>s. reach clients_start (client_step arg junk) s \<and> client s t = Answered x \<and>
    finished (drv s) = [(t, pair_write (arg t), Ret 8 None), (u, pair_write (arg u), Ret 8 None), (t, sum_read, Ret 4 (Some x))]"
proof -
  let ?R = "reach clients_start (client_step arg junk)"
  let ?s2 = "first_wrote arg t u"
  let ?s3 = "?s2\<lparr>drv := (drv ?s2)\<lparr>adev := \<lparr>data0 = fst (arg u), data1 = snd (arg u), sem = 1\<rparr>,
      finished := finished (drv ?s2) @ [(u, pair_write (arg u), Ret 8 None)]\<rparr>, client := (client ?s2)(u := Written True)\<rparr>"
  let ?s4 = "?s3\<lparr>drv := (drv ?s3)\<lparr>finished := finished (drv ?s3) @ [(t, sum_read, Ret 4 (Some x))]\<rparr>,
      client := (client ?s3)(t := Closing x)\<rparr>"
  have "?R ?s2" by (rule first_wrote_reachable [OF assms(1)])
  then have "?R ?s3" by (rule reach_steps [OF client_writes, rotated -1]) (simp_all add: first_wrote_def)
  then have "?R ?s4"
    by (rule reach_steps [OF client_reads, rotated -1]) (use assms in \<open>simp_all add: first_wrote_def\<close>)
  then have "?R (?s4\<lparr>client := (client ?s4)(t := Answered x)\<rparr>)" by (rule reach_step) (rule client_close, simp)
  then show ?thesis by (intro exI conjI) (assumption, simp_all add: first_wrote_def)
qed

text \<open>The second holds the semaphore while the first waits to read, until a signal comes.\<close>

lemma interrupted_reader:
  assumes "t \<noteq> u"
  shows "\<exists>s. reach clients_start (client_step arg junk) s \<and> client s t = Answered (junk t) \<and>
    finished (drv s) = [(t, pair_write (arg t), Ret 8 None), (t, sum_read, Ret (- ERESTARTSYS) None)]"
proof -
  let ?R = "reach clients_start (client_step arg junk)"
  let ?c = "pair_write (arg u)"
  let ?r = "Ret (- ERESTARTSYS) None"
  let ?s2 = "first_wrote arg t u"
  let ?d3 = "(drv ?s2)\<lparr>loc := (loc (drv ?s2))(u := Waits ?c)\<rparr>"
  let ?s3 = "?s2\<lparr>drv := ?d3, client := (client ?s2)(u := Writing)\<rparr>"
  let ?d4 = "?d3\<lparr>adev := (adev ?d3)\<lparr>sem := 0\<rparr>, loc := (loc ?d3)(u := In ?c)\<rparr>"
  let ?s4 = "?s3\<lparr>drv := ?d4\<rparr>"
  let ?d5 = "?d4\<lparr>loc := (loc ?d4)(t := Waits sum_read)\<rparr>"
  let ?s5 = "?s4\<lparr>drv := ?d5, client := (client ?s4)(t := Reading)\<rparr>"
  let ?d6 = "?d5\<lparr>loc := (loc ?d5)(t := Out), finished := finished ?d5 @ [(t, sum_read, ?r)]\<rparr>"
  let ?s6 = "?s5\<lparr>drv := ?d6, client := (client ?s5)(t := Closing (junk t))\<rparr>"
  have "?R ?s2" by (rule first_wrote_reachable [OF assms])
  then have "?R ?s3"
    by (intro reach_step [of _ _ ?s2 ?s3] client_write enter) (use assms in \<open>simp_all add: first_wrote_def\<close>)
  moreover have "adder_step ?d3 ?d4"
    by (rule down) (simp_all add: first_wrote_def down_interruptible_def)
  ultimately have "?R ?s4"
    using assms by (intro reach_step [of _ _ ?s3 ?s4] client_inside) (simp_all add: first_wrote_def)
  moreover have "adder_step ?d4 ?d5" by (rule enter) (use assms in \<open>simp add: first_wrote_def\<close>)
  ultimately have "?R ?s5"
    using assms by (intro reach_step [of _ _ ?s4 ?s5] client_read) (simp_all add: first_wrote_def)
  moreover have "adder_step ?d5 ?d6"
    by (rule signal [where d = "adev ?d5"]) (simp_all add: down_interruptible_def)
  ultimately have "?R ?s6"
    by (intro reach_step [of _ _ ?s5 ?s6] client_got [where c = sum_read and r = ?r]) (simp_all add: result_of_def)
  then have "?R (?s6\<lparr>client := (client ?s6)(t := Answered (junk t))\<rparr>)" by (rule reach_step) (rule client_close, simp)
  then show ?thesis by (intro exI conjI) (assumption, simp_all add: first_wrote_def)
qed

text \<open>
  C23: Several threads add two integers with the device at once.  What a thread answers is its
  uninitialised variable, when none of its reads stored a sum; or the sum of the last pair
  written whole: 0 when nobody's write has got through, or else the sum of some thread's pair,
  never of a mixture of two.  A thread whose own write got through and whose read stored a sum
  answers the sum of some thread's pair.  But it need not be its own, since the write and the
  read are two calls: another thread's write between them gives it that thread's sum; and when a
  signal interrupts its read it answers the uninitialised variable although its pair is in the
  device.
\<close>

lemma adder_client_race:
  "(\<forall>s t x. reach clients_start (client_step arg junk) s \<and> client s t = Answered x \<longrightarrow>
     ((x = junk t \<and> no_sum (finished (drv s)) t) \<or> x = 0 \<or> x \<in> sums_of arg) \<and>
     ((t, pair_write (arg t), Ret 8 None) \<in> set (finished (drv s)) \<and> \<not> no_sum (finished (drv s)) t \<longrightarrow>
        x \<in> sums_of arg)) \<and>
   (t \<noteq> u \<longrightarrow>
     (\<exists>s x. reach clients_start (client_step arg junk) s \<and> client s t = Answered x \<and> x = fst (arg u) + snd (arg u) \<and>
        finished (drv s) = [(t, pair_write (arg t), Ret 8 None), (u, pair_write (arg u), Ret 8 None), (t, sum_read, Ret 4 (Some x))]) \<and>
     (\<exists>s. reach clients_start (client_step arg junk) s \<and> client s t = Answered (junk t) \<and>
        finished (drv s) = [(t, pair_write (arg t), Ret 8 None), (t, sum_read, Ret (- ERESTARTSYS) None)]))"
proof (intro conjI [OF _ impI] allI impI; (elim conjE)?)
  fix s t x
  assume "reach clients_start (client_step arg junk) s" and x: "client s t = Answered x"
  note inv = any_clients.inv_reach [OF this(1)]
  show "(x = junk t \<and> no_sum (finished (drv s)) t) \<or> x = 0 \<or> x \<in> sums_of arg" by (rule client_sum(1) [OF inv x])
  assume "(t, pair_write (arg t), Ret 8 None) \<in> set (finished (drv s))" "\<not> no_sum (finished (drv s)) t"
  then show "x \<in> sums_of arg" using client_sum(2) [OF inv x] by blast
next
  assume tu: "t \<noteq> u"
  show "(\<exists>s x. reach clients_start (client_step arg junk) s \<and> client s t = Answered x \<and> x = fst (arg u) + snd (arg u) \<and>
        finished (drv s) = [(t, pair_write (arg t), Ret 8 None), (u, pair_write (arg u), Ret 8 None), (t, sum_read, Ret 4 (Some x))]) \<and>
     (\<exists>s. reach clients_start (client_step arg junk) s \<and> client s t = Answered (junk t) \<and>
        finished (drv s) = [(t, pair_write (arg t), Ret 8 None), (t, sum_read, Ret (- ERESTARTSYS) None)])"
    using overtaken [OF tu refl] interrupted_reader [OF tu] by blast
qed

lemma adder_client_race_witness:
  "let arg = (\<lambda>t. if t = 0 then (1, 1) else (20, 22))
   in \<exists>s. reach clients_start (client_step arg (\<lambda>_. 7)) s \<and> client s 0 = Answered 42"
  using conjunct2 [OF adder_client_race [where arg = "\<lambda>t. if t = 0 then (1, 1) else (20, 22)" and t = 0 and u = 1
        and junk = "\<lambda>_. 7"]]
  by (auto simp: Let_def)

end
