(* ===== verification/Hal.thy ===== *)
theory Hal
  imports Prelude
begin

text \<open>
  The processes that load the hardware modules of \<open>mokoid-stub\<close>: the system calls they make,
  the trace of them, and what a null pointer does.  As in \<open>Machine\<close> the rest of the world is
  a type \<open>'w\<close> nothing is known about, and the answers of the calls are arguments.

  A function that can dereference a null or stale pointer has an optional result; \<open>None\<close> means
  that the process has been killed, and nothing after it happens.
\<close>

datatype hevent =
    HOpen string int                 \<comment> \<open>path, descriptor or a negative number\<close>
  | HClose int
  | HDup int int
  | HIoctl int nat int               \<comment> \<open>descriptor, request, the argument or what it points to\<close>
  | HWrite int string
  | HRead int nat
  | HPoll int
  | HSleep nat                       \<comment> \<open>microseconds\<close>

record 'w hal_platform =
  ho_open :: "string \<Rightarrow> 'w \<Rightarrow> int \<times> 'w"
  ho_dup :: "int \<Rightarrow> 'w \<Rightarrow> int \<times> 'w"
  ho_ioctl :: "int \<Rightarrow> nat \<Rightarrow> int \<Rightarrow> 'w \<Rightarrow> int \<times> 'w"
  ho_write :: "int \<Rightarrow> string \<Rightarrow> 'w \<Rightarrow> int \<times> 'w"
  ho_read :: "int \<Rightarrow> nat \<Rightarrow> 'w \<Rightarrow> (int \<times> 8 word list) \<times> 'w"
  ho_poll :: "int \<Rightarrow> 'w \<Rightarrow> int \<times> 'w"
  ho_malloc :: "'w \<Rightarrow> bool \<times> 'w"

record 'w proc =
  pworld :: 'w
  ptrace :: "hevent list"

section \<open>System calls\<close>

definition pcall :: "('a \<Rightarrow> hevent) \<Rightarrow> ('w \<Rightarrow> 'a \<times> 'w) \<Rightarrow> (('w, 'z) proc_scheme, 'a) state" where
  "pcall ev f = State (\<lambda>s. (fst (f (pworld s)),
     s\<lparr>pworld := snd (f (pworld s)), ptrace := ptrace s @ [ev (fst (f (pworld s)))]\<rparr>))"

definition pemit :: "hevent \<Rightarrow> (('w, 'z) proc_scheme, unit) state" where
  "pemit e = State (\<lambda>s. ((), s\<lparr>ptrace := ptrace s @ [e]\<rparr>))"

definition preads :: "('s \<Rightarrow> 'a) \<Rightarrow> ('s, 'a) state" where
  "preads f = State (\<lambda>s. (f s, s))"

definition pset :: "('s \<Rightarrow> 's) \<Rightarrow> ('s, unit) state" where
  "pset f = State (\<lambda>s. ((), f s))"

definition h_open :: "'w hal_platform \<Rightarrow> string \<Rightarrow> (('w, 'z) proc_scheme, int) state" where
  "h_open P path = pcall (HOpen path) (ho_open P path)"

definition h_dup :: "'w hal_platform \<Rightarrow> int \<Rightarrow> (('w, 'z) proc_scheme, int) state" where
  "h_dup P fd = pcall (HDup fd) (ho_dup P fd)"

definition h_ioctl :: "'w hal_platform \<Rightarrow> int \<Rightarrow> nat \<Rightarrow> int \<Rightarrow> (('w, 'z) proc_scheme, int) state" where
  "h_ioctl P fd req arg = pcall (\<lambda>_. HIoctl fd req arg) (ho_ioctl P fd req arg)"

definition h_write :: "'w hal_platform \<Rightarrow> int \<Rightarrow> string \<Rightarrow> (('w, 'z) proc_scheme, int) state" where
  "h_write P fd bytes = pcall (\<lambda>_. HWrite fd bytes) (ho_write P fd bytes)"

definition h_read :: "'w hal_platform \<Rightarrow> int \<Rightarrow> nat \<Rightarrow> (('w, 'z) proc_scheme, int \<times> 8 word list) state" where
  "h_read P fd n = pcall (\<lambda>_. HRead fd n) (ho_read P fd n)"

definition h_poll :: "'w hal_platform \<Rightarrow> int \<Rightarrow> (('w, 'z) proc_scheme, int) state" where
  "h_poll P fd = pcall (\<lambda>_. HPoll fd) (ho_poll P fd)"

definition h_malloc :: "'w hal_platform \<Rightarrow> (('w, 'z) proc_scheme, bool) state" where
  "h_malloc P = State (\<lambda>s. (fst (ho_malloc P (pworld s)), s\<lparr>pworld := snd (ho_malloc P (pworld s))\<rparr>))"

lemma run_pemit [simp]: "run_state (pemit e) s = ((), s\<lparr>ptrace := ptrace s @ [e]\<rparr>)"
  by (simp add: pemit_def)

lemma run_preads [simp]: "run_state (preads f) s = (f s, s)"
  by (simp add: preads_def)

lemma run_pset [simp]: "run_state (pset f) s = ((), f s)"
  by (simp add: pset_def)

lemmas h_defs = h_open_def h_dup_def h_ioctl_def h_write_def h_read_def h_poll_def h_malloc_def pcall_def

text \<open>Going on with what a pointer points to; a null or stale pointer kills the process.\<close>

definition deref :: "'a option \<Rightarrow> ('a \<Rightarrow> ('s, 'b option) state) \<Rightarrow> ('s, 'b option) state" where
  "deref p k = (case p of None \<Rightarrow> State_Monad.return None | Some x \<Rightarrow> k x)"

lemma deref_simps [simp]: "deref None k = State_Monad.return None" "deref (Some x) k = k x"
  by (simp_all add: deref_def)

lemma end_deref_return [simp]: "end_of (deref r (\<lambda>_. State_Monad.return x)) s = s"
  by (cases r) simp_all

text \<open>Heap objects: the address is the position, a freed object is \<open>None\<close>.\<close>

definition heap_get :: "'a option list \<Rightarrow> nat \<Rightarrow> 'a option" where
  "heap_get h p = (if p < length h then h ! p else None)"

definition live_objects :: "'a option list \<Rightarrow> nat" where
  "live_objects h = length (filter (\<lambda>x. x \<noteq> None) h)"

lemma heap_get_last [simp]: "heap_get (h @ [x]) (length h) = x"
  by (simp add: heap_get_def)

lemma heap_get_append: "p < length h \<Longrightarrow> heap_get (h @ [x]) p = heap_get h p"
  by (simp add: heap_get_def nth_append)

lemma live_objects_append [simp]: "live_objects (h @ [Some x]) = Suc (live_objects h)"
  by (simp add: live_objects_def)

section \<open>Descriptors a trace has opened and not closed\<close>

fun fd_delta :: "hevent \<Rightarrow> int" where
  "fd_delta (HOpen path fd) = (if 0 \<le> fd then 1 else 0)"
| "fd_delta (HDup fd fd') = (if 0 \<le> fd' then 1 else 0)"
| "fd_delta (HClose fd) = (if 0 \<le> fd then - 1 else 0)"
| "fd_delta _ = 0"

definition fds_held :: "hevent list \<Rightarrow> int" where
  "fds_held es = sum_list (map fd_delta es)"

lemma fds_held_simps [simp]:
  "fds_held [] = 0" "fds_held (e # es) = fd_delta e + fds_held es"
  "fds_held (es @ fs) = fds_held es + fds_held fs"
  by (simp_all add: fds_held_def)

end
