(* ===== verification/LedHal.thy ===== *)
theory LedHal
  imports Hal
begin

text \<open>
  The LED hardware modules: the types of \<open>hardware/modules/include/mokoid/led.h\<close> and the
  three implementations in \<open>hardware/modules/led\<close> (\<open>led.cpp\<close>, \<open>led.omap3.c\<close>,
  \<open>led.dma6410xp.c\<close>), which are built one at a time into the library that
  \<open>hw_get_module\<close> loads.  A function pointer is the name of a function, with the board whose
  file defines it.
\<close>

datatype board = Cdata_Board | Omap3_Board | Dma6410xp_Board

datatype led_fn =
    Fn_led_on board | Fn_led_off board
  | Fn_led_device_open board | Fn_led_device_close board

record hw_module_t =
  m_tag :: string
  version_major :: nat
  version_minor :: nat
  m_id :: string
  m_name :: string
  m_author :: string
  m_open :: "led_fn option"            \<comment> \<open>\<open>methods->open\<close>\<close>
  m_init_led :: "led_fn option"        \<comment> \<open>of \<open>led_module_t\<close>\<close>

record led_control_device_t =
  d_tag :: string
  d_version :: nat
  d_module :: "hw_module_t option"
  d_close :: "led_fn option"
  d_fd :: int
  d_set_on :: "led_fn option"
  d_set_off :: "led_fn option"
  d_set_name :: "led_fn option"

text \<open>The structure after \<open>memset(dev, 0, sizeof( *dev))\<close>.\<close>

definition zero_led_device :: led_control_device_t where
  "zero_led_device = \<lparr>d_tag = '''', d_version = 0, d_module = None, d_close = None, d_fd = 0,
     d_set_on = None, d_set_off = None, d_set_name = None\<rparr>"

definition LED_HARDWARE_MODULE_ID :: string where
  "LED_HARDWARE_MODULE_ID = ''led''"

text \<open>A process with LED devices in its heap and the global pointer \<open>sLedDevice\<close>.\<close>

record 'w led_proc = "'w proc" +
  leds :: "led_control_device_t option list"
  sLedDevice :: "nat option"

section \<open>The functions of the modules\<close>

definition led_device_at :: "nat \<Rightarrow> ('w led_proc, led_control_device_t option) state" where
  "led_device_at dev = preads (\<lambda>s. heap_get (leds s) dev)"

definition led_on_cdata :: "'w hal_platform \<Rightarrow> nat \<Rightarrow> cint \<Rightarrow> ('w led_proc, cint option) state" where
  "led_on_cdata P dev led = do {
     d \<leftarrow> led_device_at dev;
     deref d (\<lambda>d. do {
       _ \<leftarrow> h_ioctl P (d_fd d) 0 0;
       pemit (HSleep 30000000);
       State_Monad.return (Some 0) }) }"

definition led_off_cdata :: "'w hal_platform \<Rightarrow> nat \<Rightarrow> cint \<Rightarrow> ('w led_proc, cint option) state" where
  "led_off_cdata P dev led = do {
     d \<leftarrow> led_device_at dev;
     deref d (\<lambda>d. do {
       _ \<leftarrow> h_ioctl P (d_fd d) 0 0;
       pemit (HSleep 30000000);
       State_Monad.return (Some 0) }) }"

definition led_on_omap3 :: "'w hal_platform \<Rightarrow> nat \<Rightarrow> cint \<Rightarrow> ('w led_proc, cint option) state" where
  "led_on_omap3 P dev led = do {
     d \<leftarrow> led_device_at dev;
     deref d (\<lambda>d. do {
       _ \<leftarrow> h_write P (d_fd d) ''1'';
       State_Monad.return (Some 0) }) }"

definition led_off_omap3 :: "'w hal_platform \<Rightarrow> nat \<Rightarrow> cint \<Rightarrow> ('w led_proc, cint option) state" where
  "led_off_omap3 P dev led = do {
     d \<leftarrow> led_device_at dev;
     deref d (\<lambda>d. do {
       _ \<leftarrow> h_write P (d_fd d) ''0'';
       State_Monad.return (Some 0) }) }"

definition LED_C608 :: cint where "LED_C608 = 1"
definition LED_C609 :: cint where "LED_C609 = 2"

text \<open>The request passes the address of \<open>led\<close>; the event shows the value there.\<close>

definition led_on_dma6410xp :: "'w hal_platform \<Rightarrow> nat \<Rightarrow> cint \<Rightarrow> ('w led_proc, cint option) state" where
  "led_on_dma6410xp P dev led = do {
     d \<leftarrow> led_device_at dev;
     deref d (\<lambda>d.
       if led = LED_C608 then do {
         _ \<leftarrow> h_ioctl P (d_fd d) 1 (sint led);
         State_Monad.return (Some 0) }
       else if led = LED_C609 then do {
         _ \<leftarrow> h_ioctl P (d_fd d) 1 (sint led);
         State_Monad.return (Some 0) }
       else State_Monad.return (Some (- 1))) }"

definition led_off_dma6410xp :: "'w hal_platform \<Rightarrow> nat \<Rightarrow> cint \<Rightarrow> ('w led_proc, cint option) state" where
  "led_off_dma6410xp P dev led = do {
     d \<leftarrow> led_device_at dev;
     deref d (\<lambda>d.
       if led = LED_C608 then do {
         _ \<leftarrow> h_ioctl P (d_fd d) 2 (sint led);
         State_Monad.return (Some 0) }
       else if led = LED_C609 then do {
         _ \<leftarrow> h_ioctl P (d_fd d) 2 (sint led);
         State_Monad.return (Some 0) }
       else State_Monad.return (Some (- 1))) }"

text \<open>
  \<open>*device\<close> is the global pointer of the caller, \<open>sLedDevice\<close>.  A failing \<open>malloc\<close> is
  not looked at: \<open>memset\<close> then writes through a null pointer.
\<close>

definition led_device_open_cdata ::
  "'w hal_platform \<Rightarrow> hw_module_t \<Rightarrow> string \<Rightarrow> ('w led_proc, cint option) state" where
  "led_device_open_cdata P hw name = do {
     ok \<leftarrow> h_malloc P;
     if \<not> ok then State_Monad.return None
     else do {
       dev \<leftarrow> preads (\<lambda>s. length (leds s));
       let d = zero_led_device\<lparr>d_tag := ''HARDWARE_DEVICE_TAG'', d_version := 0, d_module := Some hw,
                 d_close := Some (Fn_led_device_close Cdata_Board),
                 d_set_on := Some (Fn_led_on Cdata_Board), d_set_off := Some (Fn_led_off Cdata_Board)\<rparr>;
       pset (\<lambda>s. s\<lparr>leds := leds s @ [Some d], sLedDevice := Some dev\<rparr>);
       fd \<leftarrow> h_open P ''/dev/cdata-test'';
       pset (\<lambda>s. s\<lparr>leds := (leds s)[dev := Some (d\<lparr>d_fd := fd\<rparr>)]\<rparr>);
       State_Monad.return (Some 0) }}"

definition led_device_open_omap3 ::
  "'w hal_platform \<Rightarrow> hw_module_t \<Rightarrow> string \<Rightarrow> ('w led_proc, cint option) state" where
  "led_device_open_omap3 P hw name = do {
     ok \<leftarrow> h_malloc P;
     if \<not> ok then State_Monad.return None
     else do {
       dev \<leftarrow> preads (\<lambda>s. length (leds s));
       let d = zero_led_device\<lparr>d_tag := ''HARDWARE_DEVICE_TAG'', d_version := 0, d_module := Some hw,
                 d_close := Some (Fn_led_device_close Omap3_Board),
                 d_set_on := Some (Fn_led_on Omap3_Board), d_set_off := Some (Fn_led_off Omap3_Board)\<rparr>;
       pset (\<lambda>s. s\<lparr>leds := leds s @ [Some d], sLedDevice := Some dev\<rparr>);
       fd \<leftarrow> h_open P ''/sys/class/leds/led3/brightness'';
       pset (\<lambda>s. s\<lparr>leds := (leds s)[dev := Some (d\<lparr>d_fd := fd\<rparr>)]\<rparr>);
       State_Monad.return (Some 0) }}"

definition led_device_open_dma6410xp ::
  "'w hal_platform \<Rightarrow> hw_module_t \<Rightarrow> string \<Rightarrow> ('w led_proc, cint option) state" where
  "led_device_open_dma6410xp P hw name = do {
     ok \<leftarrow> h_malloc P;
     if \<not> ok then State_Monad.return None
     else do {
       dev \<leftarrow> preads (\<lambda>s. length (leds s));
       let d = zero_led_device\<lparr>d_tag := ''HARDWARE_DEVICE_TAG'', d_version := 0, d_module := Some hw,
                 d_close := Some (Fn_led_device_close Dma6410xp_Board),
                 d_set_on := Some (Fn_led_on Dma6410xp_Board), d_set_off := Some (Fn_led_off Dma6410xp_Board)\<rparr>;
       pset (\<lambda>s. s\<lparr>leds := leds s @ [Some d]\<rparr>);
       fd \<leftarrow> h_open P ''/dev/led'';
       pset (\<lambda>s. s\<lparr>leds := (leds s)[dev := Some (d\<lparr>d_fd := fd\<rparr>)], sLedDevice := Some dev\<rparr>);
       State_Monad.return (Some 0) }}"

definition led_device_close_cdata :: "nat \<Rightarrow> ('w led_proc, cint option) state" where
  "led_device_close_cdata dev = State_Monad.return (Some 0)"

definition led_device_close_omap3 :: "nat \<Rightarrow> ('w led_proc, cint option) state" where
  "led_device_close_omap3 dev = State_Monad.return (Some 0)"

definition led_device_close_dma6410xp :: "nat \<Rightarrow> ('w led_proc, cint option) state" where
  "led_device_close_dma6410xp dev = State_Monad.return (Some 0)"

lemmas led_fn_defs =
  led_on_cdata_def led_off_cdata_def led_on_omap3_def led_off_omap3_def
  led_on_dma6410xp_def led_off_dma6410xp_def
  led_device_open_cdata_def led_device_open_omap3_def led_device_open_dma6410xp_def
  led_device_close_cdata_def led_device_close_omap3_def led_device_close_dma6410xp_def

definition HAL_MODULE_INFO_SYM_cdata :: hw_module_t where
  "HAL_MODULE_INFO_SYM_cdata = \<lparr>m_tag = ''HARDWARE_MODULE_TAG'', version_major = 1, version_minor = 0,
     m_id = LED_HARDWARE_MODULE_ID, m_name = ''Sample LED Stub'', m_author = ''The Mokoid Open Source Project'',
     m_open = Some (Fn_led_device_open Cdata_Board), m_init_led = None\<rparr>"

definition HAL_MODULE_INFO_SYM_omap3 :: hw_module_t where
  "HAL_MODULE_INFO_SYM_omap3 = \<lparr>m_tag = ''HARDWARE_MODULE_TAG'', version_major = 1, version_minor = 0,
     m_id = LED_HARDWARE_MODULE_ID, m_name = ''Sample LED Stub'', m_author = ''The Mokoid Open Source Project'',
     m_open = Some (Fn_led_device_open Omap3_Board), m_init_led = None\<rparr>"

definition HAL_MODULE_INFO_SYM_dma6410xp :: hw_module_t where
  "HAL_MODULE_INFO_SYM_dma6410xp = \<lparr>m_tag = ''HARDWARE_MODULE_TAG'', version_major = 1, version_minor = 0,
     m_id = LED_HARDWARE_MODULE_ID, m_name = ''Sample LED Stub'', m_author = ''The Mokoid Open Source Project'',
     m_open = Some (Fn_led_device_open Dma6410xp_Board), m_init_led = None\<rparr>"

fun HAL_MODULE_INFO_SYM :: "board \<Rightarrow> hw_module_t" where
  "HAL_MODULE_INFO_SYM Cdata_Board = HAL_MODULE_INFO_SYM_cdata"
| "HAL_MODULE_INFO_SYM Omap3_Board = HAL_MODULE_INFO_SYM_omap3"
| "HAL_MODULE_INFO_SYM Dma6410xp_Board = HAL_MODULE_INFO_SYM_dma6410xp"

lemmas module_info_defs =
  HAL_MODULE_INFO_SYM_cdata_def HAL_MODULE_INFO_SYM_omap3_def HAL_MODULE_INFO_SYM_dma6410xp_def

section \<open>Calls through pointers\<close>

fun call_led_fn :: "'w hal_platform \<Rightarrow> led_fn \<Rightarrow> nat \<Rightarrow> cint \<Rightarrow> ('w led_proc, cint option) state" where
  "call_led_fn P (Fn_led_on Cdata_Board) dev led = led_on_cdata P dev led"
| "call_led_fn P (Fn_led_on Omap3_Board) dev led = led_on_omap3 P dev led"
| "call_led_fn P (Fn_led_on Dma6410xp_Board) dev led = led_on_dma6410xp P dev led"
| "call_led_fn P (Fn_led_off Cdata_Board) dev led = led_off_cdata P dev led"
| "call_led_fn P (Fn_led_off Omap3_Board) dev led = led_off_omap3 P dev led"
| "call_led_fn P (Fn_led_off Dma6410xp_Board) dev led = led_off_dma6410xp P dev led"
| "call_led_fn P (Fn_led_device_close Cdata_Board) dev led = led_device_close_cdata dev"
| "call_led_fn P (Fn_led_device_close Omap3_Board) dev led = led_device_close_omap3 dev"
| "call_led_fn P (Fn_led_device_close Dma6410xp_Board) dev led = led_device_close_dma6410xp dev"
| "call_led_fn P (Fn_led_device_open b) dev led = State_Monad.return None"

text \<open>\<open>dev->set_on(dev, led)\<close> and \<open>dev->set_off(dev, led)\<close>.\<close>

definition set_on :: "'w hal_platform \<Rightarrow> nat \<Rightarrow> cint \<Rightarrow> ('w led_proc, cint option) state" where
  "set_on P dev led = do {
     d \<leftarrow> led_device_at dev;
     deref d (\<lambda>d. deref (d_set_on d) (\<lambda>f. call_led_fn P f dev led)) }"

definition set_off :: "'w hal_platform \<Rightarrow> nat \<Rightarrow> cint \<Rightarrow> ('w led_proc, cint option) state" where
  "set_off P dev led = do {
     d \<leftarrow> led_device_at dev;
     deref d (\<lambda>d. deref (d_set_off d) (\<lambda>f. call_led_fn P f dev led)) }"

definition close_device :: "'w hal_platform \<Rightarrow> nat \<Rightarrow> ('w led_proc, cint option) state" where
  "close_device P dev = do {
     d \<leftarrow> led_device_at dev;
     deref d (\<lambda>d. deref (d_close d) (\<lambda>f. call_led_fn P f dev 0)) }"

fun call_open :: "'w hal_platform \<Rightarrow> led_fn \<Rightarrow> hw_module_t \<Rightarrow> string \<Rightarrow> ('w led_proc, cint option) state" where
  "call_open P (Fn_led_device_open Cdata_Board) hw name = led_device_open_cdata P hw name"
| "call_open P (Fn_led_device_open Omap3_Board) hw name = led_device_open_omap3 P hw name"
| "call_open P (Fn_led_device_open Dma6410xp_Board) hw name = led_device_open_dma6410xp P hw name"
| "call_open P _ hw name = State_Monad.return None"

definition led_control_open :: "'w hal_platform \<Rightarrow> hw_module_t \<Rightarrow> ('w led_proc, cint option) state" where
  "led_control_open P hw = deref (m_open hw) (\<lambda>f. call_open P f hw LED_HARDWARE_MODULE_ID)"

section \<open>Well-formed processes\<close>

text \<open>
  A device as a module hands it out: the functions of one board, no \<open>set_name\<close>.  In a
  well-formed process every device is of that kind and the global pointer leads to one.
\<close>

definition made_by :: "board \<Rightarrow> led_control_device_t \<Rightarrow> bool" where
  "made_by b d \<longleftrightarrow> d_tag d = ''HARDWARE_DEVICE_TAG'' \<and> d_version d = 0 \<and>
     d_module d = Some (HAL_MODULE_INFO_SYM b) \<and> d_close d = Some (Fn_led_device_close b) \<and>
     d_set_on d = Some (Fn_led_on b) \<and> d_set_off d = Some (Fn_led_off b) \<and> d_set_name d = None"

definition wf_leds :: "'w led_proc \<Rightarrow> bool" where
  "wf_leds s \<longleftrightarrow> (\<forall>d. Some d \<in> set (leds s) \<longrightarrow> (\<exists>b. made_by b d)) \<and>
     (\<forall>p. sLedDevice s = Some p \<longrightarrow> heap_get (leds s) p \<noteq> None)"

lemma heap_get_Some: "heap_get h p = Some x \<Longrightarrow> p < length h \<and> h ! p = Some x \<and> Some x \<in> set h"
  by (auto simp: heap_get_def in_set_conv_nth split: if_splits)

lemma wf_ledsD: "wf_leds s \<Longrightarrow> heap_get (leds s) p = Some d \<Longrightarrow> \<exists>b. made_by b d"
  by (auto simp: wf_leds_def dest: heap_get_Some)

lemma wf_leds_device: "wf_leds s \<Longrightarrow> sLedDevice s = Some p \<Longrightarrow> \<exists>b d. heap_get (leds s) p = Some d \<and> made_by b d"
  unfolding wf_leds_def by (metis heap_get_Some option.exhaust)

text \<open>What switching does on each board: the requests, the answer.\<close>

fun switch_events :: "board \<Rightarrow> int \<Rightarrow> bool \<Rightarrow> cint \<Rightarrow> hevent list" where
  "switch_events Cdata_Board fd on led = [HIoctl fd 0 0, HSleep 30000000]"
| "switch_events Omap3_Board fd on led = [HWrite fd (if on then ''1'' else ''0'')]"
| "switch_events Dma6410xp_Board fd on led =
     (if led = LED_C608 \<or> led = LED_C609 then [HIoctl fd (if on then 1 else 2) (sint led)] else [])"

fun switch_answer :: "board \<Rightarrow> cint \<Rightarrow> cint" where
  "switch_answer Dma6410xp_Board led = (if led = LED_C608 \<or> led = LED_C609 then 0 else - 1)"
| "switch_answer b led = 0"

definition switch_led :: "'w hal_platform \<Rightarrow> bool \<Rightarrow> nat \<Rightarrow> cint \<Rightarrow> ('w led_proc, cint option) state" where
  "switch_led P on dev led = (if on then set_on P dev led else set_off P dev led)"

lemma switch_led_run:
  assumes "heap_get (leds s) p = Some d" "made_by b d"
  shows "res_of (switch_led P on p led) s = Some (switch_answer b led)"
    "ptrace (end_of (switch_led P on p led) s) = ptrace s @ switch_events b (d_fd d) on led"
    "leds (end_of (switch_led P on p led) s) = leds s"
    "sLedDevice (end_of (switch_led P on p led) s) = sLedDevice s"
  using assms
  by (cases b; auto simp: switch_led_def set_on_def set_off_def led_device_at_def made_by_def
      led_fn_defs h_defs)+

lemma close_device_run:
  assumes "heap_get (leds s) p = Some d" "made_by b d"
  shows "run_state (close_device P p) s = (Some 0, s)"
  using assms by (cases b; simp add: close_device_def led_device_at_def made_by_def led_fn_defs)

fun led_path :: "board \<Rightarrow> string" where
  "led_path Cdata_Board = ''/dev/cdata-test''"
| "led_path Omap3_Board = ''/sys/class/leds/led3/brightness''"
| "led_path Dma6410xp_Board = ''/dev/led''"

definition opened_led :: "board \<Rightarrow> int \<Rightarrow> led_control_device_t" where
  "opened_led b fd = \<lparr>d_tag = ''HARDWARE_DEVICE_TAG'', d_version = 0, d_module = Some (HAL_MODULE_INFO_SYM b),
     d_close = Some (Fn_led_device_close b), d_fd = fd,
     d_set_on = Some (Fn_led_on b), d_set_off = Some (Fn_led_off b), d_set_name = None\<rparr>"

lemma made_by_opened [simp]: "made_by b (opened_led b fd)" "d_fd (opened_led b fd) = fd"
  by (simp_all add: made_by_def opened_led_def)

lemma led_control_open_run:
  assumes "ho_malloc P (pworld s) = (True, w1)" "ho_open P (led_path b) w1 = (fd, w2)"
  shows "run_state (led_control_open P (HAL_MODULE_INFO_SYM b)) s =
    (Some 0, s\<lparr>pworld := w2, ptrace := ptrace s @ [HOpen (led_path b) fd],
               leds := leds s @ [Some (opened_led b fd)], sLedDevice := Some (length (leds s))\<rparr>)"
  using assms
  by (cases b) (simp_all add: led_control_open_def module_info_defs led_fn_defs h_defs
      zero_led_device_def opened_led_def)

lemma led_control_open_no_memory:
  assumes "ho_malloc P (pworld s) = (False, w1)"
  shows "run_state (led_control_open P (HAL_MODULE_INFO_SYM b)) s = (None, s\<lparr>pworld := w1\<rparr>)"
  using assms
  by (cases b) (simp_all add: led_control_open_def module_info_defs led_fn_defs h_defs)

lemma wf_leds_opened:
  "wf_leds s \<Longrightarrow> wf_leds (s\<lparr>pworld := w, ptrace := es, leds := leds s @ [Some (opened_led b fd)],
     sLedDevice := Some (length (leds s))\<rparr>)"
  by (auto simp: wf_leds_def intro: exI [of _ b])

end
