(* ===== verification/LedService.thy ===== *)
theory LedService
  imports LedHal Stub
begin

text \<open>
  The native LED service of \<open>mokoid-stub\<close> (\<open>libledservice/LedService.cpp\<close>,
  \<open>LedService.h\<close>, \<open>server/mokoid_ledserver.cpp\<close>): the object that drives the LED module,
  the proxy and stub in front of it, and the client that waits for it
  (\<open>server/ledserver_test.cpp\<close>).

  Parcels and transport are those of \<open>libbinder\<close> and are arguments again; here strings are
  C strings, which \<open>readCString\<close> gives as a pointer into the parcel that is null when no
  string is left.
\<close>

section \<open>Interface\<close>

text \<open>
  \<open>ILedService\<close>.  A pointer to characters is an optional string; a call that kills the process
  has no result.
\<close>

record 's iled =
  il_setOn :: "cint \<Rightarrow> ('s, cint option) state"
  il_setDeviceName :: "string option \<Rightarrow> ('s, cint option) state"

datatype led_txn = CONNECT | LED_ON | LED_OFF | SET_DEVICE_NAME

fun led_code :: "led_txn \<Rightarrow> 32 word" where
  "led_code CONNECT = 1"
| "led_code LED_ON = 2"
| "led_code LED_OFF = 3"
| "led_code SET_DEVICE_NAME = 4"

record 'p led_parcel =
  l_new :: 'p
  l_token :: "str16 \<Rightarrow> 'p \<Rightarrow> 'p"
  l_cstring :: "string \<Rightarrow> 'p \<Rightarrow> 'p"
  l_enforce :: "str16 \<Rightarrow> 'p \<Rightarrow> bool \<times> 'p"
  l_readc :: "'p \<Rightarrow> string option \<times> 'p"
  l_rewind :: "'p \<Rightarrow> 'p"

text \<open>
  What is documented of them: the token is recognised, a string that was written is read back,
  and where none is left the pointer is null.
\<close>

definition led_parcel_laws :: "'p led_parcel \<Rightarrow> bool" where
  "led_parcel_laws L \<longleftrightarrow>
     (\<forall>d. fst (l_enforce L d (l_rewind L (l_token L d (l_new L)))) \<and>
        fst (l_readc L (snd (l_enforce L d (l_rewind L (l_token L d (l_new L)))))) = None) \<and>
     (\<forall>d n. fst (l_enforce L d (l_rewind L (l_cstring L n (l_token L d (l_new L))))) \<and>
        fst (l_readc L (snd (l_enforce L d (l_rewind L (l_cstring L n (l_token L d (l_new L))))))) = Some n)"

definition led_descriptor :: str16 where
  "led_descriptor = map (\<lambda>c. of_char c) ''mokoid.hardware.ILedService''"

section \<open>Proxy\<close>

text \<open>The status of \<open>transact\<close> is not looked at, nothing is read from the reply.\<close>

type_synonym ('s, 'p) led_transport = "32 word \<Rightarrow> 'p \<Rightarrow> ('s, status) state"

definition bp_led_setOn :: "'p led_parcel \<Rightarrow> ('s, 'p) led_transport \<Rightarrow> cint \<Rightarrow> ('s, cint) state" where
  "bp_led_setOn L transact led = do {
     let data = l_token L led_descriptor (l_new L);
     _ \<leftarrow> transact (led_code LED_ON) data;
     State_Monad.return 0 }"

definition bp_led_setOff :: "'p led_parcel \<Rightarrow> ('s, 'p) led_transport \<Rightarrow> cint \<Rightarrow> ('s, cint) state" where
  "bp_led_setOff L transact led = do {
     let data = l_token L led_descriptor (l_new L);
     _ \<leftarrow> transact (led_code LED_OFF) data;
     State_Monad.return 0 }"

definition bp_led_setDeviceName :: "'p led_parcel \<Rightarrow> ('s, 'p) led_transport \<Rightarrow> string \<Rightarrow> ('s, cint) state" where
  "bp_led_setDeviceName L transact name = do {
     let data = l_cstring L name (l_token L led_descriptor (l_new L));
     _ \<leftarrow> transact (led_code SET_DEVICE_NAME) data;
     State_Monad.return 0 }"

lemmas bp_led_defs = bp_led_setOn_def bp_led_setOff_def bp_led_setDeviceName_def

section \<open>Stub\<close>

type_synonym ('s, 'p) led_transacted = "('s, (status \<times> 'p) option) state"

definition led_check_interface ::
  "'p led_parcel \<Rightarrow> 'p \<Rightarrow> 'p \<Rightarrow> ('p \<Rightarrow> ('s, 'p) led_transacted) \<Rightarrow> ('s, 'p) led_transacted" where
  "led_check_interface L data reply k =
     (case l_enforce L led_descriptor data of
        (ok, d) \<Rightarrow> if \<not> ok then State_Monad.return (Some (PERMISSION_DENIED, reply)) else k d)"

text \<open>
  The case \<open>LED_ON\<close> reads a string and passes the pointer where \<open>setOn\<close> takes an \<open>int\<close>
  (a conversion only a permissive compiler accepts): \<open>ptr_int\<close> is the low half of the
  pointer, 0 for the null pointer.
\<close>

definition led_onTransact ::
  "'p led_parcel \<Rightarrow> (string \<Rightarrow> cint) \<Rightarrow> 's iled \<Rightarrow> (32 word \<Rightarrow> 'p \<Rightarrow> 'p \<Rightarrow> ('s, 'p) led_transacted) \<Rightarrow>
     32 word \<Rightarrow> 'p \<Rightarrow> 'p \<Rightarrow> ('s, 'p) led_transacted" where
  "led_onTransact L ptr_int I parent code data reply =
     (if code = led_code CONNECT then
        led_check_interface L data reply (\<lambda>d. State_Monad.return (Some (NO_ERROR, reply)))
      else if code = led_code SET_DEVICE_NAME then
        led_check_interface L data reply (\<lambda>d. do {
          r \<leftarrow> il_setDeviceName I (fst (l_readc L d));
          deref r (\<lambda>_. State_Monad.return (Some (NO_ERROR, reply))) })
      else if code = led_code LED_ON then
        led_check_interface L data reply (\<lambda>d. do {
          r \<leftarrow> il_setOn I (case fst (l_readc L d) of None \<Rightarrow> 0 | Some name \<Rightarrow> ptr_int name);
          deref r (\<lambda>_. State_Monad.return (Some (NO_ERROR, reply))) })
      else parent code data reply)"

text \<open>
  What the binder driver promises of a synchronous call: the stub runs on the parcel from its
  start and an empty reply; a server that is killed gives the status of a dead object.
\<close>

definition led_delivers ::
  "'p led_parcel \<Rightarrow> (32 word \<Rightarrow> 'p \<Rightarrow> 'p \<Rightarrow> ('s, 'p) led_transacted) \<Rightarrow> ('s, 'p) led_transport \<Rightarrow> bool" where
  "led_delivers L stub transact \<longleftrightarrow> (\<forall>code data. transact code data = do {
     r \<leftarrow> stub code (l_rewind L data) (l_new L);
     State_Monad.return (case r of None \<Rightarrow> OTHER_STATUS (- 32) | Some (st, _) \<Rightarrow> st) })"

section \<open>The service\<close>

text \<open>
  \<open>hw_get_module\<close> is \<open>libhardware\<close>'s and an argument.  What is documented of it: it answers 0 and the module
  when a library with a module of that id is installed, and something else when none is.
\<close>

type_synonym hal_loader = "string \<Rightarrow> int \<times> hw_module_t option"

definition hal_loads :: "hal_loader \<Rightarrow> board option \<Rightarrow> bool" where
  "hal_loads hw_get_module installed \<longleftrightarrow>
     (\<forall>b. installed = Some b \<longrightarrow>
        hw_get_module (m_id (HAL_MODULE_INFO_SYM b)) = (0, Some (HAL_MODULE_INFO_SYM b))) \<and>
     (installed = None \<longrightarrow> (\<forall>hw_id. fst (hw_get_module hw_id) \<noteq> 0))"

text \<open>The constructor tries to get the device; whatever happens is only logged.\<close>

definition LedService_new :: "'w hal_platform \<Rightarrow> hal_loader \<Rightarrow> ('w led_proc, unit option) state" where
  "LedService_new P hw_get_module =
     (let (r, hw) = hw_get_module LED_HARDWARE_MODULE_ID
      in if r = 0 then deref hw (\<lambda>m. do {
           r2 \<leftarrow> led_control_open P m;
           deref r2 (\<lambda>_. State_Monad.return (Some ())) })
         else State_Monad.return (Some ()))"

definition LedService_setDeviceName :: "string option \<Rightarrow> ('w led_proc, cint option) state" where
  "LedService_setDeviceName name = State_Monad.return (Some 0)"

definition LedService_setOn :: "'w hal_platform \<Rightarrow> cint \<Rightarrow> ('w led_proc, cint option) state" where
  "LedService_setOn P led = do {
     dev \<leftarrow> preads sLedDevice;
     (case dev of
        None \<Rightarrow> State_Monad.return (Some (- 1))
      | Some p \<Rightarrow> set_on P p led) }"

definition LedService :: "'w hal_platform \<Rightarrow> 'w led_proc iled" where
  "LedService P = \<lparr>il_setOn = LedService_setOn P, il_setDeviceName = LedService_setDeviceName\<rparr>"

text \<open>
  The object is made and registered under a name; the service manager is the list of what is
  registered.  \<open>main\<close> of the server does that and then serves.
\<close>

definition LedService_instantiate ::
  "'w hal_platform \<Rightarrow> hal_loader \<Rightarrow> string list \<Rightarrow> ('w led_proc, string list option) state" where
  "LedService_instantiate P hw_get_module services = do {
     r \<leftarrow> LedService_new P hw_get_module;
     deref r (\<lambda>_. State_Monad.return (Some (''mokoid.led'' # services))) }"

definition ledserver_main ::
  "'w hal_platform \<Rightarrow> hal_loader \<Rightarrow> string list \<Rightarrow> ('w led_proc, string list option) state" where
  "ledserver_main P hw_get_module services = LedService_instantiate P hw_get_module services"

section \<open>Waiting for the service\<close>

text \<open>
  \<open>getLedService\<close>: asks the service manager until the service is there, sleeping a tenth of a
  second after each refusal, and keeps the answer for ever.  \<open>lookup\<close> is \<open>getService\<close>,
  \<open>sleep\<close> what happens meanwhile; the loop need not end, which is \<open>None\<close>.  The number
  counts the sleeps.
\<close>

partial_function (option) wait_service ::
  "('w \<Rightarrow> 'b option \<times> 'w) \<Rightarrow> ('w \<Rightarrow> 'w) \<Rightarrow> nat \<Rightarrow> 'w \<Rightarrow> (('b \<times> nat) \<times> 'w) option" where
  "wait_service lookup sleep n w =
     (case lookup w of
        (Some b, w') \<Rightarrow> Some ((b, n), w')
      | (None, w') \<Rightarrow> wait_service lookup sleep (Suc n) (sleep w'))"

definition getLedService ::
  "('w \<Rightarrow> 'b option \<times> 'w) \<Rightarrow> ('w \<Rightarrow> 'w) \<Rightarrow> 'b option \<Rightarrow> 'w \<Rightarrow> (('b \<times> 'b option) \<times> 'w) option" where
  "getLedService lookup sleep mLedService w =
     (case mLedService of
        Some b \<Rightarrow> Some ((b, Some b), w)
      | None \<Rightarrow> (case wait_service lookup sleep 0 w of
          None \<Rightarrow> None
        | Some ((b, n), w') \<Rightarrow> Some ((b, Some b), w')))"

text \<open>The test client: the service, one call with the name \<open>Apple\<close>, whose answer is not looked at.\<close>

definition ledserver_test_main ::
  "('w \<Rightarrow> 'b option \<times> 'w) \<Rightarrow> ('w \<Rightarrow> 'w) \<Rightarrow> ('b \<Rightarrow> string \<Rightarrow> 'w \<Rightarrow> cint \<times> 'w) \<Rightarrow> 'w \<Rightarrow> (cint \<times> 'w) option" where
  "ledserver_test_main lookup sleep setDeviceName w =
     (case getLedService lookup sleep None w of
        None \<Rightarrow> None
      | Some ((b, cached), w') \<Rightarrow> Some (0, snd (setDeviceName b ''Apple'' w')))"

text \<open>The state in which the loop asks for the \<open>k\<close>-th time.\<close>

fun nth_poll :: "('w \<Rightarrow> 'b option \<times> 'w) \<Rightarrow> ('w \<Rightarrow> 'w) \<Rightarrow> nat \<Rightarrow> 'w \<Rightarrow> 'w" where
  "nth_poll lookup sleep 0 w = w"
| "nth_poll lookup sleep (Suc k) w = nth_poll lookup sleep k (sleep (snd (lookup w)))"

lemma wait_service_found:
  assumes "fst (lookup (nth_poll lookup sleep k w)) = Some b"
    "\<And>j. j < k \<Longrightarrow> fst (lookup (nth_poll lookup sleep j w)) = None"
  shows "wait_service lookup sleep n w = Some ((b, n + k), snd (lookup (nth_poll lookup sleep k w)))"
  using assms
proof (induction k arbitrary: n w)
  case 0
  then show ?case by (subst wait_service.simps) (cases "lookup w", simp)
next
  case (Suc k)
  have "fst (lookup w) = None" using Suc.prems(2) [of 0] by simp
  then obtain w' where w': "lookup w = (None, w')" by (cases "lookup w") simp
  have "wait_service lookup sleep (Suc n) (sleep w') =
      Some ((b, Suc n + k), snd (lookup (nth_poll lookup sleep k (sleep w'))))"
    using Suc.prems(1) Suc.prems(2) [of "Suc j" for j] w' by (intro Suc.IH) auto
  then show ?case using w' by (subst wait_service.simps) simp
qed

lemma wait_service_result:
  fixes lookup :: "'w \<Rightarrow> 'b option \<times> 'w"
  assumes "wait_service lookup sleep n w = Some r"
  shows "\<exists>k. fst (lookup (nth_poll lookup sleep k w)) \<noteq> None"
proof (rule wait_service.raw_induct
    [where P = "\<lambda>lookup sleep n w r. \<exists>k. fst (lookup (nth_poll lookup sleep k w)) \<noteq> None", OF _ assms])
  fix f and lookup :: "'w \<Rightarrow> 'b option \<times> 'w" and sleep n w r
  assume IH: "\<And>lookup sleep n w r. f lookup sleep n w = Some r \<Longrightarrow>
      \<exists>k. fst (lookup (nth_poll lookup sleep k w)) \<noteq> None"
    and body: "(case lookup w of
        (Some b, w') \<Rightarrow> Some ((b, n), w')
      | (None, w') \<Rightarrow> f lookup sleep (Suc n) (sleep w')) = Some r"
  show "\<exists>k. fst (lookup (nth_poll lookup sleep k w)) \<noteq> None"
  proof (cases "fst (lookup w)")
    case None
    then obtain w' where w': "lookup w = (None, w')" by (cases "lookup w") simp
    with body have "f lookup sleep (Suc n) (sleep w') = Some r" by simp
    from IH [OF this] obtain k where "fst (lookup (nth_poll lookup sleep k (sleep w'))) \<noteq> None" by blast
    then show ?thesis using w' by (intro exI [of _ "Suc k"]) simp
  next
    case (Some b)
    then show ?thesis by (intro exI [of _ 0]) simp
  qed
qed

lemma wait_service_answer:
  fixes lookup :: "'w \<Rightarrow> 'b option \<times> 'w"
  assumes "wait_service lookup sleep n w = Some ((b, m), w')"
  shows "\<exists>w. fst (lookup w) = Some b"
proof -
  define k where "k = (LEAST k. fst (lookup (nth_poll lookup sleep k w)) \<noteq> None)"
  have k: "fst (lookup (nth_poll lookup sleep k w)) \<noteq> None"
      "\<And>j. j < k \<Longrightarrow> fst (lookup (nth_poll lookup sleep j w)) = None"
    unfolding k_def using LeastI_ex [OF wait_service_result [OF assms]] not_less_Least by blast+
  then obtain b' where b': "fst (lookup (nth_poll lookup sleep k w)) = Some b'" by blast
  from wait_service_found [of lookup sleep k w b' n, OF b' k(2)] assms have "b' = b" by simp
  with b' show ?thesis by blast
qed

end
