(* ===== verification/LedProps.thy ===== *)
theory LedProps
  imports LedService
begin

text \<open>
  What the LED modules and the LED service guarantee: no call goes through a bad pointer, what
  each board is asked to do, what a client of the native service really reaches, when a client
  gets to the service at all.
\<close>

section \<open>Well-formedness\<close>

text \<open>
  The contract of a device driver behind a pointer to its device: in a well-formed state with a
  device every call returns and leaves a well-formed state with that device.
\<close>

locale led_driver =
  fixes wf :: "'s \<Rightarrow> bool" and device :: "'s \<Rightarrow> nat option" and call :: "bool \<Rightarrow> nat \<Rightarrow> cint \<Rightarrow> ('s, cint option) state"
  assumes call_safe: "wf s \<Longrightarrow> device s = Some p \<Longrightarrow>
      res_of (call on p led) s \<noteq> None \<and> wf (end_of (call on p led) s) \<and> device (end_of (call on p led) s) = Some p"
begin

text \<open>A client that calls when it has a device and answers \<open>-1\<close> otherwise.\<close>

definition guarded :: "bool \<Rightarrow> cint \<Rightarrow> ('s, cint option) state" where
  "guarded on led = do {
     dev \<leftarrow> preads device;
     (case dev of None \<Rightarrow> State_Monad.return (Some (- 1)) | Some p \<Rightarrow> call on p led) }"

lemma guarded_safe:
  assumes "wf s"
  shows "res_of (guarded on led) s \<noteq> None \<and> wf (end_of (guarded on led) s) \<and>
    device (end_of (guarded on led) s) = device s"
  using assms call_safe [of s _ on led] by (cases "device s") (auto simp: guarded_def)

end

interpretation led_module: led_driver wf_leds sLedDevice "switch_led P" for P :: "'w hal_platform"
proof unfold_locales
  fix s :: "'w led_proc" and p on led
  assume wf: "wf_leds s" and p: "sLedDevice s = Some p"
  obtain b d where d: "heap_get (leds s) p = Some d" "made_by b d"
    using wf_leds_device [OF wf p] by blast
  note run = switch_led_run [OF d, where P = P and on = on and led = led]
  have "wf_leds (end_of (switch_led P on p led) s)"
    using wf unfolding wf_leds_def run by simp
  then show "res_of (switch_led P on p led) s \<noteq> None \<and> wf_leds (end_of (switch_led P on p led) s) \<and>
      sLedDevice (end_of (switch_led P on p led) s) = Some p"
    using run p by simp
qed

lemma LedService_setOn_guarded: "LedService_setOn P led = led_module.guarded P True led"
  unfolding LedService_setOn_def led_module.guarded_def switch_led_def by simp

lemma hal_loads_SomeD:
  assumes "hal_loads hw_get_module (Some b)"
  shows "hw_get_module LED_HARDWARE_MODULE_ID = (0, Some (HAL_MODULE_INFO_SYM b))"
proof -
  have "m_id (HAL_MODULE_INFO_SYM b) = LED_HARDWARE_MODULE_ID"
    by (cases b) (simp_all add: module_info_defs)
  then show ?thesis using assms by (auto simp: hal_loads_def)
qed

lemma hal_loads_NoneD: "hal_loads hw_get_module None \<Longrightarrow> fst (hw_get_module hw_id) \<noteq> 0"
  by (simp add: hal_loads_def)

text \<open>A loader that knows one library, to compute with.\<close>

definition loads_board :: "board \<Rightarrow> hal_loader" where
  "loads_board b hw_id =
     (if hw_id = m_id (HAL_MODULE_INFO_SYM b) then (0, Some (HAL_MODULE_INFO_SYM b)) else (- 2, None))"

lemma loads_board: "hal_loads (loads_board b) (Some b)"
  by (simp add: hal_loads_def loads_board_def)

lemma LedService_new_run:
  assumes "wf_leds s" "fst (ho_malloc P (pworld s))" "hal_loads hw_get_module installed"
  shows "\<exists>s'. run_state (LedService_new P hw_get_module) s = (Some (), s') \<and> wf_leds s' \<and>
    (installed = None \<longrightarrow> s' = s) \<and>
    (\<forall>b. installed = Some b \<longrightarrow> sLedDevice s' = Some (length (leds s)) \<and>
       (\<exists>fd. heap_get (leds s') (length (leds s)) = Some (opened_led b fd) \<and>
         ptrace s' = ptrace s @ [HOpen (led_path b) fd]))"
proof (cases installed)
  case None
  then show ?thesis using assms(1) hal_loads_NoneD [OF assms(3) [unfolded None]]
    by (simp add: LedService_new_def case_prod_beta)
next
  case (Some b)
  obtain w1 where m: "ho_malloc P (pworld s) = (True, w1)" using assms(2) by (metis prod.collapse)
  obtain fd w2 where o: "ho_open P (led_path b) w1 = (fd, w2)" by fastforce
  show ?thesis
    using Some wf_leds_opened [OF assms(1)]
    by (simp add: LedService_new_def hal_loads_SomeD [OF assms(3) [unfolded Some]] led_control_open_run [OF m o])
qed

text \<open>Calls of the service one after the other.\<close>

fun led_calls :: "'w hal_platform \<Rightarrow> cint list \<Rightarrow> ('w led_proc, cint option list) state" where
  "led_calls P [] = State_Monad.return []"
| "led_calls P (led # rest) = do {
     r \<leftarrow> LedService_setOn P led;
     rs \<leftarrow> led_calls P rest;
     State_Monad.return (r # rs) }"

lemma led_calls_safe:
  "wf_leds s \<Longrightarrow> None \<notin> set (res_of (led_calls P ls) s) \<and> wf_leds (end_of (led_calls P ls) s) \<and>
   sLedDevice (end_of (led_calls P ls) s) = sLedDevice s"
proof (induction ls arbitrary: s)
  case (Cons led ls)
  let ?s1 = "end_of (LedService_setOn P led) s"
  have "res_of (LedService_setOn P led) s \<noteq> None" "wf_leds ?s1" "sLedDevice ?s1 = sLedDevice s"
    using led_module.guarded_safe [OF Cons.prems, of P True led] unfolding LedService_setOn_guarded by blast+
  then show ?case using Cons.IH [of ?s1] by (auto simp: case_prod_beta)
qed simp

definition led_start :: "'w \<Rightarrow> 'w led_proc" where
  "led_start w = \<lparr>pworld = w, ptrace = [], leds = [], sLedDevice = None\<rparr>"

lemma wf_led_start [simp]: "wf_leds (led_start w)" "leds (led_start w) = []" "ptrace (led_start w) = []"
    "sLedDevice (led_start w) = None" "pworld (led_start w) = w"
  by (simp_all add: led_start_def wf_leds_def)

text \<open>
  C21: Once the service has been made (and memory was there for its device), every device in the heap
  has the operations of one board and the global pointer is null or leads to such a device, whatever
  module is installed and whatever open answered; so no sequence of calls of \<open>setOn\<close> with any
  numbers ever goes through a null or stale pointer, and that stays so.
\<close>

lemma led_service_well_formed:
  assumes "fst (ho_malloc P w)" "hal_loads hw_get_module installed"
  shows "\<exists>s. run_state (LedService_new P hw_get_module) (led_start w) = (Some (), s) \<and> wf_leds s \<and>
    None \<notin> set (res_of (led_calls P ls) s) \<and> wf_leds (end_of (led_calls P ls) s)"
proof -
  obtain s where "run_state (LedService_new P hw_get_module) (led_start w) = (Some (), s)" "wf_leds s"
    using LedService_new_run [of "led_start w" P, OF _ _ assms(2)] assms(1) by auto
  then show ?thesis using led_calls_safe by blast
qed

text \<open>A platform to compute on: calls succeed with descriptor 3, the poll and the bytes are given.\<close>

definition bench_hal :: "int \<Rightarrow> unit hal_platform" where
  "bench_hal fd = \<lparr>ho_open = (\<lambda>path w. (fd, w)), ho_dup = (\<lambda>f w. (f + 1, w)), ho_ioctl = (\<lambda>f r a w. (0, w)),
     ho_write = (\<lambda>f b w. (1, w)), ho_read = (\<lambda>f n w. ((int n, replicate n 64), w)), ho_poll = (\<lambda>f w. (1, w)),
     ho_malloc = (\<lambda>w. (True, w))\<rparr>"

lemma led_service_well_formed_witness:
  "\<exists>s. run_state (LedService_new (bench_hal 3) (loads_board Dma6410xp_Board)) (led_start ()) = (Some (), s) \<and> wf_leds s \<and>
    None \<notin> set (res_of (led_calls (bench_hal 3) [1, 2, 7]) s) \<and>
    wf_leds (end_of (led_calls (bench_hal 3) [1, 2, 7]) s)"
  by (rule led_service_well_formed [OF _ loads_board]) (simp add: bench_hal_def)

section \<open>What the boards are asked to do\<close>

text \<open>
  The lights of a \<open>dma6410xp\<close> board, from the requests its driver has received on a descriptor:
  request 1 lights the LED whose number is passed, request 2 puts it out.
\<close>

fun light_step :: "int \<Rightarrow> hevent \<Rightarrow> (int \<Rightarrow> bool) \<Rightarrow> int \<Rightarrow> bool" where
  "light_step fd (HIoctl f req led) lit =
     (if f = fd \<and> req = 1 then lit(led := True) else if f = fd \<and> req = 2 then lit(led := False) else lit)"
| "light_step fd _ lit = lit"

definition lights :: "int \<Rightarrow> hevent list \<Rightarrow> int \<Rightarrow> bool" where
  "lights fd es = fold (light_step fd) es (\<lambda>_. False)"

text \<open>The specification: two lights, other numbers are refused.\<close>

fun spec_switch :: "bool \<times> cint \<Rightarrow> (int \<Rightarrow> bool) \<Rightarrow> int \<Rightarrow> bool" where
  "spec_switch (on, led) lit = (if led \<in> {1, 2} then lit(sint led := on) else lit)"

fun switch_all :: "'w hal_platform \<Rightarrow> nat \<Rightarrow> (bool \<times> cint) list \<Rightarrow> ('w led_proc, cint option list) state" where
  "switch_all P p [] = State_Monad.return []"
| "switch_all P p ((on, led) # cmds) = do {
     r \<leftarrow> switch_led P on p led;
     rs \<leftarrow> switch_all P p cmds;
     State_Monad.return (r # rs) }"

lemma lights_switch:
  "lights fd (es @ switch_events Dma6410xp_Board fd on led) = spec_switch (on, led) (lights fd es)"
  by (simp add: lights_def LED_C608_def LED_C609_def)

text \<open>
  C17: The \<open>dma6410xp\<close> module refines a pair of lights: whatever sequence of \<open>set_on\<close> and
  \<open>set_off\<close> with whatever numbers is made through a device, the lights the requests leave are those
  of the specification, the answer is 0 for the two numbers that exist and \<open>-1\<close> for any other, and
  the process is never killed.
\<close>

lemma dma_refines_lights:
  assumes "heap_get (leds s) p = Some d" "made_by Dma6410xp_Board d"
  shows "lights (d_fd d) (ptrace (end_of (switch_all P p cmds) s)) =
      fold spec_switch cmds (lights (d_fd d) (ptrace s)) \<and>
    res_of (switch_all P p cmds) s = map (\<lambda>(on, led). Some (if led \<in> {1, 2} then 0 else - 1)) cmds"
  using assms
proof (induction cmds arbitrary: s)
  case (Cons c cmds)
  obtain on led where c: "c = (on, led)" by fastforce
  let ?s1 = "end_of (switch_led P on p led) s"
  note run = switch_led_run [OF Cons.prems, where P = P and on = on and led = led]
  have "heap_get (leds ?s1) p = Some d" using run(3) Cons.prems(1) by simp
  from Cons.IH [OF this Cons.prems(2)] show ?case
    by (simp add: c case_prod_beta run(1) run(2) lights_switch del: switch_events.simps spec_switch.simps)
       (simp add: LED_C608_def LED_C609_def)
qed simp

definition one_led :: "board \<Rightarrow> unit led_proc" where
  "one_led b = \<lparr>pworld = (), ptrace = [HOpen (led_path b) 3], leds = [Some (opened_led b 3)], sLedDevice = Some 0\<rparr>"

lemma one_led_device: "heap_get (leds (one_led b)) 0 = Some (opened_led b 3)"
  by (simp add: one_led_def heap_get_def)

lemma dma_refines_lights_witness:
  "lights 3 (ptrace (end_of (switch_all (bench_hal 3) 0 [(True, 1), (True, 7), (True, 2), (False, 1)]) (one_led Dma6410xp_Board))) 2 \<and>
   res_of (switch_all (bench_hal 3) 0 [(True, 1), (True, 7), (True, 2), (False, 1)]) (one_led Dma6410xp_Board) =
     [Some 0, Some (- 1), Some 0, Some 0]"
  using dma_refines_lights [OF one_led_device made_by_opened(1), of "bench_hal 3" "[(True, 1), (True, 7), (True, 2), (False, 1)]"]
  by simp

text \<open>
  The other two modules do less than their interface says.  On the \<open>omap3\<close> board the number is
  ignored: every \<open>set_on\<close> writes \<open>1\<close> and every \<open>set_off\<close> writes \<open>0\<close> to the file of the one LED.
  With the module over \<open>/dev/cdata-test\<close>, \<open>set_on\<close> and \<open>set_off\<close> make the same request and sleep for
  thirty seconds, so switching on and switching off cannot be told apart.  Both always answer 0, also when the
  device file could not be opened.
\<close>

lemma other_boards_ignore_number:
  assumes "heap_get (leds s) p = Some d" "made_by b d" "b \<noteq> Dma6410xp_Board"
  shows "res_of (switch_led P on p led) s = Some 0 \<and>
    ptrace (end_of (switch_led P on p led) s) = ptrace s @
      (case b of Omap3_Board \<Rightarrow> [HWrite (d_fd d) (if on then ''1'' else ''0'')]
       | _ \<Rightarrow> [HIoctl (d_fd d) 0 0, HSleep 30000000]) \<and>
    ptrace (end_of (switch_led P on p led) s) = ptrace (end_of (switch_led P on p led') s)"
  using assms(3) switch_led_run(1,2) [OF assms(1,2), of P on] by (cases b) simp_all

lemma other_boards_ignore_number_witness:
  "res_of (switch_led (bench_hal 3) True 0 5) (one_led Omap3_Board) = Some 0 \<and>
    ptrace (end_of (switch_led (bench_hal 3) True 0 5) (one_led Omap3_Board)) = ptrace (one_led Omap3_Board) @
      (case Omap3_Board of Omap3_Board \<Rightarrow> [HWrite (d_fd (opened_led Omap3_Board 3)) (if True then ''1'' else ''0'')]
       | _ \<Rightarrow> [HIoctl (d_fd (opened_led Omap3_Board 3)) 0 0, HSleep 30000000]) \<and>
    ptrace (end_of (switch_led (bench_hal 3) True 0 5) (one_led Omap3_Board)) =
    ptrace (end_of (switch_led (bench_hal 3) True 0 6) (one_led Omap3_Board))"
  by (rule other_boards_ignore_number [OF one_led_device made_by_opened(1)]) simp

text \<open>
  \<open>led_control_open\<close> answers 0 whether or not the device file could be opened, and closing gives
  nothing back: every pair of an open and a close leaves one more device structure in the heap, and one
  more descriptor whenever the file did open.
\<close>

lemma led_open_close_leaks:
  assumes "ho_malloc P (pworld s) = (True, w1)" "ho_open P (led_path b) w1 = (fd, w2)"
  shows "\<exists>s1 p. run_state (led_control_open P (HAL_MODULE_INFO_SYM b)) s = (Some 0, s1) \<and> sLedDevice s1 = Some p \<and>
    run_state (close_device P p) s1 = (Some 0, s1) \<and>
    live_objects (leds s1) = Suc (live_objects (leds s)) \<and>
    fds_held (ptrace s1) = fds_held (ptrace s) + (if 0 \<le> fd then 1 else 0)"
  using led_control_open_run [OF assms] by (simp add: close_device_run [OF _ made_by_opened(1)])

lemma led_open_close_leaks_witness:
  "\<exists>s1 p. run_state (led_control_open (bench_hal (-1)) (HAL_MODULE_INFO_SYM Omap3_Board)) (led_start ()) = (Some 0, s1) \<and>
    sLedDevice s1 = Some p \<and> run_state (close_device (bench_hal (-1)) p) s1 = (Some 0, s1) \<and>
    live_objects (leds s1) = Suc (live_objects (leds (led_start ()))) \<and>
    fds_held (ptrace s1) = fds_held (ptrace (led_start ())) + (if (0::int) \<le> - 1 then 1 else 0)"
  by (rule led_open_close_leaks) (simp_all add: bench_hal_def)

section \<open>Through the proxy\<close>

text \<open>A call of \<open>setOn\<close> through the proxy is the call with 0.\<close>

lemma bp_led_setOn_service:
  assumes "led_parcel_laws L" "led_delivers L (led_onTransact L ptr_int I parent) transact"
  shows "bp_led_setOn L transact led = do { _ \<leftarrow> il_setOn I 0; State_Monad.return 0 }"
  using assms
  by (intro state_ext) (simp add: bp_led_setOn_def led_delivers_def led_onTransact_def led_check_interface_def
      led_parcel_laws_def case_prod_beta)

text \<open>
  C24: A client of the native service cannot choose an LED and cannot switch one off: \<open>setOn\<close> of the
  proxy writes no number, so the service is always called with 0, the null pointer; \<open>setOff\<close> is a
  transaction no case handles; both answer 0 whatever the service answered.  Only \<open>setDeviceName\<close>
  passes its argument on.
\<close>

lemma led_proxy_drops_number:
  assumes "led_parcel_laws L" "led_delivers L (led_onTransact L ptr_int I parent) transact"
  shows "bp_led_setOn L transact led = do { _ \<leftarrow> il_setOn I 0; State_Monad.return 0 } \<and>
    bp_led_setOff L transact led =
      do { _ \<leftarrow> parent 3 (l_rewind L (l_token L led_descriptor (l_new L))) (l_new L); State_Monad.return 0 } \<and>
    bp_led_setDeviceName L transact name = do { _ \<leftarrow> il_setDeviceName I (Some name); State_Monad.return 0 }"
proof -
  have tr: "transact code data = do {
      r \<leftarrow> led_onTransact L ptr_int I parent code (l_rewind L data) (l_new L);
      State_Monad.return (case r of None \<Rightarrow> OTHER_STATUS (- 32) | Some (st, _) \<Rightarrow> st) }" for code data
    using assms(2) by (simp add: led_delivers_def)
  have "bp_led_setOn L transact led = do { _ \<leftarrow> il_setOn I 0; State_Monad.return 0 }"
    by (rule bp_led_setOn_service [OF assms])
  moreover have "bp_led_setDeviceName L transact name = do { _ \<leftarrow> il_setDeviceName I (Some name); State_Monad.return 0 }"
    using assms(1)
    by (intro state_ext) (simp add: bp_led_setDeviceName_def tr led_onTransact_def led_check_interface_def
        led_parcel_laws_def case_prod_beta)
  moreover have "bp_led_setOff L transact led =
      do { _ \<leftarrow> parent 3 (l_rewind L (l_token L led_descriptor (l_new L))) (l_new L); State_Monad.return 0 }"
    by (intro state_ext) (simp add: bp_led_setOff_def tr led_onTransact_def case_prod_beta)
  ultimately show ?thesis by blast
qed

text \<open>A parcel as the token and the string written, and whether they have been read.\<close>

type_synonym led_list_parcel = "(str16 option \<times> string list) \<times> string list"

definition list_led_parcel :: "led_list_parcel led_parcel" where
  "list_led_parcel = \<lparr>
     l_new = ((None, []), []),
     l_token = (\<lambda>d p. ((Some d, snd (fst p)), snd p)),
     l_cstring = (\<lambda>n p. ((fst (fst p), snd (fst p) @ [n]), snd p)),
     l_enforce = (\<lambda>d p. (fst (fst p) = Some d, p)),
     l_readc = (\<lambda>p. case snd p of [] \<Rightarrow> (None, p) | n # r \<Rightarrow> (Some n, (fst p, r))),
     l_rewind = (\<lambda>p. (fst p, snd (fst p))) \<rparr>"

lemma list_led_parcel_laws: "led_parcel_laws list_led_parcel"
  by (simp add: led_parcel_laws_def list_led_parcel_def)

definition led_local_transport ::
  "'p led_parcel \<Rightarrow> (32 word \<Rightarrow> 'p \<Rightarrow> 'p \<Rightarrow> ('s, 'p) led_transacted) \<Rightarrow> ('s, 'p) led_transport" where
  "led_local_transport L stub code data = do {
     r \<leftarrow> stub code (l_rewind L data) (l_new L);
     State_Monad.return (case r of None \<Rightarrow> OTHER_STATUS (- 32) | Some (st, _) \<Rightarrow> st) }"

definition led_unknown_code :: "32 word \<Rightarrow> 'p \<Rightarrow> 'p \<Rightarrow> ('s, 'p) led_transacted" where
  "led_unknown_code code data reply = State_Monad.return (Some (OTHER_STATUS (- 74), reply))"

lemma led_local_delivers: "led_delivers L stub (led_local_transport L stub)"
  by (simp add: led_delivers_def led_local_transport_def)

abbreviation led_bench_transport :: "(unit led_proc, led_list_parcel) led_transport" where
  "led_bench_transport \<equiv> led_local_transport list_led_parcel
     (led_onTransact list_led_parcel (\<lambda>n. 4096) (LedService (bench_hal 3)) led_unknown_code)"

lemma led_proxy_drops_number_witness:
  "end_of (bp_led_setOn list_led_parcel led_bench_transport 2) (one_led Dma6410xp_Board) = one_led Dma6410xp_Board \<and>
   ptrace (end_of (bp_led_setOn list_led_parcel led_bench_transport 2) (one_led Omap3_Board)) =
     [HOpen (led_path Omap3_Board) 3, HWrite 3 ''1'']"
proof -
  have eq: "bp_led_setOn list_led_parcel led_bench_transport 2 =
      do { _ \<leftarrow> il_setOn (LedService (bench_hal 3)) 0; State_Monad.return 0 }"
    using led_proxy_drops_number [OF list_led_parcel_laws led_local_delivers] by blast
  show ?thesis unfolding eq
    by (simp add: LedService_def LedService_setOn_def one_led_def set_on_def led_device_at_def heap_get_def
        opened_led_def led_on_dma6410xp_def led_on_omap3_def LED_C608_def LED_C609_def h_defs bench_hal_def)
qed

section \<open>Waiting for the service\<close>

text \<open>
  C33: A client that waits for the service gets it exactly when the service manager has it at some
  moment the client asks; then it asks no oftener than needed, and sleeps once for each refusal
  before.  If the manager never has it the client never returns.  Once it has been got it is kept,
  and the manager is never asked again.
\<close>

lemma getLedService_returns:
  "(\<forall>j. fst (lookup (nth_poll lookup sleep j w)) = None) \<and> getLedService lookup sleep None w = None \<or>
   (\<exists>k b. fst (lookup (nth_poll lookup sleep k w)) = Some b \<and> (\<forall>j<k. fst (lookup (nth_poll lookup sleep j w)) = None) \<and>
      getLedService lookup sleep None w = Some ((b, Some b), snd (lookup (nth_poll lookup sleep k w))) \<and>
      wait_service lookup sleep 0 w = Some ((b, k), snd (lookup (nth_poll lookup sleep k w))) \<and>
      (\<forall>w'. getLedService lookup sleep (Some b) w' = Some ((b, Some b), w')))"
proof (cases "\<forall>j. fst (lookup (nth_poll lookup sleep j w)) = None")
  case True
  then have "wait_service lookup sleep 0 w = None"
    using wait_service_result [of lookup sleep 0 w] by (cases "wait_service lookup sleep 0 w") auto
  then show ?thesis using True by (simp add: getLedService_def)
next
  case False
  define k where "k = (LEAST k. fst (lookup (nth_poll lookup sleep k w)) \<noteq> None)"
  have "fst (lookup (nth_poll lookup sleep k w)) \<noteq> None"
    using False unfolding k_def by (metis (mono_tags, lifting) LeastI)
  then obtain b where b: "fst (lookup (nth_poll lookup sleep k w)) = Some b" by blast
  have least: "\<And>j. j < k \<Longrightarrow> fst (lookup (nth_poll lookup sleep j w)) = None"
    unfolding k_def using not_less_Least by blast
  show ?thesis
    using wait_service_found [of lookup sleep k w b 0, OF b least] b least by (auto simp: getLedService_def)
qed

lemma getLedService_returns_witness:
  "getLedService (\<lambda>n. (if 2 \<le> n then Some ''mokoid.led'' else None, n)) Suc None (0::nat) =
     Some ((''mokoid.led'', Some ''mokoid.led''), 2)"
proof -
  let ?lookup = "\<lambda>n::nat. (if 2 \<le> n then Some ''mokoid.led'' else None, n)"
  have p: "nth_poll ?lookup Suc k n = n + k" for k n by (induction k arbitrary: n) simp_all
  have none: "\<not> (\<forall>j. fst (?lookup (nth_poll ?lookup Suc j 0)) = None)"
    by (auto simp: p intro!: exI [of _ 2])
  obtain k b where k: "fst (?lookup (nth_poll ?lookup Suc k 0)) = Some b"
      "\<forall>j<k. fst (?lookup (nth_poll ?lookup Suc j 0)) = None"
      "getLedService ?lookup Suc None 0 = Some ((b, Some b), snd (?lookup (nth_poll ?lookup Suc k 0)))"
    using getLedService_returns [of ?lookup Suc 0] none by blast
  have "2 \<le> k" using k(1) by (simp add: p split: if_splits)
  moreover have "\<not> 2 < k" using k(2) by (auto simp: p)
  ultimately have "k = 2" by simp
  then show ?thesis using k(1,3) by (simp add: p)
qed

end
