(* ===== verification/LedJni.thy ===== *)
theory LedJni
  imports LedProps
begin

text \<open>
  The native methods of the Java side: those of the Java service, which drive the LED module
  (\<open>frameworks/base/service/jni/com_mokoid_server_LedService.cpp\<close>), those of the Java client,
  which call the native service (\<open>frameworks/base/core/jni/mokoid_hardware_Led.cpp\<close>), and
  \<open>libmokoid/libmokoid.cpp\<close>; with the registration all three share.  A \<open>jboolean\<close> is an unsigned
  byte, which Java takes as false when it is 0.
\<close>

type_synonym jboolean = "8 word"

section \<open>The Java service\<close>

definition mokoid_init :: "'w hal_platform \<Rightarrow> hal_loader \<Rightarrow> ('w led_proc, jboolean option) state" where
  "mokoid_init P hw_get_module =
     (let (r, hw) = hw_get_module LED_HARDWARE_MODULE_ID
      in if r = 0 then deref hw (\<lambda>m. do {
           r2 \<leftarrow> led_control_open P m;
           deref r2 (\<lambda>v. if v = 0 then State_Monad.return (Some 0) else State_Monad.return (Some (- 1))) })
         else State_Monad.return (Some (- 1)))"

definition mokoid_setDeviceName :: "('w led_proc, jboolean option) state" where
  "mokoid_setDeviceName = do {
     dev \<leftarrow> preads sLedDevice;
     (case dev of
        None \<Rightarrow> State_Monad.return (Some (- 1))
      | Some p \<Rightarrow> State_Monad.return (Some 0)) }"

definition mokoid_setOn :: "'w hal_platform \<Rightarrow> cint \<Rightarrow> ('w led_proc, jboolean option) state" where
  "mokoid_setOn P led = do {
     dev \<leftarrow> preads sLedDevice;
     (case dev of
        None \<Rightarrow> State_Monad.return (Some (- 1))
      | Some p \<Rightarrow> do {
          r \<leftarrow> set_on P p led;
          State_Monad.return (map_option (\<lambda>v. ucast v) r) }) }"

definition mokoid_setOff :: "'w hal_platform \<Rightarrow> cint \<Rightarrow> ('w led_proc, jboolean option) state" where
  "mokoid_setOff P led = do {
     dev \<leftarrow> preads sLedDevice;
     (case dev of
        None \<Rightarrow> State_Monad.return (Some (- 1))
      | Some p \<Rightarrow> do {
          r \<leftarrow> set_off P p led;
          State_Monad.return (map_option (\<lambda>v. ucast v) r) }) }"

section \<open>The Java client\<close>

text \<open>
  \<open>mLedService\<close> is a strong pointer, null until \<open>led_init\<close>; a call through the null pointer kills
  the process.  \<open>setOn\<close> is the call of the proxy behind it.
\<close>

record ('b, 'w) led_client =
  cworld :: 'w
  mLedService :: "'b option"

text \<open>The copy of \<open>getLedService\<close> in this library: its global is the pointer of the client.\<close>

definition getLedService_jni ::
  "('w \<Rightarrow> 'b option \<times> 'w) \<Rightarrow> ('w \<Rightarrow> 'w) \<Rightarrow> ('b, 'w) led_client \<Rightarrow> ('b \<times> ('b, 'w) led_client) option" where
  "getLedService_jni lookup sleep s =
     (case mLedService s of
        Some b \<Rightarrow> Some (b, s)
      | None \<Rightarrow> (case wait_service lookup sleep 0 (cworld s) of
          None \<Rightarrow> None
        | Some ((b, n), w) \<Rightarrow> Some (b, s\<lparr>cworld := w, mLedService := Some b\<rparr>)))"

definition led_init ::
  "('w \<Rightarrow> 'b option \<times> 'w) \<Rightarrow> ('w \<Rightarrow> 'w) \<Rightarrow> ('b, 'w) led_client \<Rightarrow> (jboolean \<times> ('b, 'w) led_client) option" where
  "led_init lookup sleep s =
     (case getLedService_jni lookup sleep s of
        None \<Rightarrow> None
      | Some (b, s1) \<Rightarrow> Some (- 1, s1\<lparr>mLedService := Some b\<rparr>))"

text \<open>Both copies wait and cache alike.\<close>

lemma getLedService_copies:
  "getLedService_jni lookup sleep s =
     map_option (\<lambda>((b, cached), w). (b, s\<lparr>cworld := w, mLedService := cached\<rparr>))
       (getLedService lookup sleep (mLedService s) (cworld s))"
  by (cases s) (simp add: getLedService_jni_def getLedService_def split: option.split prod.split)

definition jni_led_on ::
  "('b \<Rightarrow> cint \<Rightarrow> 'w \<Rightarrow> cint \<times> 'w) \<Rightarrow> cint \<Rightarrow> ('b, 'w) led_client \<Rightarrow> (jboolean \<times> ('b, 'w) led_client) option" where
  "jni_led_on setOn led s =
     (case mLedService s of
        None \<Rightarrow> None
      | Some b \<Rightarrow> Some (- 1, s\<lparr>cworld := snd (setOn b led (cworld s))\<rparr>))"

definition jni_led_off :: "cint \<Rightarrow> ('b, 'w) led_client \<Rightarrow> (jboolean \<times> ('b, 'w) led_client) option" where
  "jni_led_off led s = Some (- 1, s)"

section \<open>The greeting library\<close>

definition say_hello :: "'w hal_platform \<Rightarrow> (('w, 'z) proc_scheme, unit) state" where
  "say_hello P = do {
     fd \<leftarrow> h_open P ''/dev/cdata-test'';
     pemit (HClose fd) }"

section \<open>Registration\<close>

datatype native_fn =
    Fn_mokoid_init | Fn_mokoid_setOn | Fn_mokoid_setOff | Fn_mokoid_setDeviceName
  | Fn_led_init | Fn_jni_led_on | Fn_jni_led_off
  | Fn_say_hello

text \<open>A row of \<open>gMethods\<close>: name, signature, function.\<close>

type_synonym native_table = "(string \<times> string \<times> native_fn) list"

text \<open>What the virtual machine answers, and what has been registered with it.\<close>

record jni_env =
  get_env :: bool                          \<comment> \<open>\<open>GetEnv\<close> gives \<open>JNI_OK\<close>\<close>
  find_class :: "string \<Rightarrow> bool"
  register_natives :: "string \<Rightarrow> native_table \<Rightarrow> bool"

type_synonym natives = "(string \<times> native_table) list"

definition JNI_VERSION_1_4 :: int where "JNI_VERSION_1_4 = 0x00010004"

definition gMethods_server :: native_table where
  "gMethods_server =
     [(''_init'', ''()Z'', Fn_mokoid_init),
      (''_set_on'', ''(I)Z'', Fn_mokoid_setOn),
      (''_set_off'', ''(I)Z'', Fn_mokoid_setOff),
      (''_set_device_name'', ''(Ljava/lang/String;)Z'', Fn_mokoid_setDeviceName)]"

definition registerMethods_server :: "jni_env \<Rightarrow> natives \<Rightarrow> int \<times> natives" where
  "registerMethods_server E reg =
     (let kClassName = ''com/mokoid/server/LedService''
      in if \<not> find_class E kClassName then (- 1, reg)
         else if \<not> register_natives E kClassName gMethods_server then (- 1, reg)
         else (0, reg @ [(kClassName, gMethods_server)]))"

definition JNI_OnLoad_server :: "jni_env \<Rightarrow> natives \<Rightarrow> int \<times> natives" where
  "JNI_OnLoad_server E reg =
     (if \<not> get_env E then (- 1, reg)
      else (JNI_VERSION_1_4, snd (registerMethods_server E reg)))"

definition gMethods_led :: native_table where
  "gMethods_led =
     [(''_init'', ''()Z'', Fn_led_init),
      (''_led_on'', ''(I)Z'', Fn_jni_led_on),
      (''_led_off'', ''(I)Z'', Fn_jni_led_off)]"

definition registerMethods_led :: "jni_env \<Rightarrow> natives \<Rightarrow> int \<times> natives" where
  "registerMethods_led E reg =
     (let kClassName = ''mokoid/hardware/Led''
      in if \<not> find_class E kClassName then (- 1, reg)
         else if \<not> register_natives E kClassName gMethods_led then (- 1, reg)
         else (0, reg @ [(kClassName, gMethods_led)]))"

definition JNI_OnLoad_led :: "jni_env \<Rightarrow> natives \<Rightarrow> int \<times> natives" where
  "JNI_OnLoad_led E reg =
     (if \<not> get_env E then (- 1, reg)
      else (JNI_VERSION_1_4, snd (registerMethods_led E reg)))"

definition gMethods_hello :: native_table where
  "gMethods_hello = [(''_say_hello'', ''()V'', Fn_say_hello)]"

definition registerMethods_hello :: "jni_env \<Rightarrow> natives \<Rightarrow> int \<times> natives" where
  "registerMethods_hello E reg =
     (let kClassName = ''com/mokoid/MokoidHello''
      in if \<not> find_class E kClassName then (- 1, reg)
         else if \<not> register_natives E kClassName gMethods_hello then (- 1, reg)
         else (0, reg @ [(kClassName, gMethods_hello)]))"

definition JNI_OnLoad_hello :: "jni_env \<Rightarrow> natives \<Rightarrow> int \<times> natives" where
  "JNI_OnLoad_hello E reg =
     (if \<not> get_env E then (- 1, reg)
      else (JNI_VERSION_1_4, snd (registerMethods_hello E reg)))"

section \<open>Properties\<close>

lemma minus_one_byte: "(ucast (- 1 :: cint) :: jboolean) = 255" "(255 :: jboolean) = - 1"
proof -
  show eq: "(255 :: jboolean) = - 1" by simp
  show "(ucast (- 1 :: cint) :: jboolean) = 255"
    unfolding eq by (rule bit_word_eqI) (simp add: bit_simps)
qed

lemma mokoid_calls_guarded:
  "mokoid_setOn P led = do {
     r \<leftarrow> led_module.guarded P True led; State_Monad.return (map_option (\<lambda>v. ucast v) r) }"
  "mokoid_setOff P led = do {
     r \<leftarrow> led_module.guarded P False led; State_Monad.return (map_option (\<lambda>v. ucast v) r) }"
  by (intro state_ext; simp add: mokoid_setOn_def mokoid_setOff_def led_module.guarded_def switch_led_def
      case_prod_beta minus_one_byte split: option.split)+

text \<open>
  C35: To Java the native methods of the service answer the opposite of success: \<open>_init\<close> is false
  exactly when a module is installed, and \<open>_set_on\<close> and \<open>_set_off\<close> are false exactly when there is a
  device and it accepted the number; without a device and for a refused number they are true (255).
\<close>

lemma jni_answers_inverted:
  assumes "wf_leds s" "fst (ho_malloc P (pworld s))"
    "m = (if on then mokoid_setOn P led else mokoid_setOff P led)" "hal_loads hw_get_module installed"
  shows "res_of (mokoid_init P hw_get_module) s = Some (if installed = None then 255 else 0) \<and>
    (case sLedDevice s of
       None \<Rightarrow> run_state m s = (Some 255, s)
     | Some p \<Rightarrow> \<exists>b d. heap_get (leds s) p = Some d \<and> made_by b d \<and>
         res_of m s = Some (if switch_answer b led = 0 then 0 else 255) \<and>
         ptrace (end_of m s) = ptrace s @ switch_events b (d_fd d) on led)"
proof -
  have "res_of (mokoid_init P hw_get_module) s = Some (if installed = None then 255 else 0)"
  proof (cases installed)
    case (Some b)
    note found = hal_loads_SomeD [OF assms(4) [unfolded Some]]
    obtain w1 where m: "ho_malloc P (pworld s) = (True, w1)" using assms(2) by (metis prod.collapse)
    obtain fd w2 where o: "ho_open P (led_path b) w1 = (fd, w2)" by fastforce
    show ?thesis using Some by (simp add: mokoid_init_def found led_control_open_run [OF m o])
  next
    case None
    then show ?thesis using hal_loads_NoneD [OF assms(4) [unfolded None]] by (simp add: mokoid_init_def case_prod_beta)
  qed
  moreover have m: "m = do { r \<leftarrow> led_module.guarded P on led; State_Monad.return (map_option (\<lambda>v. ucast v) r) }"
    using assms(3) by (cases on) (simp_all only: mokoid_calls_guarded if_True if_False)
  have "case sLedDevice s of
       None \<Rightarrow> run_state m s = (Some 255, s)
     | Some p \<Rightarrow> \<exists>b d. heap_get (leds s) p = Some d \<and> made_by b d \<and>
         res_of m s = Some (if switch_answer b led = 0 then 0 else 255) \<and>
         ptrace (end_of m s) = ptrace s @ switch_events b (d_fd d) on led"
  proof (cases "sLedDevice s")
    case None
    then show ?thesis unfolding m by (simp add: led_module.guarded_def minus_one_byte)
  next
    case (Some p)
    obtain b d where d: "heap_get (leds s) p = Some d" "made_by b d"
      using wf_leds_device [OF assms(1) Some] by blast
    have "(ucast (switch_answer b led) :: 8 word) = (if switch_answer b led = 0 then 0 else 255)"
      by (cases b) (simp_all add: minus_one_byte)
    then show ?thesis
      using Some d switch_led_run(1,2) [OF d, of P on led] unfolding m
      by (auto simp: led_module.guarded_def case_prod_beta simp del: switch_events.simps switch_answer.simps)
  qed
  ultimately show ?thesis by blast
qed

lemma wf_one_led: "wf_leds (one_led b)"
  by (auto simp: wf_leds_def one_led_def heap_get_def intro: exI [of _ b])

lemma jni_answers_inverted_witness:
  "res_of (mokoid_init (bench_hal 3) (\<lambda>hw_id. (- 2, None))) (one_led Dma6410xp_Board) = Some (if (None :: board option) = None then 255 else 0) \<and>
   (case sLedDevice (one_led Dma6410xp_Board) of
      None \<Rightarrow> run_state (mokoid_setOn (bench_hal 3) 9) (one_led Dma6410xp_Board) = (Some 255, one_led Dma6410xp_Board)
    | Some p \<Rightarrow> \<exists>b d. heap_get (leds (one_led Dma6410xp_Board)) p = Some d \<and> made_by b d \<and>
        res_of (mokoid_setOn (bench_hal 3) 9) (one_led Dma6410xp_Board) = Some (if switch_answer b 9 = 0 then 0 else 255) \<and>
        ptrace (end_of (mokoid_setOn (bench_hal 3) 9) (one_led Dma6410xp_Board)) =
          ptrace (one_led Dma6410xp_Board) @ switch_events b (d_fd d) True 9)"
  by (rule jni_answers_inverted [OF wf_one_led, where on = True]) (simp_all add: bench_hal_def hal_loads_def)

text \<open>
  Loading a native library answers the JNI version whenever there is an environment, also when its
  class was not found or its methods were refused and nothing has been registered; the methods are
  registered exactly when both succeed, and \<open>-1\<close> is answered only without an environment.
\<close>

lemma JNI_OnLoad_ignores_failure:
  "(OnLoad, cls, tab) \<in> {(JNI_OnLoad_server, ''com/mokoid/server/LedService'', gMethods_server),
      (JNI_OnLoad_led, ''mokoid/hardware/Led'', gMethods_led),
      (JNI_OnLoad_hello, ''com/mokoid/MokoidHello'', gMethods_hello)} \<Longrightarrow>
   OnLoad E reg = (if get_env E then 65540 else - 1,
     if get_env E \<and> find_class E cls \<and> register_natives E cls tab then reg @ [(cls, tab)] else reg)"
  by (auto simp: JNI_OnLoad_server_def JNI_OnLoad_led_def JNI_OnLoad_hello_def JNI_VERSION_1_4_def
      registerMethods_server_def registerMethods_led_def registerMethods_hello_def Let_def)

lemma JNI_OnLoad_ignores_failure_witness:
  "JNI_OnLoad_led \<lparr>get_env = True, find_class = (\<lambda>c. False), register_natives = (\<lambda>c t. True)\<rparr> [] = (65540, [])"
  using JNI_OnLoad_ignores_failure [of JNI_OnLoad_led "''mokoid/hardware/Led''" gMethods_led
      "\<lparr>get_env = True, find_class = (\<lambda>c. False), register_natives = (\<lambda>c t. True)\<rparr>" "[]"] by simp

text \<open>
  The Java client is killed by \<open>LedOn\<close> before its constructor has got the service; afterwards
  \<open>LedOn\<close> makes one call of the service, answers true whatever the service answered, and keeps
  the service it has; \<open>LedOff\<close> answers true and does nothing at all.
\<close>

lemma java_client_calls:
  "(mLedService s = None \<longrightarrow> jni_led_on setOn led s = None) \<and>
   (led_init lookup sleep s = Some (r, s1) \<longrightarrow>
      r = 255 \<and> (\<exists>b. mLedService s1 = Some b \<and> (mLedService s = None \<or> mLedService s = Some b \<and> s1 = s) \<and>
        jni_led_on setOn led s1 = Some (255, s1\<lparr>cworld := snd (setOn b led (cworld s1))\<rparr>))) \<and>
   jni_led_off led s = Some (255, s)"
  by (auto simp: jni_led_on_def jni_led_off_def led_init_def getLedService_jni_def split: option.splits prod.splits)

lemma java_client_calls_witness:
  "jni_led_on (\<lambda>b led w. (0, w + 1)) 2 \<lparr>cworld = (0::nat), mLedService = (None :: string option)\<rparr> = None \<and>
   jni_led_on (\<lambda>b led w. (0, w + 1)) 2 \<lparr>cworld = (0::nat), mLedService = Some ''mokoid.led''\<rparr> =
     Some (255, \<lparr>cworld = 1, mLedService = Some ''mokoid.led''\<rparr>)"
proof -
  let ?s = "\<lparr>cworld = (0::nat), mLedService = (None :: string option)\<rparr>"
  let ?t = "\<lparr>cworld = (0::nat), mLedService = Some ''mokoid.led''\<rparr>"
  have "led_init (\<lambda>w. (Some ''x'', w)) Suc ?t = Some (255, ?t)"
    by (simp add: led_init_def getLedService_jni_def)
  then show ?thesis
    using java_client_calls [of ?s "\<lambda>b led w. (0, w + 1)" 2]
      java_client_calls [of ?t "\<lambda>b led w. (0, w + 1)" 2 "\<lambda>w. (Some ''x'', w)" Suc 255 ?t] by simp
qed

end
