(* ===== verification/LedStack.thy ===== *)
theory LedStack
  imports LedJni
begin

text \<open>
  The two ways a Java class has to a LED, from the native method down to the requests the driver
  receives: over the native binder service (\<open>mokoid.hardware.Led\<close>: \<open>mokoid_hardware_Led.cpp\<close>,
  \<open>LedService.cpp\<close>, the module), and over the Java service that loads the module itself
  (\<open>com.mokoid.server.LedService\<close>: \<open>com_mokoid_server_LedService.cpp\<close>, the module).  Both are run
  on the same calls: pairs of on or off and a number.
\<close>

section \<open>The two stacks\<close>

text \<open>
  The Java client on the server's process as its world: a call of the proxy is a transaction
  there.
\<close>

fun native_stack ::
  "'p led_parcel \<Rightarrow> ('w led_proc, 'p) led_transport \<Rightarrow> (bool \<times> cint) list \<Rightarrow>
     ('b, 'w led_proc) led_client \<Rightarrow> (jboolean list \<times> ('b, 'w led_proc) led_client) option" where
  "native_stack L transact [] c = Some ([], c)"
| "native_stack L transact ((on, led) # cmds) c =
     (case (if on then jni_led_on (\<lambda>_ n. run_state (bp_led_setOn L transact n)) led c else jni_led_off led c) of
        None \<Rightarrow> None
      | Some (r, c') \<Rightarrow> map_option (\<lambda>(rs, c''). (r # rs, c'')) (native_stack L transact cmds c'))"

text \<open>The Java service in one process with the module.\<close>

fun java_stack :: "'w hal_platform \<Rightarrow> (bool \<times> cint) list \<Rightarrow> ('w led_proc, jboolean option list) state" where
  "java_stack P [] = State_Monad.return []"
| "java_stack P ((on, led) # cmds) = do {
     r \<leftarrow> (if on then mokoid_setOn P led else mokoid_setOff P led);
     rs \<leftarrow> java_stack P cmds;
     State_Monad.return (r # rs) }"

section \<open>Their runs\<close>

lemma bp_led_setOn_run:
  assumes "led_parcel_laws L" "led_delivers L (led_onTransact L ptr_int (LedService P) parent) transact"
    "sLedDevice s = Some p" "heap_get (leds s) p = Some d" "made_by Dma6410xp_Board d"
  shows "run_state (bp_led_setOn L transact led) s = (0, s)"
proof -
  have "run_state (set_on P p 0) s = (Some (- 1), s)"
    using assms(4,5) by (simp add: set_on_def led_device_at_def made_by_def led_fn_defs LED_C608_def LED_C609_def)
  then show ?thesis
    using assms(3) bp_led_setOn_service [OF assms(1,2)] by (simp add: LedService_def LedService_setOn_def)
qed

lemma native_stack_run:
  assumes "led_parcel_laws L" "led_delivers L (led_onTransact L ptr_int (LedService P) parent) transact"
    "sLedDevice (cworld c) = Some p" "heap_get (leds (cworld c)) p = Some d" "made_by Dma6410xp_Board d"
    "mLedService c \<noteq> None"
  shows "native_stack L transact cmds c = Some (map (\<lambda>_. 255) cmds, c)"
proof (induction cmds)
  case (Cons x cmds)
  obtain on led where x: "x = (on, led)" by fastforce
  obtain b where b: "mLedService c = Some b" using assms(6) by blast
  have "run_state (bp_led_setOn L transact led) (cworld c) = (0, cworld c)"
    by (rule bp_led_setOn_run [OF assms(1-5)])
  then show ?case by (simp add: x b Cons.IH jni_led_on_def jni_led_off_def)
qed simp

lemma java_switch_run:
  fixes P :: "'w hal_platform" and on :: bool and led :: cint
  assumes "sLedDevice s = Some p" "heap_get (leds s) p = Some d" "made_by Dma6410xp_Board d"
  defines "m \<equiv> (if on then mokoid_setOn P led else mokoid_setOff P led)"
  shows "res_of m s = Some (if led \<in> {1, 2} then 0 else 255)"
    "lights (d_fd d) (ptrace (end_of m s)) = spec_switch (on, led) (lights (d_fd d) (ptrace s))"
    "sLedDevice (end_of m s) = Some p" "heap_get (leds (end_of m s)) p = Some d"
proof -
  have m: "m = do { r \<leftarrow> led_module.guarded P on led; State_Monad.return (map_option (\<lambda>v. ucast v) r) }"
    unfolding m_def by (cases on) (simp_all only: mokoid_calls_guarded if_True if_False)
  note run = switch_led_run [OF assms(2,3), of P on led]
  show "res_of m s = Some (if led \<in> {1, 2} then 0 else 255)"
    using run(1) assms(1)
    by (simp add: m led_module.guarded_def case_prod_beta minus_one_byte LED_C608_def LED_C609_def)
  show "lights (d_fd d) (ptrace (end_of m s)) = spec_switch (on, led) (lights (d_fd d) (ptrace s))"
    using assms(1) by (simp add: m led_module.guarded_def case_prod_beta run(2) lights_switch
        del: switch_events.simps spec_switch.simps)
  show "sLedDevice (end_of m s) = Some p" "heap_get (leds (end_of m s)) p = Some d"
    using assms(1,2) run(3,4) by (simp_all add: m led_module.guarded_def case_prod_beta)
qed

section \<open>The property\<close>

text \<open>
  C16: On a \<open>dma6410xp\<close> board whose device is open, the two Java interfaces to the LEDs are not the same.
  Through the Java service any sequence of calls leaves the lights as the specification of the two
  lamps does.  Through the native service the same calls all answer true and the driver receives
  nothing: no light ever changes, whatever is called.
\<close>

lemma led_stacks_differ:
  assumes "led_parcel_laws L" "led_delivers L (led_onTransact L ptr_int (LedService P) parent) transact"
    "sLedDevice s = Some p" "heap_get (leds s) p = Some d" "made_by Dma6410xp_Board d"
  shows "native_stack L transact cmds \<lparr>cworld = s, mLedService = Some b\<rparr> =
      Some (map (\<lambda>_. 255) cmds, \<lparr>cworld = s, mLedService = Some b\<rparr>) \<and>
    lights (d_fd d) (ptrace (end_of (java_stack P cmds) s)) = fold spec_switch cmds (lights (d_fd d) (ptrace s)) \<and>
    res_of (java_stack P cmds) s = map (\<lambda>(on, led). Some (if led \<in> {1, 2} then 0 else 255)) cmds"
proof -
  have "native_stack L transact cmds \<lparr>cworld = s, mLedService = Some b\<rparr> =
      Some (map (\<lambda>_. 255) cmds, \<lparr>cworld = s, mLedService = Some b\<rparr>)"
    using assms by (intro native_stack_run) simp_all
  moreover have "lights (d_fd d) (ptrace (end_of (java_stack P cmds) s)) = fold spec_switch cmds (lights (d_fd d) (ptrace s)) \<and>
      res_of (java_stack P cmds) s = map (\<lambda>(on, led). Some (if led \<in> {1, 2} then 0 else 255)) cmds"
    using assms(3,4)
  proof (induction cmds arbitrary: s)
    case (Cons x cmds)
    obtain on led where x: "x = (on, led)" by fastforce
    note run = java_switch_run [OF Cons.prems assms(5), where on = on and led = led and P = P]
    show ?case using Cons.IH [OF run(3,4)] run(1,2)
      by (simp add: x case_prod_beta del: spec_switch.simps)
  qed simp
  ultimately show ?thesis by blast
qed

lemma led_stacks_differ_witness:
  "native_stack list_led_parcel led_bench_transport [(True, 1), (False, 2)] \<lparr>cworld = one_led Dma6410xp_Board, mLedService = Some ()\<rparr> =
     Some ([255, 255], \<lparr>cworld = one_led Dma6410xp_Board, mLedService = Some ()\<rparr>) \<and>
   lights 3 (ptrace (end_of (java_stack (bench_hal 3) [(True, 1), (False, 2)]) (one_led Dma6410xp_Board))) 1 \<and>
   res_of (java_stack (bench_hal 3) [(True, 1), (False, 2)]) (one_led Dma6410xp_Board) = [Some 0, Some 0]"
proof -
  have dev: "sLedDevice (one_led Dma6410xp_Board) = Some 0" by (simp add: one_led_def)
  show ?thesis
    using led_stacks_differ [OF list_led_parcel_laws led_local_delivers dev one_led_device made_by_opened(1),
        where cmds = "[(True, 1), (False, 2)]" and b = "()"] by auto
qed

end
