(* ===== verification/LedInit.thy ===== *)
theory LedInit
  imports LedProps
begin

text \<open>
  \<open>led_init\<close> of \<open>mokoid_hardware_Led.cpp\<close> called by several threads, each as often as it likes.
  \<open>getLedService\<close> looks at the pointer, polls the service manager and sets the pointer one after the other,
  and nothing keeps two threads apart (\<open>TODO need Mutex\<close>).  It returns a reference to the pointer, so
  the assignment in \<open>led_init\<close> copies the pointer onto itself, in a read and a write.
  \<open>answers\<close> says which services the manager may give; it may refuse at any time.
\<close>

datatype 'b init_at =
    Idle                \<comment> \<open>not in a call\<close>
  | Asking              \<comment> \<open>the pointer was null: in the loop\<close>
  | Got 'b              \<comment> \<open>before the pointer is set\<close>
  | Returned            \<comment> \<open>back in \<open>led_init\<close>\<close>
  | Holding "'b option" \<comment> \<open>what the assignment has read\<close>

record 'b init_state =
  pointer :: "'b option"
  place :: "nat \<Rightarrow> 'b init_at"
  asked_for :: "(nat \<times> 'b option) list"   \<comment> \<open>who has asked the manager, and its answers\<close>

inductive init_step :: "('b \<Rightarrow> bool) \<Rightarrow> 'b init_state \<Rightarrow> 'b init_state \<Rightarrow> bool" for answers where
  init_cached: "place s t = Idle \<Longrightarrow> pointer s = Some b \<Longrightarrow>
     init_step answers s (s\<lparr>place := (place s)(t := Returned)\<rparr>)"
| init_null: "place s t = Idle \<Longrightarrow> pointer s = None \<Longrightarrow>
     init_step answers s (s\<lparr>place := (place s)(t := Asking)\<rparr>)"
| init_refused: "place s t = Asking \<Longrightarrow>
     init_step answers s (s\<lparr>asked_for := asked_for s @ [(t, None)]\<rparr>)"
| init_found: "place s t = Asking \<Longrightarrow> answers b \<Longrightarrow>
     init_step answers s (s\<lparr>place := (place s)(t := Got b), asked_for := asked_for s @ [(t, Some b)]\<rparr>)"
| init_store: "place s t = Got b \<Longrightarrow>
     init_step answers s (s\<lparr>pointer := Some b, place := (place s)(t := Returned)\<rparr>)"
| init_read: "place s t = Returned \<Longrightarrow>
     init_step answers s (s\<lparr>place := (place s)(t := Holding (pointer s))\<rparr>)"
| init_assign: "place s t = Holding p \<Longrightarrow>
     init_step answers s (s\<lparr>pointer := p, place := (place s)(t := Idle)\<rparr>)"

inductive_cases init_stepE: "init_step answers s s'"

definition init_start :: "'b init_state \<Rightarrow> bool" where
  "init_start s \<longleftrightarrow> pointer s = None \<and> (\<forall>t. place s t = Idle) \<and> asked_for s = []"

section \<open>One thread alone does what the functions do\<close>

lemma init_poll:
  "place s t = Asking \<Longrightarrow> (init_step answers)\<^sup>*\<^sup>* s (s\<lparr>asked_for := asked_for s @ replicate n (t, None)\<rparr>)"
proof (induction n)
  case (Suc n)
  let ?s = "s\<lparr>asked_for := asked_for s @ replicate n (t, None)\<rparr>"
  have "init_step answers ?s (?s\<lparr>asked_for := asked_for ?s @ [(t, None)]\<rparr>)"
    by (rule init_refused) (use Suc.prems in simp)
  with Suc.IH [OF Suc.prems] show ?case
    by (simp add: replicate_append_same rtranclp.rtrancl_into_rtrancl)
qed simp

text \<open>The assignment of the pointer to itself.\<close>

lemma init_finish:
  assumes "place s t = Returned"
  shows "(init_step answers)\<^sup>*\<^sup>* s (s\<lparr>place := (place s)(t := Idle)\<rparr>)"
proof -
  let ?s1 = "s\<lparr>place := (place s)(t := Holding (pointer s))\<rparr>"
  have "init_step answers s ?s1" by (rule init_read) fact
  moreover have "init_step answers ?s1 (s\<lparr>place := (place s)(t := Idle)\<rparr>)"
    using init_assign [of ?s1 t "pointer s"] by simp
  ultimately show ?thesis by (auto intro: rtranclp.rtrancl_into_rtrancl)
qed

text \<open>
  A call that returns when no other thread interferes: the pointer it leaves is the one
  \<open>getLedService\<close> computes, and it has asked once for each of its sleeps and once more.
\<close>

lemma alone_is_led_init:
  assumes "getLedService lookup sleep (pointer s) w = Some ((b, cached), w')" "place s t = Idle"
    and "\<And>w b. fst (lookup w) = Some b \<Longrightarrow> answers b"
  shows "\<exists>s' asks. (init_step answers)\<^sup>*\<^sup>* s s' \<and> place s' = place s \<and> pointer s' = cached \<and>
    asked_for s' = asked_for s @ asks \<and>
    (case pointer s of
       Some p \<Rightarrow> asks = []
     | None \<Rightarrow> (\<exists>n. wait_service lookup sleep 0 w = Some ((b, n), w') \<and> asks = replicate n (t, None) @ [(t, Some b)]))"
proof (cases "pointer s")
  case (Some p)
  let ?s1 = "s\<lparr>place := (place s)(t := Returned)\<rparr>"
  have "cached = Some p" using assms(1) Some by (auto simp: getLedService_def)
  moreover have "init_step answers s ?s1" by (rule init_cached) fact+
  moreover have "(init_step answers)\<^sup>*\<^sup>* ?s1 (?s1\<lparr>place := (place ?s1)(t := Idle)\<rparr>)" by (rule init_finish) simp
  moreover have "place (?s1\<lparr>place := (place ?s1)(t := Idle)\<rparr>) = place s" using assms(2) by auto
  ultimately show ?thesis using Some
    by (intro exI [of _ "?s1\<lparr>place := (place ?s1)(t := Idle)\<rparr>"] exI [of _ "[]"]) (auto intro: converse_rtranclp_into_rtranclp)
next
  case None
  then obtain n where n: "wait_service lookup sleep 0 w = Some ((b, n), w')" and cached: "cached = Some b"
    using assms(1) by (auto simp: getLedService_def split: option.splits)
  then have "answers b" using wait_service_answer assms(3) by metis
  let ?s1 = "s\<lparr>place := (place s)(t := Asking)\<rparr>"
  let ?s2 = "?s1\<lparr>asked_for := asked_for ?s1 @ replicate n (t, None)\<rparr>"
  let ?s3 = "?s2\<lparr>place := (place ?s2)(t := Got b), asked_for := asked_for ?s2 @ [(t, Some b)]\<rparr>"
  let ?s4 = "?s3\<lparr>pointer := Some b, place := (place ?s3)(t := Returned)\<rparr>"
  let ?s5 = "?s4\<lparr>place := (place ?s4)(t := Idle)\<rparr>"
  have "init_step answers s ?s1" by (rule init_null) fact+
  moreover have "(init_step answers)\<^sup>*\<^sup>* ?s1 ?s2" by (rule init_poll) simp
  moreover have "init_step answers ?s2 ?s3" by (rule init_found) (simp, fact)
  moreover have "init_step answers ?s3 ?s4" by (rule init_store) simp
  moreover have "(init_step answers)\<^sup>*\<^sup>* ?s4 ?s5" by (rule init_finish) simp
  ultimately have "(init_step answers)\<^sup>*\<^sup>* s ?s5"
    by (meson converse_rtranclp_into_rtranclp rtranclp.rtrancl_into_rtrancl rtranclp_trans)
  moreover have "place ?s5 = place s" using assms(2) by auto
  ultimately show ?thesis using cached n None
    by (intro exI [of _ ?s5] exI [of _ "replicate n (t, None) @ [(t, Some b)]"]) simp
qed

section \<open>What always holds\<close>

definition asking :: "'b init_at \<Rightarrow> bool" where
  "asking q \<longleftrightarrow> q = Asking \<or> (\<exists>b. q = Got b)"

definition found :: "(nat \<times> 'b option) list \<Rightarrow> (nat \<times> 'b) list" where
  "found es = concat (map (\<lambda>(t, r). case r of None \<Rightarrow> [] | Some b \<Rightarrow> [(t, b)]) es)"

lemma found_simps [simp]:
  "found [] = []" "found (es @ [(t, None)]) = found es" "found (es @ [(t, Some b)]) = found es @ [(t, b)]"
  by (simp_all add: found_def)

definition init_inv :: "('b \<Rightarrow> bool) \<Rightarrow> 'b init_state \<Rightarrow> bool" where
  "init_inv answers s \<longleftrightarrow>
     (\<forall>t. place s t = Returned \<longrightarrow> pointer s \<noteq> None) \<and>
     (\<forall>t p. place s t = Holding p \<longrightarrow> pointer s \<noteq> None \<and> p \<noteq> None \<and> the p \<in> snd ` set (found (asked_for s))) \<and>
     (\<forall>t b. place s t = Got b \<longrightarrow> (t, b) \<in> set (found (asked_for s))) \<and>
     (\<forall>b. pointer s = Some b \<longrightarrow> b \<in> snd ` set (found (asked_for s))) \<and>
     (\<forall>t \<in> fst ` set (found (asked_for s)). place s t \<noteq> Asking \<and> (pointer s \<noteq> None \<or> (\<exists>b. place s t = Got b))) \<and>
     distinct (map fst (found (asked_for s))) \<and> (\<forall>(t, b) \<in> set (found (asked_for s)). answers b)"

interpretation any_inits: step_system init_start "init_step answers" "init_inv answers" for answers
proof unfold_locales
  show "init_inv answers s" if "init_start s" for s
    using that by (simp add: init_inv_def init_start_def)
  show "init_inv answers s'" if inv: "init_inv answers s" and step: "init_step answers s s'" for s s'
    using step
  proof (cases rule: init_step.cases)
    case (init_found t b)
    have "t \<notin> fst ` set (found (asked_for s))" using inv init_found(2) by (auto simp: init_inv_def)
    then show ?thesis using init_found inv unfolding init_inv_def by auto
  next
    case (init_store t b)
    have "(t, b) \<in> set (found (asked_for s))" using inv init_store(2) unfolding init_inv_def by blast
    then have "b \<in> snd ` set (found (asked_for s))" by (metis image_eqI snd_conv)
    then show ?thesis using inv unfolding init_store init_inv_def by simp
  next
    case (init_assign t p)
    then obtain b where "p = Some b" "b \<in> snd ` set (found (asked_for s))"
      using inv unfolding init_inv_def by (metis option.collapse)
    then show ?thesis using inv unfolding init_assign(1) init_inv_def by simp
  qed (use inv in \<open>auto simp: init_inv_def split: if_splits\<close>)
qed

text \<open>A pointer that is set stays set, and whoever is not in the loop by then never asks.\<close>

lemma init_set_step:
  assumes "init_inv answers s" "init_step answers s s'" "pointer s \<noteq> None"
  shows "pointer s' \<noteq> None"
    and "\<not> asking (place s t) \<Longrightarrow> \<not> asking (place s' t) \<and> filter (\<lambda>e. fst e = t) (asked_for s') = filter (\<lambda>e. fst e = t) (asked_for s)"
  using assms(2,1,3) by (cases rule: init_step.cases; auto simp: init_inv_def asking_def)+

lemma init_set:
  assumes "(init_step answers)\<^sup>*\<^sup>* s s'" "reach init_start (init_step answers) s" "pointer s \<noteq> None"
  shows "pointer s' \<noteq> None \<and> (\<not> asking (place s t) \<longrightarrow>
    \<not> asking (place s' t) \<and> filter (\<lambda>e. fst e = t) (asked_for s') = filter (\<lambda>e. fst e = t) (asked_for s))"
proof -
  have "reach init_start (init_step answers) s' \<and> pointer s' \<noteq> None \<and> (\<not> asking (place s t) \<longrightarrow>
    \<not> asking (place s' t) \<and> filter (\<lambda>e. fst e = t) (asked_for s') = filter (\<lambda>e. fst e = t) (asked_for s))"
    using assms(1)
  proof (induction rule: rtranclp_induct)
    case (step y z)
    have "init_inv answers y" using step.IH any_inits.inv_reach by blast
    then show ?case using init_set_step [of answers y z] step reach_step by metis
  qed (use assms(2,3) in simp)
  then show ?thesis by blast
qed

section \<open>The race\<close>

text \<open>Two threads that both saw the null pointer and have both been answered.\<close>

lemma both_asked:
  assumes "t \<noteq> u" "answers b" "answers c"
  shows "reach init_start (init_step answers) \<lparr>pointer = None, place = (\<lambda>_. Idle)(t := Got b, u := Got c),
    asked_for = [(t, Some b), (u, Some c)]\<rparr>"
proof -
  let ?s0 = "\<lparr>pointer = None, place = \<lambda>_. Idle, asked_for = []\<rparr>"
  let ?s1 = "?s0\<lparr>place := (place ?s0)(t := Asking)\<rparr>"
  let ?s2 = "?s1\<lparr>place := (place ?s1)(u := Asking)\<rparr>"
  let ?s3 = "?s2\<lparr>place := (place ?s2)(t := Got b), asked_for := asked_for ?s2 @ [(t, Some b)]\<rparr>"
  let ?s4 = "?s3\<lparr>place := (place ?s3)(u := Got c), asked_for := asked_for ?s3 @ [(u, Some c)]\<rparr>"
  have "reach init_start (init_step answers) ?s0" by (rule reach_start) (simp add: init_start_def)
  then have "reach init_start (init_step answers) ?s1" by (rule reach_step) (rule init_null, simp_all)
  then have "reach init_start (init_step answers) ?s2"
    by (rule reach_step) (rule init_null, use assms(1) in simp_all)
  then have "reach init_start (init_step answers) ?s3"
    by (rule reach_step) (rule init_found, use assms in simp_all)
  then have "reach init_start (init_step answers) ?s4"
    by (rule reach_step) (rule init_found, use assms in simp_all)
  moreover have "place ?s4 = (\<lambda>_. Idle)(t := Got b, u := Got c)" using assms(1) by (auto simp: fun_eq_iff)
  ultimately show ?thesis by simp
qed

text \<open>The first has its pointer set and read for the assignment when the second sets the pointer.\<close>

lemma pointer_replaced:
  assumes tu: "t \<noteq> u" "answers b" "answers c"
  shows "\<exists>s1 s2 s3. reach init_start (init_step answers) s1 \<and> place s1 t = Holding (Some b) \<and> pointer s1 = Some b \<and>
    init_step answers s1 s2 \<and> pointer s2 = Some c \<and>
    init_step answers s2 s3 \<and> place s3 t = Idle \<and> place s3 u = Returned \<and> pointer s3 = Some b \<and>
    asked_for s3 = [(t, Some b), (u, Some c)]"
proof -
  let ?s4 = "\<lparr>pointer = None, place = (\<lambda>_. Idle)(t := Got b, u := Got c), asked_for = [(t, Some b), (u, Some c)]\<rparr>"
  let ?s5 = "?s4\<lparr>pointer := Some b, place := (place ?s4)(t := Returned)\<rparr>"
  let ?s6 = "?s5\<lparr>place := (place ?s5)(t := Holding (pointer ?s5))\<rparr>"
  let ?s7 = "?s6\<lparr>pointer := Some c, place := (place ?s6)(u := Returned)\<rparr>"
  let ?s8 = "?s7\<lparr>pointer := Some b, place := (place ?s7)(t := Idle)\<rparr>"
  have "reach init_start (init_step answers) ?s4" by (rule both_asked) (use tu in simp_all)
  then have "reach init_start (init_step answers) ?s5" by (rule reach_step) (rule init_store, use tu in simp)
  then have "reach init_start (init_step answers) ?s6" by (rule reach_step) (rule init_read, simp)
  moreover have "init_step answers ?s6 ?s7" by (rule init_store) (use tu in simp)
  moreover have "init_step answers ?s7 ?s8" by (rule init_assign) (use tu in simp)
  moreover have "place ?s6 t = Holding (Some b)" "pointer ?s6 = Some b" "pointer ?s7 = Some c" "place ?s8 t = Idle"
      "place ?s8 u = Returned" "pointer ?s8 = Some b" "asked_for ?s8 = [(t, Some b), (u, Some c)]"
    using tu by simp_all
  ultimately show ?thesis by blast
qed

lemma led_pointer_kept:
  assumes s: "reach init_start (init_step answers) s"
  shows "(\<forall>b. pointer s = Some b \<longrightarrow> answers b \<and> b \<in> snd ` set (found (asked_for s))) \<and>
    distinct (map fst (found (asked_for s))) \<and>
    (\<forall>s' v. pointer s \<noteq> None \<and> (init_step answers)\<^sup>*\<^sup>* s s' \<longrightarrow> pointer s' \<noteq> None \<and>
      (\<not> asking (place s v) \<longrightarrow>
         filter (\<lambda>e. fst e = v) (asked_for s') = filter (\<lambda>e. fst e = v) (asked_for s)))"
proof -
  have inv: "init_inv answers s" by (rule any_inits.inv_reach [OF s])
  then have "\<forall>b. pointer s = Some b \<longrightarrow> answers b \<and> b \<in> snd ` set (found (asked_for s))"
    unfolding init_inv_def by fastforce
  moreover have "distinct (map fst (found (asked_for s)))" using inv by (simp add: init_inv_def)
  ultimately show ?thesis using init_set [OF _ s] by blast
qed

text \<open>
  C34: However many threads call \<open>led_init\<close>, however often, and however many of the manager's answers are
  refusals: the pointer is always a service the manager gave some thread, no thread is given a service twice, and
  from when the pointer is set it stays set and a thread that is not in the loop by then never asks again.
  But two threads that were in the loop are both given a service, and then the pointer changes under whoever works with
  it: the one of the first is replaced by that of the second, and the assignment of the first, which copies the
  pointer onto itself, puts its own back.
\<close>

lemma led_pointer_race:
  "(\<forall>s. reach init_start (init_step answers) s \<longrightarrow>
      (\<forall>b. pointer s = Some b \<longrightarrow> answers b \<and> b \<in> snd ` set (found (asked_for s))) \<and>
      distinct (map fst (found (asked_for s))) \<and>
      (\<forall>s' v. pointer s \<noteq> None \<and> (init_step answers)\<^sup>*\<^sup>* s s' \<longrightarrow> pointer s' \<noteq> None \<and>
        (\<not> asking (place s v) \<longrightarrow>
           filter (\<lambda>e. fst e = v) (asked_for s') = filter (\<lambda>e. fst e = v) (asked_for s)))) \<and>
   (t \<noteq> u \<and> answers b \<and> answers c \<longrightarrow>
      (\<exists>s1 s2 s3. reach init_start (init_step answers) s1 \<and> place s1 t = Holding (Some b) \<and> pointer s1 = Some b \<and>
        init_step answers s1 s2 \<and> pointer s2 = Some c \<and>
        init_step answers s2 s3 \<and> place s3 t = Idle \<and> place s3 u = Returned \<and> pointer s3 = Some b \<and>
        asked_for s3 = [(t, Some b), (u, Some c)]))"
proof (intro conjI [OF _ impI])
  show "\<forall>s. reach init_start (init_step answers) s \<longrightarrow>
      (\<forall>b. pointer s = Some b \<longrightarrow> answers b \<and> b \<in> snd ` set (found (asked_for s))) \<and>
      distinct (map fst (found (asked_for s))) \<and>
      (\<forall>s' v. pointer s \<noteq> None \<and> (init_step answers)\<^sup>*\<^sup>* s s' \<longrightarrow> pointer s' \<noteq> None \<and>
        (\<not> asking (place s v) \<longrightarrow>
           filter (\<lambda>e. fst e = v) (asked_for s') = filter (\<lambda>e. fst e = v) (asked_for s)))"
    using led_pointer_kept by blast
next
  assume "t \<noteq> u \<and> answers b \<and> answers c"
  then show "\<exists>s1 s2 s3. reach init_start (init_step answers) s1 \<and> place s1 t = Holding (Some b) \<and> pointer s1 = Some b \<and>
        init_step answers s1 s2 \<and> pointer s2 = Some c \<and>
        init_step answers s2 s3 \<and> place s3 t = Idle \<and> place s3 u = Returned \<and> pointer s3 = Some b \<and>
        asked_for s3 = [(t, Some b), (u, Some c)]"
    by (elim conjE) (rule pointer_replaced)
qed

lemma led_pointer_race_witness:
  "\<exists>s1 s2. reach init_start (init_step (\<lambda>_. True)) s1 \<and> pointer s1 = Some ''old'' \<and>
     init_step (\<lambda>_. True) s1 s2 \<and> pointer s2 = Some ''new''"
  using led_pointer_race [where t = 0 and u = 1 and b = "''old''" and c = "''new''" and answers = "\<lambda>_. True"] by auto

end
