(* ===== verification/Sensors.thy ===== *)
theory Sensors
  imports Hal CFloat
begin

text \<open>
  The acceleration sensor module (\<open>hardware/modules/sensors/sensors.cpp\<close>): its two devices, the
  control device that opens the sensor and the data device that is polled, the descriptor and
  the delay they share in global variables, and the handle the first passes to the second.

  \<open>GRAVITY_EARTH\<close> comes from \<open>hardware/sensors.h\<close> and is the argument \<open>g\<close>, a \<open>float\<close>.  A finite
  floating-point value is the rational it stands for (the sign of a zero is not kept); each operation rounds
  its exact result, to 53 bits in \<open>double\<close> and to 24 in \<open>float\<close>.  The names
  \<open>SENSORS_HARDWARE_CONTROL\<close> and \<open>SENSORS_HARDWARE_MODULE_ID\<close> have the values that header documents.
\<close>

datatype which_device = Control | Data

text \<open>
  \<open>sensors_context_t\<close> holds both device structures; \<open>sensors_device_open\<close> fills in one of them.  The
  address of a device is the context and which of its members is meant: the control device is the
  first member, the data device is not.
\<close>

datatype sensor_fn =
    Fn_open_data_source | Fn_activate | Fn_set_delay | Fn_wake
  | Fn_data_open | Fn_data_close | Fn_data_poll | Fn_sensors_device_close
  | Fn_sensors_device_open | Fn_to_get_sensors_list

record sensors_context_t =
  con_close :: "sensor_fn option"
  con_open_data_source :: "sensor_fn option"
  con_activate :: "sensor_fn option"
  con_set_delay :: "sensor_fn option"
  con_wake :: "sensor_fn option"
  dat_close :: "sensor_fn option"
  dat_data_open :: "sensor_fn option"
  dat_data_close :: "sensor_fn option"
  dat_poll :: "sensor_fn option"

definition zero_context :: sensors_context_t where
  "zero_context = \<lparr>con_close = None, con_open_data_source = None, con_activate = None, con_set_delay = None,
     con_wake = None, dat_close = None, dat_data_open = None, dat_data_close = None, dat_poll = None\<rparr>"

type_synonym device_ptr = "nat \<times> which_device"

text \<open>The process: contexts and native handles in the heap, and the two static variables.\<close>

record 'w sensors_proc = "'w proc" +
  contexts :: "sensors_context_t option list"
  handles :: "int option list"              \<comment> \<open>\<open>data[0]\<close> of each \<open>native_handle_t\<close>\<close>
  s_timeout :: cint
  sInputFD :: int

definition sensors_start :: "'w \<Rightarrow> 'w sensors_proc" where
  "sensors_start w = \<lparr>pworld = w, ptrace = [], contexts = [], handles = [], s_timeout = 0, sInputFD = - 1\<rparr>"

section \<open>The control device\<close>

definition sensors_fd :: string where "sensors_fd = ''/dev/lis302dl''"

text \<open>
  A null pointer as the result is \<open>Some None\<close>; without memory for the handle the process is killed.
\<close>

definition open_data_source :: "'w hal_platform \<Rightarrow> ('w sensors_proc, nat option option) state" where
  "open_data_source P = do {
     fd \<leftarrow> h_open P sensors_fd;
     if fd < 0 then State_Monad.return (Some None)
     else do {
       ok \<leftarrow> h_malloc P;
       if \<not> ok then State_Monad.return None
       else do {
         p \<leftarrow> preads (\<lambda>s. length (handles s));
         pset (\<lambda>s. s\<lparr>handles := handles s @ [Some fd]\<rparr>);
         State_Monad.return (Some (Some p)) }}}"

definition activate :: "cint \<Rightarrow> cint \<Rightarrow> ('w sensors_proc, cint) state" where
  "activate hnd enabled = State_Monad.return 0"

definition set_delay :: "cint \<Rightarrow> ('w sensors_proc, cint) state" where
  "set_delay ms = do {
     pset (\<lambda>s. s\<lparr>s_timeout := ms * 1000\<rparr>);
     State_Monad.return 0 }"

definition wake :: "('w sensors_proc, cint) state" where
  "wake = State_Monad.return 0"

section \<open>The data device\<close>

text \<open>\<open>native_handle_close\<close> closes the descriptor in the handle, \<open>native_handle_delete\<close> frees it.\<close>

definition data_open :: "'w hal_platform \<Rightarrow> nat option \<Rightarrow> ('w sensors_proc, cint option) state" where
  "data_open P hnd = deref hnd (\<lambda>p. do {
     h \<leftarrow> preads (\<lambda>s. heap_get (handles s) p);
     deref h (\<lambda>fd0. do {
       fd \<leftarrow> h_dup P fd0;
       pset (\<lambda>s. s\<lparr>sInputFD := fd\<rparr>);
       pemit (HClose fd0);
       pset (\<lambda>s. s\<lparr>handles := (handles s)[p := None]\<rparr>);
       State_Monad.return (Some 0) }) })"

definition data_close :: "('w sensors_proc, cint) state" where
  "data_close = do {
     fd \<leftarrow> preads sInputFD;
     pemit (HClose fd);
     State_Monad.return 0 }"

definition EWOULDBLOCK :: int where "EWOULDBLOCK = 11"

text \<open>\<open>ST_SENSITIVITY\<close> is a \<open>double\<close>; a byte of the sensor is a \<open>signed char\<close>.\<close>

definition ST_SENSITIVITY :: rat where
  "ST_SENSITIVITY = round53 (18 / 1000)"

definition axis :: "rat \<Rightarrow> int \<Rightarrow> rat" where
  "axis g value = round_bits 24 (round53 (round53 (round53 (of_int value * ST_SENSITIVITY) * g) * - 1))"

definition data_poll :: "'w hal_platform \<Rightarrow> rat \<Rightarrow> ('w sensors_proc, int \<times> (rat \<times> rat \<times> rat) option) state" where
  "data_poll P g = do {
     fd \<leftarrow> preads sInputFD;
     ret \<leftarrow> h_poll P fd;
     if ret < 0 then State_Monad.return (ret, None)
     else if ret = 0 then State_Monad.return (- EWOULDBLOCK, None)
     else do {
       delay \<leftarrow> preads s_timeout;
       pemit (HSleep (unat delay));
       (len, bytes) \<leftarrow> h_read P fd 3;
       let buff = take 3 bytes @ drop (length (take 3 bytes)) [0, 0, 0, 0];
       let X_value = sint (buff ! 0);
       let Y_value = sint (buff ! 1);
       let Z_value = sint (buff ! 2);
       State_Monad.return (0, Some (axis g Y_value, axis g X_value, axis g Z_value)) }}"

section \<open>The module\<close>

text \<open>
  The device that is made depends on the name; any other name than that of the control device gives
  the data device.
\<close>

definition SENSORS_HARDWARE_CONTROL :: string where "SENSORS_HARDWARE_CONTROL = ''control''"

definition sensors_device_open ::
  "'w hal_platform \<Rightarrow> string \<Rightarrow> ('w sensors_proc, (cint \<times> device_ptr) option) state" where
  "sensors_device_open P name = do {
     ok \<leftarrow> h_malloc P;
     if \<not> ok then State_Monad.return None
     else do {
       p \<leftarrow> preads (\<lambda>s. length (contexts s));
       if name = SENSORS_HARDWARE_CONTROL then do {
         pset (\<lambda>s. s\<lparr>contexts := contexts s @ [Some (zero_context\<lparr>
           con_close := Some Fn_sensors_device_close, con_open_data_source := Some Fn_open_data_source,
           con_activate := Some Fn_activate, con_set_delay := Some Fn_set_delay, con_wake := Some Fn_wake\<rparr>)]\<rparr>);
         State_Monad.return (Some (0, (p, Control))) }
       else do {
         pset (\<lambda>s. s\<lparr>contexts := contexts s @ [Some (zero_context\<lparr>
           dat_close := Some Fn_sensors_device_close, dat_data_open := Some Fn_data_open,
           dat_data_close := Some Fn_data_close, dat_poll := Some Fn_data_poll\<rparr>)]\<rparr>);
         State_Monad.return (Some (0, (p, Data))) }}}"

text \<open>
  \<open>free\<close> of a pointer: only the start of a live object may be freed.  The device pointer is cast to a
  context, which is where the control device starts and where the data device does not.
\<close>

definition free_context :: "device_ptr \<Rightarrow> ('w sensors_proc, unit option) state" where
  "free_context dev = do {
     c \<leftarrow> preads (\<lambda>s. heap_get (contexts s) (fst dev));
     if snd dev \<noteq> Control \<or> c = None then State_Monad.return None
     else do {
       pset (\<lambda>s. s\<lparr>contexts := (contexts s)[fst dev := None]\<rparr>);
       State_Monad.return (Some ()) }}"

definition sensors_device_close :: "device_ptr option \<Rightarrow> ('w sensors_proc, cint option) state" where
  "sensors_device_close dev =
     (case dev of
        None \<Rightarrow> State_Monad.return (Some 0)
      | Some d \<Rightarrow> do {
          r \<leftarrow> free_context d;
          deref r (\<lambda>_. State_Monad.return (Some 0)) })"

record sensor_t =
  sen_name :: string
  sen_vendor :: string
  sen_version :: nat
  sen_handle :: nat
  sen_type :: nat
  sen_maxRange :: rat
  sen_resolution :: rat
  sen_power :: rat

definition SENSOR_TYPE_ACCELEROMETER :: nat where "SENSOR_TYPE_ACCELEROMETER = 1"

text \<open>The list has the one sensor; the number returned is the type of the sensor.\<close>

definition to_get_sensors_list ::
  "'w hal_platform \<Rightarrow> rat \<Rightarrow> ('w sensors_proc, (nat \<times> sensor_t list) option) state" where
  "to_get_sensors_list P g = do {
     ok \<leftarrow> h_malloc P;
     if \<not> ok then State_Monad.return None
     else State_Monad.return (Some (SENSOR_TYPE_ACCELEROMETER,
       [\<lparr>sen_name = ''g-sensors'', sen_vendor = ''meizu'', sen_version = 0, sen_handle = 0,
         sen_type = SENSOR_TYPE_ACCELEROMETER, sen_maxRange = round_bits 24 (2 * g),
         sen_resolution = round_bits 24 (round53 (round53 (1 / 1000) * g)), sen_power = 1\<rparr>])) }"

text \<open>\<open>HAL_MODULE_INFO_SYM\<close>: what \<open>hw_get_module\<close> finds, with the two functions of the module.\<close>

definition SENSORS_HARDWARE_MODULE_ID :: string where "SENSORS_HARDWARE_MODULE_ID = ''sensors''"

record sensors_module =
  sm_tag :: string
  sm_version_major :: nat
  sm_version_minor :: nat
  sm_id :: string
  sm_name :: string
  sm_author :: string
  sm_open :: "sensor_fn option"                \<comment> \<open>\<open>methods->open\<close>\<close>
  sm_get_sensors_list :: "sensor_fn option"

definition HAL_MODULE_INFO_SYM_sensors :: sensors_module where
  "HAL_MODULE_INFO_SYM_sensors = \<lparr>sm_tag = ''HARDWARE_MODULE_TAG'', sm_version_major = 1, sm_version_minor = 0,
     sm_id = SENSORS_HARDWARE_MODULE_ID, sm_name = ''G-sensors module'', sm_author = ''The Android Open Source Project'',
     sm_open = Some Fn_sensors_device_open, sm_get_sensors_list = Some Fn_to_get_sensors_list\<rparr>"

end
