(* ===== verification/SensorProps.thy ===== *)
theory SensorProps
  imports Sensors
begin

text \<open>
  What the sensor module guarantees: what a poll answers, how close it is to the acceleration,
  how long it waits, which descriptors a session takes and gives back, and which devices can be closed.
\<close>

section \<open>Values\<close>

lemma round_bits_factor:
  assumes "0 < n"
  shows "\<exists>d. round_bits n q = q * (1 + d) \<and> \<bar>d\<bar> \<le> 1 / 2 ^ n"
proof (cases "q = 0")
  case False
  let ?d = "round_bits n q / q - 1"
  have "\<bar>?d\<bar> = \<bar>round_bits n q - q\<bar> / \<bar>q\<bar>"
    using False by (simp add: diff_divide_distrib flip: abs_divide)
  also have "\<dots> \<le> 1 / 2 ^ n"
    using round_bits_close [OF assms, of q] False by (simp add: pos_divide_le_eq)
  finally show ?thesis using False by (intro exI [of _ ?d]) simp
qed (intro exI [of _ 0], simp)

lemma factor_step:
  assumes "\<bar>a - 1\<bar> \<le> A" "\<bar>d\<bar> \<le> B"
  shows "\<bar>a * (1 + d) - 1\<bar> \<le> A + B + A * (B :: rat)"
proof -
  have "\<bar>a * (1 + d) - 1\<bar> = \<bar>(a - 1) + d + (a - 1) * d\<bar>" by (simp add: algebra_simps)
  also have "\<dots> \<le> \<bar>a - 1\<bar> + \<bar>d\<bar> + \<bar>a - 1\<bar> * \<bar>d\<bar>"
    by (rule order_trans [OF abs_triangle_ineq add_mono [OF abs_triangle_ineq]]) (simp add: abs_mult)
  also have "\<dots> \<le> A + B + A * B"
    using assms by (intro add_mono mult_mono) auto
  finally show ?thesis .
qed

text \<open>
  C32: The value reported for an axis is minus the acceleration \<open>0.018 * g\<close> times the signed byte of
  the sensor, with a relative error of at most \<open>2\<^sup>-\<^sup>2\<^sup>3\<close> after five roundings; the opposite
  byte gives exactly the opposite value.
\<close>

lemma axis_close:
  "\<bar>axis g v + of_int v * (18 / 1000) * g\<bar> \<le> \<bar>of_int v * (18 / 1000) * g\<bar> / 2 ^ 23 \<and>
   axis g (- v) = - axis g v \<and> axis g 0 = 0"
proof -
  let ?q = "of_int v * (18 / 1000) * g"
  obtain d1 where 1: "ST_SENSITIVITY = 18 / 1000 * (1 + d1)" "\<bar>d1\<bar> \<le> 1 / 2 ^ 53"
    using round_bits_factor [of 53 "18 / 1000"] by (auto simp: ST_SENSITIVITY_def round53_bits)
  obtain d2 where 2: "round53 (of_int v * ST_SENSITIVITY) = of_int v * ST_SENSITIVITY * (1 + d2)" "\<bar>d2\<bar> \<le> 1 / 2 ^ 53"
    using round_bits_factor [of 53 "of_int v * ST_SENSITIVITY"] by (auto simp: round53_bits)
  let ?x = "round53 (of_int v * ST_SENSITIVITY) * g"
  obtain d3 where 3: "round53 ?x = ?x * (1 + d3)" "\<bar>d3\<bar> \<le> 1 / 2 ^ 53"
    using round_bits_factor [of 53 ?x] by (auto simp: round53_bits)
  obtain d4 where 4: "round53 (round53 ?x * - 1) = round53 ?x * - 1 * (1 + d4)" "\<bar>d4\<bar> \<le> 1 / 2 ^ 53"
    using round_bits_factor [of 53 "round53 ?x * - 1"] by (auto simp: round53_bits)
  obtain d5 where 5: "axis g v = round53 (round53 ?x * - 1) * (1 + d5)" "\<bar>d5\<bar> \<le> 1 / 2 ^ 24"
    using round_bits_factor [of 24 "round53 (round53 ?x * - 1)"] by (auto simp: axis_def)
  let ?p = "1 * (1 + d1) * (1 + d2) * (1 + d3) * (1 + d4) * (1 + d5)"
  have "axis g v = - ?q * ?p"
    unfolding 5(1) unfolding 4(1) unfolding 3(1) unfolding 2(1) unfolding 1(1)
    by (simp only: mult_minus_left mult_minus_right mult_1_left mult_1_right ac_simps)
  then have "axis g v + ?q = - ?q * (?p - 1)" by (simp add: algebra_simps)
  then have "\<bar>axis g v + ?q\<bar> = \<bar>?q\<bar> * \<bar>?p - 1\<bar>" by (simp add: abs_mult)
  moreover have "\<bar>?p - 1\<bar> \<le> 1 / 2 ^ 23"
  proof -
    have "\<bar>1 - 1 :: rat\<bar> \<le> 0" by simp
    note factor_step [OF factor_step [OF factor_step [OF factor_step [OF factor_step [OF this
            1(2)] 2(2)] 3(2)] 4(2)] 5(2)]
    then show ?thesis by (rule order_trans) simp
  qed
  ultimately have "\<bar>axis g v + ?q\<bar> \<le> \<bar>?q\<bar> * (1 / 2 ^ 23)"
    by (simp only: mult_left_mono abs_ge_zero)
  then show ?thesis by (simp add: axis_def round53_bits)
qed

section \<open>Polling\<close>

text \<open>The bytes of the buffer after a read of up to three bytes into four zeros.\<close>

definition sensor_byte :: "8 word list \<Rightarrow> nat \<Rightarrow> int" where
  "sensor_byte bytes i = (if i < length bytes then sint (bytes ! i) else 0)"

lemma buff_byte:
  "i < 3 \<Longrightarrow> sint ((take 3 bytes @ drop (length (take 3 bytes)) [0, 0, 0, 0]) ! i) = sensor_byte bytes i"
proof -
  assume "i < 3"
  then consider "i = 0" | "i = 1" | "i = 2" by linarith
  then show ?thesis
    by cases (cases bytes; cases "tl bytes"; cases "tl (tl bytes)"; simp add: sensor_byte_def)+
qed

lemma data_poll_run:
  assumes "ho_poll P (sInputFD s) (pworld s) = (r, w1)" "ho_read P (sInputFD s) 3 w1 = ((n, bytes), w2)"
  shows "run_state (data_poll P g) s =
    (if r \<le> 0 then ((if r < 0 then r else - 11, None), s\<lparr>pworld := w1, ptrace := ptrace s @ [HPoll (sInputFD s)]\<rparr>)
     else ((0, Some (axis g (sensor_byte bytes 1), axis g (sensor_byte bytes 0), axis g (sensor_byte bytes 2))),
       s\<lparr>pworld := w2, ptrace := ptrace s @
         [HPoll (sInputFD s), HSleep (unat (s_timeout s)), HRead (sInputFD s) 3]\<rparr>))"
  using assms by (simp add: data_poll_def h_defs EWOULDBLOCK_def Let_def buff_byte del: length_take)

text \<open>
  C25: A poll waits for the descriptor first; it answers the error of \<open>poll\<close>, or \<open>-EWOULDBLOCK\<close> when nothing is
  there, without a reading.  Otherwise it sleeps the delay, reads three bytes and answers 0 with the axes from
  the second, the first and the third byte, in that order.  The result of the read is not looked at: a read that fails
  is reported as a reading of zero on all three axes.
\<close>

lemma data_poll_spec:
  assumes "ho_poll P (sInputFD s) (pworld s) = (r, w1)" "ho_read P (sInputFD s) 3 w1 = ((n, bytes), w2)"
  shows "run_state (data_poll P g) s =
    (if r \<le> 0 then ((if r < 0 then r else - 11, None), s\<lparr>pworld := w1, ptrace := ptrace s @ [HPoll (sInputFD s)]\<rparr>)
     else ((0, Some (axis g (sensor_byte bytes 1), axis g (sensor_byte bytes 0), axis g (sensor_byte bytes 2))),
       s\<lparr>pworld := w2, ptrace := ptrace s @
         [HPoll (sInputFD s), HSleep (unat (s_timeout s)), HRead (sInputFD s) 3]\<rparr>)) \<and>
    (bytes = [] \<and> 0 < r \<longrightarrow> res_of (data_poll P g) s = (0, Some (0, 0, 0)))"
proof -
  have "axis g 0 = 0" by (simp add: axis_def round53_bits)
  then show ?thesis using data_poll_run [OF assms, of g] by (auto simp: sensor_byte_def)
qed

definition sensor_bench :: "int \<Rightarrow> 8 word list \<Rightarrow> unit hal_platform" where
  "sensor_bench r bytes = \<lparr>ho_open = (\<lambda>path w. (3, w)), ho_dup = (\<lambda>f w. (f + 1, w)), ho_ioctl = (\<lambda>f r a w. (0, w)),
     ho_write = (\<lambda>f b w. (1, w)), ho_read = (\<lambda>f n w. ((int (length bytes), bytes), w)), ho_poll = (\<lambda>f w. (r, w)),
     ho_malloc = (\<lambda>w. (True, w))\<rparr>"

lemma sensor_bench_simps [simp]:
  "ho_open (sensor_bench r bytes) path w = (3, w)" "ho_dup (sensor_bench r bytes) f w = (f + 1, w)"
  "ho_read (sensor_bench r bytes) f n w = ((int (length bytes), bytes), w)"
  "ho_poll (sensor_bench r bytes) f w = (r, w)" "ho_malloc (sensor_bench r bytes) w = (True, w)"
  by (simp_all add: sensor_bench_def)

lemma data_poll_spec_witness:
  "res_of (data_poll (sensor_bench 1 []) 10) (sensors_start ()) = (0, Some (0, 0, 0)) \<and>
   res_of (data_poll (sensor_bench 0 []) 10) (sensors_start ()) = (- 11, None)"
proof
  show "res_of (data_poll (sensor_bench 1 []) 10) (sensors_start ()) = (0, Some (0, 0, 0))"
    using data_poll_spec [of "sensor_bench 1 []" "sensors_start ()" 1 "()" 0 "[]" "()" 10] by auto
  show "res_of (data_poll (sensor_bench 0 []) 10) (sensors_start ()) = (- 11, None)"
    using data_poll_spec [of "sensor_bench 0 []" "sensors_start ()" 0 "()" 0 "[]" "()" 10] by auto
qed

text \<open>
  After \<open>set_delay\<close> a poll that has something to read sleeps a thousand times the number of milliseconds, reduced
  to 32 bits: exactly that many microseconds for 0 to 4294967 ms, and for a negative number or a larger one
  some other time (\<open>-1\<close> waits more than an hour).
\<close>

lemma set_delay_sleeps:
  assumes "ho_poll P (sInputFD s) (pworld s) = (r, w1)" "0 < r"
  shows "\<exists>rest. ptrace (end_of (do { _ \<leftarrow> set_delay ms; data_poll P g }) s) =
      ptrace s @ HPoll (sInputFD s) # HSleep (nat (1000 * sint ms mod 2 ^ 32)) # rest \<and>
    (0 \<le> sint ms \<and> sint ms \<le> 4294967 \<longrightarrow> nat (1000 * sint ms mod 2 ^ 32) = 1000 * nat (sint ms))"
proof -
  let ?s = "s\<lparr>s_timeout := ms * 1000\<rparr>"
  have "uint ms = sint ms mod 2 ^ 32" by (simp add: uint_sint take_bit_eq_mod)
  then have "uint (ms * 1000) = (sint ms mod 2 ^ 32 * 1000) mod 2 ^ 32" by (simp add: uint_word_ariths)
  also have "\<dots> = 1000 * sint ms mod 2 ^ 32" by (metis mod_mult_left_eq mult.commute)
  finally have "int (unat (ms * 1000)) = 1000 * sint ms mod 2 ^ 32" by simp
  then have u: "unat (ms * 1000) = nat (1000 * sint ms mod 2 ^ 32)" by linarith
  obtain n bytes w2 where rd: "ho_read P (sInputFD ?s) 3 w1 = ((n, bytes), w2)" by (metis prod.collapse)
  have "run_state (do { _ \<leftarrow> set_delay ms; data_poll P g }) s = run_state (data_poll P g) ?s"
    by (simp add: set_delay_def)
  then show ?thesis
    using data_poll_run [of P ?s r w1 n bytes w2 g] assms rd u by (auto simp: nat_mult_distrib)
qed

lemma set_delay_sleeps_witness:
  "\<exists>rest. ptrace (end_of (do { _ \<leftarrow> set_delay (- 1); data_poll (sensor_bench 1 [1, 2, 3]) g }) (sensors_start ())) =
      ptrace (sensors_start ()) @ HPoll (sInputFD (sensors_start ())) #
        HSleep (nat (1000 * sint (- 1 :: cint) mod 2 ^ 32)) # rest \<and>
    (0 \<le> sint (- 1 :: cint) \<and> sint (- 1 :: cint) \<le> 4294967 \<longrightarrow>
       nat (1000 * sint (- 1 :: cint) mod 2 ^ 32) = 1000 * nat (sint (- 1 :: cint)))"
  by (rule set_delay_sleeps [where r = 1]) simp_all

section \<open>Sessions\<close>

text \<open>A client that opens the sensor, hands the handle to the data device, polls it and closes it.\<close>

definition sensor_session :: "'w hal_platform \<Rightarrow> rat \<Rightarrow> nat \<Rightarrow> ('w sensors_proc, cint option) state" where
  "sensor_session P g n = do {
     h \<leftarrow> open_data_source P;
     deref h (\<lambda>hnd. do {
       r \<leftarrow> data_open P hnd;
       deref r (\<lambda>_. do {
         _ \<leftarrow> repeat_op n (data_poll P g);
         c \<leftarrow> data_close;
         State_Monad.return (Some c) }) }) }"

text \<open>What a poll does on its descriptor, and what it leaves alone.\<close>

fun poll_event :: "int \<Rightarrow> hevent \<Rightarrow> bool" where
  "poll_event fd (HPoll f) = (f = fd)"
| "poll_event fd (HRead f n) = (f = fd \<and> n = 3)"
| "poll_event fd (HSleep us) = True"
| "poll_event fd _ = False"

definition poll_frame :: "'w sensors_proc \<Rightarrow> 'w sensors_proc \<Rightarrow> bool" where
  "poll_frame s t \<longleftrightarrow> (\<exists>es. ptrace t = ptrace s @ es \<and> list_all (poll_event (sInputFD s)) es) \<and>
     sInputFD t = sInputFD s \<and> handles t = handles s \<and> contexts t = contexts s \<and> s_timeout t = s_timeout s"

interpretation polls: frame poll_frame
  by unfold_locales (fastforce simp: poll_frame_def)+

lemma keeps_data_poll: "keeps poll_frame (data_poll P g)"
  by (simp add: keeps_def poll_frame_def data_poll_def h_defs Let_def case_prod_beta)

lemma keeps_polls: "keeps poll_frame (repeat_op n (data_poll P g))"
  by (induction n) (auto intro!: polls.keeps_rules keeps_data_poll)

lemma poll_events_hold [simp]: "list_all (poll_event fd) es \<Longrightarrow> fds_held es = 0"
proof (induction es)
  case (Cons e es)
  then show ?case by (cases e) auto
qed simp

text \<open>
  C26: When the sensor opens, a session of any number of polls answers 0 and gives back every descriptor and handle it
  takes, whether or not the descriptor could be duplicated: it closes the descriptor it opened once it has the
  duplicate, polls and reads three bytes at a time from the duplicate alone, and closes that last.  A failed duplicate
  is polled and closed like any other descriptor.  When the sensor does not open, \<open>open_data_source\<close> gives a null
  handle, which \<open>data_open\<close> follows: the process is killed with nothing but the attempt done.
\<close>

lemma sensor_session_balanced:
  assumes "ho_open P sensors_fd (pworld s) = (fd, w1)" "ho_malloc P w1 = (True, w2)" "ho_dup P fd w2 = (fd', w3)"
  shows "if fd < 0 then res_of (sensor_session P g n) s = None \<and>
      ptrace (end_of (sensor_session P g n) s) = ptrace s @ [HOpen sensors_fd fd]
    else res_of (sensor_session P g n) s = Some 0 \<and>
      (\<exists>es. ptrace (end_of (sensor_session P g n) s) =
          ptrace s @ [HOpen sensors_fd fd, HDup fd fd', HClose fd] @ es @ [HClose fd'] \<and> list_all (poll_event fd') es) \<and>
      fds_held (ptrace (end_of (sensor_session P g n) s)) = fds_held (ptrace s) \<and>
      live_objects (handles (end_of (sensor_session P g n) s)) = live_objects (handles s) \<and>
      sInputFD (end_of (sensor_session P g n) s) = fd'"
proof (cases "fd < 0")
  case True
  then show ?thesis using assms(1)
    by (simp add: sensor_session_def open_data_source_def data_open_def h_defs)
next
  case False
  let ?s1 = "s\<lparr>pworld := w3, sInputFD := fd',
     ptrace := ptrace s @ [HOpen sensors_fd fd, HDup fd fd', HClose fd], handles := handles s @ [None]\<rparr>"
  let ?s2 = "end_of (repeat_op n (data_poll P g)) ?s1"
  have run: "run_state (sensor_session P g n) s = (Some 0, ?s2\<lparr>ptrace := ptrace ?s2 @ [HClose (sInputFD ?s2)]\<rparr>)"
    using assms False
    by (simp add: sensor_session_def open_data_source_def data_open_def data_close_def h_defs case_prod_beta)
  have "poll_frame ?s1 ?s2" by (rule keepsD [OF keeps_polls])
  then obtain es where es: "ptrace ?s2 = ptrace s @ [HOpen sensors_fd fd, HDup fd fd', HClose fd] @ es"
      "list_all (poll_event fd') es" "sInputFD ?s2 = fd'" "handles ?s2 = handles s @ [None]"
    by (auto simp: poll_frame_def)
  then show ?thesis using False unfolding run by (simp add: live_objects_def)
qed

lemma sensor_session_balanced_witness:
  "res_of (sensor_session (sensor_bench 1 [1, 2, 3]) 10 5) (sensors_start ()) = Some 0 \<and>
   fds_held (ptrace (end_of (sensor_session (sensor_bench 1 [1, 2, 3]) 10 5) (sensors_start ()))) =
     fds_held (ptrace (sensors_start ())) \<and>
   live_objects (handles (end_of (sensor_session (sensor_bench 1 [1, 2, 3]) 10 5) (sensors_start ()))) =
     live_objects (handles (sensors_start ()))"
proof -
  let ?P = "sensor_bench 1 [1, 2, 3]"
  have "ho_open ?P sensors_fd (pworld (sensors_start ())) = (3, ())" "ho_malloc ?P () = (True, ())" "ho_dup ?P 3 () = (4, ())"
    by simp_all
  from sensor_session_balanced [OF this, of 10 5] show ?thesis by simp
qed

section \<open>Opening and closing devices\<close>

text \<open>
  C37: Opening makes the control device for its name and the data device for every other, with exactly the operations of that
  device.  Closing the control device frees what was opened; closing the data device hands \<open>free\<close> a pointer into the middle of
  an object, which kills the process; closing a null pointer does nothing.
\<close>

lemma sensors_device_life:
  assumes "ho_malloc P (pworld s) = (True, w1)"
  shows "\<exists>c s1. run_state (sensors_device_open P name) s =
      (Some (0, (length (contexts s), if name = ''control'' then Control else Data)), s1) \<and>
    contexts s1 = contexts s @ [Some c] \<and>
    (con_set_delay c = Some Fn_set_delay \<longleftrightarrow> name = ''control'') \<and> (dat_poll c = Some Fn_data_poll \<longleftrightarrow> name \<noteq> ''control'') \<and>
    (if name = ''control''
     then res_of (sensors_device_close (Some (length (contexts s), Control))) s1 = Some 0 \<and>
       live_objects (contexts (end_of (sensors_device_close (Some (length (contexts s), Control))) s1)) = live_objects (contexts s)
     else res_of (sensors_device_close (Some (length (contexts s), Data))) s1 = None) \<and>
    run_state (sensors_device_close None) s1 = (Some 0, s1)"
  using assms
  by (simp add: sensors_device_open_def sensors_device_close_def free_context_def SENSORS_HARDWARE_CONTROL_def
      h_defs zero_context_def live_objects_def)

lemma sensors_device_life_witness:
  "\<exists>s1. run_state (sensors_device_open (sensor_bench 1 []) ''data'') (sensors_start ()) = (Some (0, (0, Data)), s1) \<and>
    res_of (sensors_device_close (Some (0, Data))) s1 = None"
  using sensors_device_life [of "sensor_bench 1 []" "sensors_start ()" "()" "''data''"]
  by (auto simp: sensors_start_def)

end
