(* ===== verification/Cdata.thy ===== *)
theory Cdata
  imports CLib
begin

text \<open>
  The driver behind \<open>/dev/cdata-test\<close>, the file the LED module of \<open>led.cpp\<close> and \<open>libmokoid\<close> open: the version
  of \<open>cdata-module/cdata.c\<close>, and that of \<open>omap3/cdata-module/cdata.c\<close>, whose wait queue is commented out.

  The state is the wait queue, as the processes that sleep on it, what \<open>printk\<close> has printed, and the
  kernel's table of miscellaneous devices.  The
  kernel's \<open>jiffies\<close> and \<open>HZ\<close> are arguments.  A call gives its result and the ticks the caller was put to
  sleep for.  \<open>ioctl\<close> and \<open>read\<close> end without a \<open>return\<close>: their result is \<open>None\<close>, since what their
  caller finds is whatever the last instructions left in the register.
\<close>

record cdata_state =
  rq :: "nat list"
  klog :: "string list"
  misc_table :: "(nat \<times> string) list"      \<comment> \<open>minor numbers and names\<close>

record cdata_result =
  returned :: "int option"
  slept :: nat

abbreviation cdata_ret :: "int \<Rightarrow> cdata_result" where
  "cdata_ret r \<equiv> \<lparr>returned = Some r, slept = 0\<rparr>"

abbreviation cdata_no_ret :: "nat \<Rightarrow> cdata_result" where
  "cdata_no_ret ticks \<equiv> \<lparr>returned = None, slept = ticks\<rparr>"

definition printk :: "string \<Rightarrow> cdata_state \<Rightarrow> cdata_state" where
  "printk line s = s\<lparr>klog := klog s @ [line]\<rparr>"

section \<open>The file operations\<close>

definition cdata_open :: "cdata_state \<Rightarrow> cdata_result \<times> cdata_state" where
  "cdata_open s = (cdata_ret 0, (printk ''cdata: in cdata_open()'' s)\<lparr>rq := []\<rparr>)"

definition cdata_ioctl :: "cdata_state \<Rightarrow> cdata_result \<times> cdata_state" where
  "cdata_ioctl s = (cdata_no_ret 0, printk ''cdata: in cdata_ioctl()'' s)"

text \<open>
  \<open>interruptible_sleep_on_timeout\<close> puts the caller on the queue for a number of ticks from now; a negative
  number does not sleep.  The argument is converted to a signed \<open>long\<close> of 32 bits.
\<close>

definition sleep_ticks :: "cint \<Rightarrow> nat" where
  "sleep_ticks timeout = nat (sint timeout)"

definition cdata_read_begin :: "cint \<Rightarrow> cint \<Rightarrow> nat \<Rightarrow> cdata_state \<Rightarrow> nat \<times> cdata_state" where
  "cdata_read_begin jiffies HZ pid s =
     (let s1 = printk ''cdata: in cdata_read()'' s
      in (sleep_ticks (jiffies + 10 * HZ), s1\<lparr>rq := pid # rq s1\<rparr>))"

definition cdata_read_end :: "nat \<Rightarrow> nat \<Rightarrow> cdata_state \<Rightarrow> cdata_result \<times> cdata_state" where
  "cdata_read_end ticks pid s = (cdata_no_ret ticks, s\<lparr>rq := removeAll pid (rq s)\<rparr>)"

text \<open>
  \<open>buf\<close> is the memory from the address the caller passed: \<open>%s\<close> prints up to the first NUL.
\<close>

definition cdata_write :: "string \<Rightarrow> nat \<Rightarrow> cdata_state \<Rightarrow> cdata_result \<times> cdata_state" where
  "cdata_write buf count s = (cdata_ret 0, printk (''cdata_write: '' @ cstr buf) s)"

definition cdata_release :: "cdata_state \<Rightarrow> cdata_result \<times> cdata_state" where
  "cdata_release s = (cdata_ret 0, printk ''cdata: in cdata_release()'' s)"

text \<open>A read that nothing comes between: the caller goes to sleep and wakes up.\<close>

definition cdata_read :: "cint \<Rightarrow> cint \<Rightarrow> nat \<Rightarrow> cdata_state \<Rightarrow> cdata_result \<times> cdata_state" where
  "cdata_read jiffies HZ pid s =
     (let (ticks, s1) = cdata_read_begin jiffies HZ pid s in cdata_read_end ticks pid s1)"

section \<open>The tables the kernel is given\<close>

record cdata_ops =
  c_open :: "cdata_state \<Rightarrow> cdata_result \<times> cdata_state"
  c_release :: "cdata_state \<Rightarrow> cdata_result \<times> cdata_state"
  c_ioctl :: "cdata_state \<Rightarrow> cdata_result \<times> cdata_state"
  c_read :: "cint \<Rightarrow> cint \<Rightarrow> nat \<Rightarrow> cdata_state \<Rightarrow> cdata_result \<times> cdata_state"
  c_write :: "string \<Rightarrow> nat \<Rightarrow> cdata_state \<Rightarrow> cdata_result \<times> cdata_state"

definition cdata_fops :: cdata_ops where
  "cdata_fops = \<lparr>c_open = cdata_open, c_release = cdata_release, c_ioctl = cdata_ioctl, c_read = cdata_read,
     c_write = cdata_write\<rparr>"

record miscdevice =
  misc_minor :: nat
  misc_name :: string
  misc_fops :: cdata_ops

definition cdata_misc :: miscdevice where
  "cdata_misc = \<lparr>misc_minor = 20, misc_name = ''cdata-test'', misc_fops = cdata_fops\<rparr>"

text \<open>
  The table of miscellaneous devices: \<open>answer\<close> is what \<open>misc_register\<close> returns, and a failing one changes
  nothing.
\<close>

definition misc_register :: "int \<Rightarrow> miscdevice \<Rightarrow> cdata_state \<Rightarrow> int \<times> cdata_state" where
  "misc_register answer dev s =
     (answer, if answer \<noteq> 0 then s else s\<lparr>misc_table := (misc_minor dev, misc_name dev) # misc_table s\<rparr>)"

definition misc_deregister :: "miscdevice \<Rightarrow> cdata_state \<Rightarrow> cdata_state" where
  "misc_deregister dev s =
     s\<lparr>misc_table := filter (\<lambda>e. e \<noteq> (misc_minor dev, misc_name dev)) (misc_table s)\<rparr>"

definition my_init_module :: "int \<Rightarrow> cdata_state \<Rightarrow> int \<times> cdata_state" where
  "my_init_module answer s =
     (let (r, s1) = misc_register answer cdata_misc s
      in if r \<noteq> 0 then (- 1, printk ''cdata: register failed'' s1)
         else (0, printk ''cdata module: registered.'' s1))"

definition my_cleanup_module :: "cdata_state \<Rightarrow> cdata_state" where
  "my_cleanup_module s = printk ''cdata module: unregisterd.'' (misc_deregister cdata_misc s)"

section \<open>The other version\<close>

definition cdata_open_omap3 :: "cdata_state \<Rightarrow> cdata_result \<times> cdata_state" where
  "cdata_open_omap3 s = (cdata_ret 0, printk ''cdata: in cdata_open()'' s)"

definition cdata_ioctl_omap3 :: "cdata_state \<Rightarrow> cdata_result \<times> cdata_state" where
  "cdata_ioctl_omap3 s = (cdata_no_ret 0, printk ''cdata: in cdata_ioctl()'' s)"

definition cdata_read_omap3 :: "cdata_state \<Rightarrow> cdata_result \<times> cdata_state" where
  "cdata_read_omap3 s = (cdata_no_ret 0, printk ''cdata: in cdata_read()'' s)"

definition cdata_write_omap3 :: "string \<Rightarrow> nat \<Rightarrow> cdata_state \<Rightarrow> cdata_result \<times> cdata_state" where
  "cdata_write_omap3 buf count s = (cdata_ret 0, printk (''cdata_write: '' @ cstr buf) s)"

definition cdata_release_omap3 :: "cdata_state \<Rightarrow> cdata_result \<times> cdata_state" where
  "cdata_release_omap3 s = (cdata_ret 0, printk ''cdata: in cdata_release()'' s)"

definition cdata_fops_omap3 :: cdata_ops where
  "cdata_fops_omap3 = \<lparr>c_open = cdata_open_omap3, c_release = cdata_release_omap3, c_ioctl = cdata_ioctl_omap3,
     c_read = (\<lambda>jiffies HZ pid. cdata_read_omap3), c_write = cdata_write_omap3\<rparr>"

definition cdata_misc_omap3 :: miscdevice where
  "cdata_misc_omap3 = \<lparr>misc_minor = 20, misc_name = ''cdata-test'', misc_fops = cdata_fops_omap3\<rparr>"

definition my_init_module_omap3 :: "int \<Rightarrow> cdata_state \<Rightarrow> int \<times> cdata_state" where
  "my_init_module_omap3 answer s =
     (let (r, s1) = misc_register answer cdata_misc_omap3 s
      in if r \<noteq> 0 then (- 1, printk ''cdata: register failed'' s1)
         else (0, printk ''cdata module: registered.'' s1))"

definition my_cleanup_module_omap3 :: "cdata_state \<Rightarrow> cdata_state" where
  "my_cleanup_module_omap3 s = printk ''cdata module: unregisterd.'' (misc_deregister cdata_misc_omap3 s)"

section \<open>The module mod_test\<close>

text \<open>\<open>androint-moko365/mod_test/mod_test.c\<close>: a module that only prints when it is loaded and unloaded.\<close>

definition test_init :: "cdata_state \<Rightarrow> int \<times> cdata_state" where
  "test_init s = (0, printk ''Hello Test Module!!'' s)"

definition test_cleanup :: "cdata_state \<Rightarrow> cdata_state" where
  "test_cleanup s = printk ''Bye Test Module!!'' s"

section \<open>What a process can do with the device\<close>

datatype cdata_call =
    C_open | C_release | C_ioctl
  | C_read cint nat              \<comment> \<open>the uptime and the process\<close>
  | C_write string nat

fun cdata_do :: "cdata_ops \<Rightarrow> cint \<Rightarrow> cdata_call \<Rightarrow> cdata_state \<Rightarrow> cdata_result \<times> cdata_state" where
  "cdata_do F HZ C_open s = c_open F s"
| "cdata_do F HZ C_release s = c_release F s"
| "cdata_do F HZ C_ioctl s = c_ioctl F s"
| "cdata_do F HZ (C_read jiffies pid) s = c_read F jiffies HZ pid s"
| "cdata_do F HZ (C_write buf count) s = c_write F buf count s"

fun cdata_session :: "cdata_ops \<Rightarrow> cint \<Rightarrow> cdata_call list \<Rightarrow> cdata_state \<Rightarrow> cdata_result list \<times> cdata_state" where
  "cdata_session F HZ [] s = ([], s)"
| "cdata_session F HZ (c # cs) s =
     (case cdata_do F HZ c s of (r, s1) \<Rightarrow>
        case cdata_session F HZ cs s1 of (rs, s2) \<Rightarrow> (r # rs, s2))"

lemmas cdata_defs =
  cdata_open_def cdata_release_def cdata_ioctl_def cdata_read_def cdata_read_begin_def cdata_read_end_def cdata_write_def
  cdata_open_omap3_def cdata_release_omap3_def cdata_ioctl_omap3_def cdata_read_omap3_def cdata_write_omap3_def
  cdata_fops_def cdata_fops_omap3_def printk_def

section \<open>Properties\<close>

text \<open>The ticks asked for, as a number: the sum wraps, and its upper half is negative.\<close>

lemma sleep_ticks_sum:
  "sleep_ticks (jiffies + 10 * HZ) =
     (let v = (uint jiffies + 10 * uint HZ) mod 2 ^ 32 in if v < 2 ^ 31 then nat v else 0)"
proof -
  have "uint (jiffies + 10 * HZ) = (uint jiffies + 10 * uint HZ) mod 2 ^ 32"
    by (simp add: uint_word_ariths mod_simps take_bit_eq_mod)
  moreover have "sint (x :: cint) = (if uint x < 2 ^ 31 then uint x else uint x - 2 ^ 32)" for x
    using uint_range_size [of x]
    by (simp add: word_size sint_uint signed_take_bit_eq_take_bit_shift take_bit_eq_mod)
       (smt (verit) mod_pos_pos_trivial minus_mod_self2)
  ultimately show ?thesis using uint_bounded [of "jiffies + 10 * HZ"] by (simp add: sleep_ticks_def Let_def)
qed

text \<open>
  A reader is put on the queue for the uptime plus ten seconds, not for ten seconds, and not at all
  once the sum no longer fits a signed word; opening the device again empties the queue under every
  process that sleeps on it.
\<close>

lemma cdata_reader_sleeps:
  assumes "0 \<le> sint jiffies" "0 \<le> sint HZ" "sint HZ \<le> 1000"
  shows "cdata_read_begin jiffies HZ pid s =
      (if sint jiffies + 10 * sint HZ < 2 ^ 31 then nat (sint jiffies + 10 * sint HZ) else 0,
       s\<lparr>rq := pid # rq s, klog := klog s @ [''cdata: in cdata_read()'']\<rparr>) \<and>
    rq (snd (cdata_open (snd (cdata_read_begin jiffies HZ pid s)))) = []"
proof -
  let ?v = "sint jiffies + 10 * sint HZ"
  have lt: "sint jiffies < 2 ^ 31" using sint_lt [of jiffies] by simp
  have "jiffies + 10 * HZ = word_of_int ?v" by simp
  then have "sint (jiffies + 10 * HZ) = signed_take_bit 31 ?v" by (simp only: sint_sbintrunc') simp
  also have "\<dots> = (if ?v < 2 ^ 31 then ?v else ?v - 2 ^ 32)"
  proof (cases "?v < 2 ^ 31")
    case False
    have "(?v + 2 ^ 31) mod 2 ^ 32 = (?v + 2 ^ 31 - 2 ^ 32) mod 2 ^ 32" by (rule minus_mod_self2 [symmetric])
    also have "\<dots> = ?v + 2 ^ 31 - 2 ^ 32" using False assms lt by (intro mod_pos_pos_trivial) simp_all
    finally show ?thesis using False by (simp add: signed_take_bit_eq_take_bit_shift take_bit_eq_mod)
  qed (use assms in \<open>simp add: signed_take_bit_eq_take_bit_shift take_bit_eq_mod mod_pos_pos_trivial\<close>)
  finally have "sleep_ticks (jiffies + 10 * HZ) = (if ?v < 2 ^ 31 then nat ?v else 0)"
    using assms lt by (simp add: sleep_ticks_def)
  then show ?thesis by (simp add: cdata_read_begin_def cdata_open_def printk_def Let_def)
qed

lemma cdata_reader_sleeps_witness:
  "cdata_read_begin 5000 100 7 \<lparr>rq = [6], klog = [], misc_table = []\<rparr> =
      (if sint (5000 :: cint) + 10 * sint (100 :: cint) < 2 ^ 31 then nat (sint (5000 :: cint) + 10 * sint (100 :: cint)) else 0,
       \<lparr>rq = [6], klog = [], misc_table = []\<rparr>\<lparr>rq := 7 # rq \<lparr>rq = [6], klog = [], misc_table = []\<rparr>,
         klog := klog \<lparr>rq = [6], klog = [], misc_table = []\<rparr> @ [''cdata: in cdata_read()'']\<rparr>) \<and>
    rq (snd (cdata_open (snd (cdata_read_begin 5000 100 7 \<lparr>rq = [6], klog = [], misc_table = []\<rparr>)))) = []"
  by (rule cdata_reader_sleeps) simp_all

text \<open>The ticks a call of the version with the queue sleeps for.\<close>

fun read_ticks :: "cint \<Rightarrow> cdata_call \<Rightarrow> nat" where
  "read_ticks HZ (C_read jiffies pid) =
     (let v = (uint jiffies + 10 * uint HZ) mod 2 ^ 32 in if v < 2 ^ 31 then nat v else 0)"
| "read_ticks HZ _ = 0"

fun no_value :: "cdata_call \<Rightarrow> bool" where
  "no_value C_ioctl = True"
| "no_value (C_read jiffies pid) = True"
| "no_value _ = False"

text \<open>One call, with an empty queue before it.\<close>

lemma one_call:
  assumes "rq s = []"
  shows "\<exists>r r' u. cdata_do (misc_fops cdata_misc) HZ c s = (r, u) \<and> cdata_do (misc_fops cdata_misc_omap3) HZ c s = (r', u) \<and>
    rq u = [] \<and> returned r = (if no_value c then None else Some 0) \<and> returned r' = returned r \<and>
    slept r = read_ticks HZ c \<and> slept r' = 0"
  using assms
  by (cases c) (simp_all add: cdata_defs cdata_misc_def cdata_misc_omap3_def sleep_ticks_sum Let_def)

text \<open>
  C39: For a process that is alone with the device the two versions differ in nothing but the time a read
  takes.  Whatever calls it makes, both answer 0 to each, except that \<open>ioctl\<close> and \<open>read\<close> return no
  value; the kernel log and the tables agree and the wait queue, which only the first version has, is
  empty again after each call; the second version never sleeps, and the first sleeps in each read, for
  the uptime and ten seconds, or not at all when that sum, wrapped to 32 bits, has its top bit set.
  Loading a version answers 0 exactly when the device number was given, and unloading then leaves the
  table as it was found.
\<close>

lemma cdata_versions_agree:
  assumes "rq s = []"
  shows "(\<exists>rs rs' u.
      cdata_session (misc_fops cdata_misc) HZ cs s = (rs, u) \<and>
      cdata_session (misc_fops cdata_misc_omap3) HZ cs s = (rs', u) \<and> rq u = [] \<and>
      map returned rs = map (\<lambda>c. if no_value c then None else Some 0) cs \<and> map returned rs' = map returned rs \<and>
      map slept rs = map (read_ticks HZ) cs \<and> map slept rs' = map (\<lambda>c. 0) cs) \<and>
    my_init_module answer s = my_init_module_omap3 answer s \<and> my_cleanup_module s = my_cleanup_module_omap3 s \<and>
    (fst (my_init_module answer s) = 0 \<longleftrightarrow> answer = 0) \<and>
    ((20, ''cdata-test'') \<notin> set (misc_table s) \<longrightarrow>
      misc_table (my_cleanup_module (snd (my_init_module answer s))) = misc_table s)"
proof -
  have "\<exists>rs rs' u.
      cdata_session (misc_fops cdata_misc) HZ cs s = (rs, u) \<and>
      cdata_session (misc_fops cdata_misc_omap3) HZ cs s = (rs', u) \<and> rq u = [] \<and>
      map returned rs = map (\<lambda>c. if no_value c then None else Some 0) cs \<and> map returned rs' = map returned rs \<and>
      map slept rs = map (read_ticks HZ) cs \<and> map slept rs' = map (\<lambda>c. 0) cs"
    using assms
  proof (induction cs arbitrary: s)
    case (Cons c cs)
    obtain r r' u where one: "cdata_do (misc_fops cdata_misc) HZ c s = (r, u)"
        "cdata_do (misc_fops cdata_misc_omap3) HZ c s = (r', u)" "rq u = []"
        "returned r = (if no_value c then None else Some 0)" "returned r' = returned r"
        "slept r = read_ticks HZ c" "slept r' = 0"
      using one_call [OF Cons.prems, of HZ c] by blast
    from Cons.IH [OF one(3)] show ?case using one by fastforce
  qed simp
  moreover have "filter (\<lambda>e. e \<noteq> (20, ''cdata-test'')) (misc_table s) = misc_table s"
    if "(20, ''cdata-test'') \<notin> set (misc_table s)"
    using that by (intro filter_True) auto
  ultimately show ?thesis
    by (auto simp: my_init_module_def my_init_module_omap3_def my_cleanup_module_def my_cleanup_module_omap3_def
        misc_register_def misc_deregister_def cdata_misc_def cdata_misc_omap3_def printk_def Let_def)
qed

lemma cdata_versions_agree_witness:
  "let s = \<lparr>rq = [], klog = [], misc_table = [(10, ''rtc'')]\<rparr>;
       cs = [C_open, C_write (''hi'' @ [NUL]) 3, C_read 5000 7, C_ioctl, C_release]
   in map slept (fst (cdata_session (misc_fops cdata_misc) 100 cs s)) = [0, 0, 6000, 0, 0] \<and>
      snd (cdata_session (misc_fops cdata_misc) 100 cs s) = snd (cdata_session (misc_fops cdata_misc_omap3) 100 cs s) \<and>
      misc_table (my_cleanup_module (snd (my_init_module 0 s))) = [(10, ''rtc'')]"
proof -
  let ?s = "\<lparr>rq = [], klog = [], misc_table = [(10, ''rtc'')]\<rparr>"
  let ?cs = "[C_open, C_write (''hi'' @ [NUL]) 3, C_read 5000 7, C_ioctl, C_release]"
  have "rq ?s = []" by simp
  from cdata_versions_agree [OF this, of 100 ?cs 0]
  obtain rs rs' u where u: "cdata_session (misc_fops cdata_misc) 100 ?cs ?s = (rs, u)"
      "cdata_session (misc_fops cdata_misc_omap3) 100 ?cs ?s = (rs', u)" "map slept rs = map (read_ticks 100) ?cs"
    and m: "(20, ''cdata-test'') \<notin> set (misc_table ?s) \<longrightarrow>
       misc_table (my_cleanup_module (snd (my_init_module 0 ?s))) = misc_table ?s"
    by blast
  have "map (read_ticks 100) ?cs = [0, 0, 6000, 0, 0]" by simp
  then show ?thesis unfolding Let_def u(1,2) fst_conv snd_conv u(3) using m by simp
qed

end
