(* ===== verification/RjTest.thy ===== *)
theory RjTest
  imports Service Bench
begin

text \<open>
  The test program of the service (\<open>tests/rjcoreserver_tests.cpp\<close>): a client that makes one call after the other and
  looks at files with \<open>doCmd\<close>.  It is a user of the interface like any other, and is modelled as one:
  \<open>main\<close> is run on an interface, which is the proxy in the test and the service in the specification.
\<close>

section \<open>doCmd\<close>

text \<open>
  The loop of \<open>doCmd\<close>: lines of at most 1023 bytes are appended to the array of the caller until it holds more
  than 1024 bytes, which is checked before the line is appended.
\<close>

function docmd_loop :: "string \<Rightarrow> cbuf \<Rightarrow> cbuf" where
  "docmd_loop out result =
     (case fgets 1024 out of
        None \<Rightarrow> result
      | Some (buf_ps, rest) \<Rightarrow>
          if 1024 < length (cstr result) then result
          else docmd_loop rest (strcat result (cstr buf_ps)))"
  by pat_completeness auto
termination
proof (relation "measure (length o fst)")
  fix out result x buf_ps rest
  assume "fgets 1024 out = Some x" "(buf_ps, rest) = x"
  then have "fgets 1024 out = Some (buf_ps, rest)" by simp
  from fgets_SomeD [OF this] show "((rest, strcat result (cstr buf_ps)), (out, result)) \<in> measure (length o fst)"
    by simp
qed simp

declare docmd_loop.simps [simp del]

text \<open>
  A null command is measured before it is compared with null, which kills the process (\<open>None\<close>); the result is
  the array of the caller.
\<close>

definition doCmd :: "'w platform \<Rightarrow> string option \<Rightarrow> cbuf \<Rightarrow> ('w sys, cbuf option) state" where
  "doCmd P cmd result =
     (case cmd of
        None \<Rightarrow> State_Monad.return None
      | Some c \<Rightarrow>
          if 1024 - 1 < length c then State_Monad.return (Some result)
          else do {
            ptr \<leftarrow> popen P c;
            (case ptr of
               None \<Rightarrow> State_Monad.return (Some result)
             | Some out \<Rightarrow> do {
                 let buf = docmd_loop out result;
                 note_overrun (length result) buf;
                 emit EPclose;
                 State_Monad.return (Some buf) }) })"

section \<open>main\<close>

text \<open>What the test does, in its order: calls of the service, commands of its own, an empty array again.\<close>

datatype test_step =
    Call request
  | Cmd string
  | Clear
  | Shell string

definition test_script :: "'w platform \<Rightarrow> test_step list" where
  "test_script P =
    [Call Req_getCpuInfo, Call Req_getAndroidVersion, Call Req_getSystemVersion, Call Req_getSerialNumber,
     Call Req_getProductType, Call Req_getHardwareVesion, Call Req_getProductId, Call Req_getProductName,
     Call Req_getBaseboardInfo, Call Req_getMemoryInfo, Call Req_getStorageInfo, Call Req_getNetcardState,
     Call Req_getNetcardCurSpeed, Call Req_getNetcardMaxSpeed,
     Call (Req_checkIpConflict_block (to16 P ''172.21.195.18'')),
     Call (Req_ping_block (to16 P ''14.215.177.39'') 10 0 10),
     Call (Req_checkBandwidth_block (to16 P ''172.21.195.18'') (to16 P ''speed'') (to16 P ''linzr'')),
     Call Req_getOtaResult, Call Req_startAvahi, Call Req_stopAvahi,
     Call (Req_setPowerState 1), Call Req_getPowerState,
     Call Req_getCurrentResolution_block, Call Req_getSupportResolution,
     Call (Req_getPropertyValue (to16 P ''wifi.supplicant_scan_interval'')),
     Call (Req_isProcessRunning (to16 P ''com.android.providers.calendar'')),
     Call (Req_getProcessId (to16 P ''daemonsu'')),
     Call (Req_setLedStatus 1 1), Call (Req_getLedStatus 1),
     Call (Req_setDeviceResolution 1920 1080 60 1),
     Call (Req_collectLogFiles_block (to16 P ''localhost_172.21.5.123'')),
     Cmd ''ls /sdcard/com.ruijie.rccstu/localhost_172.21.5.123.tar.gz'',
     Call (Req_rmFile (to16 P ''/sdcard/com.ruijie.rccstu/localhost_172.21.5.123.tar.gz'')),
     Shell ''mkdir /data/theTest'', Shell ''touch /data/testFile'',
     Call (Req_chmodFile (to16 P ''/data/testFile'') (to16 P ''744'')),
     Call (Req_chmodDir (to16 P ''/data/theTest'') (to16 P ''755'')),
     Clear, Cmd ''ls -l /data/testFile'',
     Clear, Cmd ''ls -l /data | grep theTest'',
     Call (Req_rmFile (to16 P ''/data/testFile'')), Shell ''rm -r /data/theTest'',
     Call (Req_killByProcessName (to16 P ''main_test''))]"

fun run_script :: "'w platform \<Rightarrow> 'w sys irjcore \<Rightarrow> cbuf \<Rightarrow> test_step list \<Rightarrow> ('w sys, response list) state" where
  "run_script P I res [] = State_Monad.return []"
| "run_script P I res (Call q # steps) = do {
     r \<leftarrow> perform I q;
     rs \<leftarrow> run_script P I res steps;
     State_Monad.return (r # rs) }"
| "run_script P I res (Cmd c # steps) = do {
     res' \<leftarrow> doCmd P (Some c) res;
     run_script P I (case res' of None \<Rightarrow> res | Some b \<Rightarrow> b) steps }"
| "run_script P I res (Clear # steps) = run_script P I (zeroed 1024) steps"
| "run_script P I res (Shell c # steps) = do {
     _ \<leftarrow> system P c;
     run_script P I res steps }"

text \<open>The service is looked up; without it the test ends.\<close>

definition test_main :: "'w platform \<Rightarrow> 'w sys irjcore option \<Rightarrow> ('w sys, int \<times> response list) state" where
  "test_main P binder =
     (case binder of
        None \<Rightarrow> State_Monad.return (- 1, [])
      | Some service \<Rightarrow> do {
          rs \<leftarrow> run_script P service (zeroed 1024) (test_script P);
          State_Monad.return (0, rs) })"

section \<open>Lemmas on the loop\<close>

lemma docmd_loop_fits:
  assumes "no_nul out" "length (cstr result) + length out < 1024" "length result = 1024"
  shows "cstr (docmd_loop out result) = cstr result @ out \<and> length (docmd_loop out result) = 1024"
  using assms
proof (induction out result rule: docmd_loop.induct)
  case (1 out result)
  show ?case
  proof (cases "fgets 1024 out")
    case None
    then have "out = []" by (simp add: fgets_None)
    with None 1 show ?thesis by (simp add: docmd_loop.simps)
  next
    case (Some cr)
    obtain c r where cr: "cr = (c, r)" by fastforce
    note get = Some [unfolded cr]
    have out: "out = c @ r" using fgets_SomeD(1) [OF get] .
    then have nn: "no_nul c" "no_nul r" using 1(2) by simp_all
    have small: "\<not> 1024 < length (cstr result)" using 1(3) by simp
    have len: "length (strcat result c) = 1024" using 1(3,4) out by (simp add: length_strcat)
    have "length (cstr (strcat result c)) + length r < 1024" using 1(3) out nn by simp
    from 1(1) [OF get refl small] nn(2) this len nn(1)
    have "cstr (docmd_loop r (strcat result c)) = cstr (strcat result c) @ r \<and> length (docmd_loop r (strcat result c)) = 1024"
      by simp
    moreover have "docmd_loop out result = docmd_loop r (strcat result c)"
      using get small nn(1) by (subst docmd_loop.simps) simp
    ultimately show ?thesis using out nn(1) by simp
  qed
qed

lemma docmd_loop_grows: "length result \<le> length (docmd_loop out result)"
proof (induction out result rule: docmd_loop.induct)
  case (1 out result)
  show ?case
  proof (cases "fgets 1024 out")
    case (Some cr)
    obtain c r where cr: "cr = (c, r)" by fastforce
    have "length result \<le> length (strcat result (cstr c))" by (simp add: length_strcat)
    with 1 [OF Some cr [symmetric]] Some cr show ?thesis by (subst docmd_loop.simps) auto
  qed (simp add: docmd_loop.simps)
qed

lemma docmd_loop_overruns:
  assumes "no_nul out" "1024 \<le> length (cstr result) + length out" "length result = 1024" "length (cstr result) < 1024"
  shows "1024 < length (docmd_loop out result)"
  using assms
proof (induction out result rule: docmd_loop.induct)
  case (1 out result)
  have "out \<noteq> []" using 1(3,5) by auto
  then obtain c r where get: "fgets 1024 out = Some (c, r)"
    using fgets_None [of 1024 out] by (cases "fgets 1024 out") auto
  have out: "out = c @ r" using fgets_SomeD(1) [OF get] .
  then have nn: "no_nul c" "no_nul r" using 1(2) by simp_all
  have small: "\<not> 1024 < length (cstr result)" using 1(5) by simp
  have step: "docmd_loop out result = docmd_loop r (strcat result c)"
    using get small nn(1) by (subst docmd_loop.simps) simp
  show ?case
  proof (cases "length (cstr result) + length c < 1024")
    case True
    then have len: "length (strcat result c) = 1024" using 1(4) by (simp add: length_strcat)
    from 1(1) [OF get refl small] nn len True 1(3) out show ?thesis unfolding step by simp
  next
    case False
    then have "1024 < length (strcat result c)" by (simp add: length_strcat)
    then show ?thesis unfolding step using docmd_loop_grows [of "strcat result c" r] by linarith
  qed
qed

section \<open>Properties\<close>

text \<open>
  \<open>doCmd\<close> gives the whole output of a command that prints fewer than 1024 bytes and stays in the array;
  output of 1024 bytes or more is written past its end, because the array is checked only once it is already too
  full; a null command kills the test before it is refused.
\<close>

lemma doCmd_overruns:
  assumes "length c \<le> 1023" "pf_popen P c (world s) = (Some out, w)" "no_nul out"
  shows "\<exists>buf s'. run_state (doCmd P (Some c) (zeroed 1024)) s = (Some buf, s') \<and>
    trace s' = trace s @ [EPopen c True, EPclose] \<and>
    overrun s' = (overrun s \<or> 1024 \<le> length out) \<and> (length out < 1024 \<longrightarrow> cstr buf = out) \<and>
    run_state (doCmd P None (zeroed 1024)) s = (None, s)"
proof -
  have "(1024 < length (docmd_loop out (zeroed 1024))) = (1024 \<le> length out)"
    using docmd_loop_fits [OF assms(3), of "zeroed 1024"] docmd_loop_overruns [OF assms(3), of "zeroed 1024"]
    by (cases "length out < 1024") simp_all
  then show ?thesis
    using assms docmd_loop_fits [OF assms(3), of "zeroed 1024"]
    by (auto simp: doCmd_def popen_def Let_def)
qed

lemma doCmd_overruns_witness:
  "\<exists>buf s'. run_state (doCmd (bench False 32) (Some ''ls'') (zeroed 1024)) (bench_state [(''ls'', replicate 1024 CHR ''x'')]) = (Some buf, s') \<and>
    trace s' = trace (bench_state [(''ls'', replicate 1024 CHR ''x'')]) @ [EPopen ''ls'' True, EPclose] \<and>
    overrun s' = (overrun (bench_state [(''ls'', replicate 1024 CHR ''x'')]) \<or> 1024 \<le> length (replicate 1024 CHR ''x'')) \<and>
    (length (replicate 1024 CHR ''x'') < 1024 \<longrightarrow> cstr buf = replicate 1024 CHR ''x'') \<and>
    run_state (doCmd (bench False 32) None (zeroed 1024)) (bench_state [(''ls'', replicate 1024 CHR ''x'')]) =
      (None, bench_state [(''ls'', replicate 1024 CHR ''x'')])"
  by (rule doCmd_overruns) (simp_all add: no_nul_def)

text \<open>
  Run through the proxy over a transport that delivers, the test does what it does on the service itself; without
  a service it answers \<open>-1\<close> and does nothing.  Its call of \<open>collectLogFiles_block\<close> is always refused without
  any effect, since the name it passes has no \<open>.zip\<close>: packing the logs is never tested.
\<close>

lemma test_through_proxy:
  assumes "parcel_laws ops pw pr" "delivers ops (serve P ops LeftToRight parent) transact"
    "c_str P (to16 P ''localhost_172.21.5.123'') = ''localhost_172.21.5.123''"
  shows "test_main P (Some (BpRjcoreService ops transact)) = test_main P (Some (RjcoreService P)) \<and>
    test_main P None = State_Monad.return (- 1, []) \<and>
    Call (Req_collectLogFiles_block (to16 P ''localhost_172.21.5.123'')) \<in> set (test_script P) \<and>
    perform (BpRjcoreService ops transact) (Req_collectLogFiles_block (to16 P ''localhost_172.21.5.123'')) =
      State_Monad.return (RBool False)"
proof -
  have eq: "BpRjcoreService ops transact = RjcoreService P"
    using proxy_is_interface [OF assms(1)] assms(2) unfolding serve_def by blast
  have "\<not> sublist ''.zip'' ''localhost_172.21.5.123''" by (simp add: sublist_code)
  then have "perform (RjcoreService P) (Req_collectLogFiles_block (to16 P ''localhost_172.21.5.123'')) =
      State_Monad.return (RBool False)"
    by (intro state_ext)
      (simp add: RjcoreService_def collectLogFiles_block_def respond_def assms(3) contains_sublist)
  then show ?thesis unfolding eq by (simp add: test_main_def test_script_def)
qed

lemma test_through_proxy_witness:
  "let P = bench False 32; t = local_transport list_ops (serve P list_ops LeftToRight unknown_code)
   in test_main P (Some (BpRjcoreService list_ops t)) = test_main P (Some (RjcoreService P)) \<and>
    test_main P None = State_Monad.return (- 1, []) \<and>
    Call (Req_collectLogFiles_block (to16 P ''localhost_172.21.5.123'')) \<in> set (test_script P) \<and>
    perform (BpRjcoreService list_ops t) (Req_collectLogFiles_block (to16 P ''localhost_172.21.5.123'')) =
      State_Monad.return (RBool False)"
  unfolding Let_def
  by (rule test_through_proxy [OF list_parcel_laws local_transport_delivers], rule bench_c_str) simp

end
