(* ===== verification/Spec2Isabelle.thy ===== *)
theory Spec2Isabelle
  imports ServerProps SigRace NetProps BandProps InfoProps FileProps DeviceProps
    CmdLoop PoolProps PoolLocks PoolBinder AdderProps LedStack LedInit SensorProps Cdata RjTest
begin

text \<open>
  The C and C++ of an Android system repository as HOL functions and step relations, with what
  makes it correct and what does not: the native service \<open>rjcoreservice\<close> of a set-top box
  (paths relative to \<open>src/framework/native_server/rjcoreservice/\<close>), and the layers from an
  application down to a driver that \<open>mokoid-stub\<close> shows on LEDs, a sensor and an adder (paths
  relative to \<open>src/mokoid-stub-comment/mokoid-stub/\<close>).

  \<^bold>\<open>The service of the box.\<close>  A privileged process (\<open>rjcoreserver\<close>) registers one object of class
  \<open>RjcoreService\<close> with the service manager and serves binder transactions from a pool of
  threads.  A client holds a proxy \<open>BpRjcoreService\<close>: each of its 37 calls writes the interface
  descriptor and its arguments into a parcel, sends a transaction code and reads the reply.  In
  the server \<open>BnRjcoreService::onTransact\<close> checks the descriptor, switches over the code, reads
  the arguments, calls the function of the object and writes its result.  The functions do
  their work by shell commands (\<open>popen\<close>, \<open>system\<close>), by Android properties, by a few
  files, and by two requests to the vendor sector of the flash driver.

  \<^bold>\<open>The state.\<close>  A function of the code is a value of type \<open>('w sys, 'a) state\<close>.  The record
  \<open>sys\<close> (\<open>Machine\<close>) holds the fields of the one service object (\<open>RjcoreService.h\<close>:
  \<open>mInit\<close>, \<open>mSerialNum\<close>, ...), the disposition of \<open>SIGCHLD\<close>, a flag that is set when an
  array is written past its end, the trace of the effects in the order they happen, and the
  rest of the world, of a type \<open>'w\<close> nothing is assumed about.  What is outside the
  repository (shell, libc calls, driver, properties, libutils conversions, libbinder parcels and
  transport) is an argument: the record \<open>platform\<close>, the record \<open>parcel_ops\<close> and the transport
  function.  It may answer anything at any time; the few laws a property needs (a parcel
  returns what was written, the driver returns the sector that was stored) are premises of that
  property, and its witness shows a machine that has them.

  \<^bold>\<open>The theories,\<close> in the order they build on each other.

  \<^item> \<open>Prelude\<close>: types, frames (\<open>keeps R m\<close>: every run of \<open>m\<close> respects \<open>R\<close>), the locales
    \<open>step_system\<close> (an inductive invariant), \<open>simulation\<close> (a refinement) and \<open>draining\<close> (workers that
    finish) for reachable states.
  \<^item> \<open>CLib\<close>, \<open>CFloat\<close>: the C library on arrays of characters and the binary
    floating point of the bandwidth check.
  \<^item> \<open>Machine\<close>: the state, the platform, the primitive effects, what is compared
    before and after an operation; \<open>CoreService\<close>: \<open>librjcoreservice/RjcoreService.cpp\<close>
    (construction, \<open>executeCmd\<close>, \<open>mySystem\<close>, \<open>readNand\<close>, \<open>init\<close>), with the locales
    \<open>command_frame\<close> and \<open>effect_frame\<close> every later component extends.
  \<^item> \<open>Application\<close>, \<open>Control\<close>, \<open>Network\<close>: the files \<open>RjcoreServiceApplication.cpp\<close>,
    \<open>RjcoreServiceControl.cpp\<close> and \<open>RjcoreServiceNetwork.cpp\<close> of \<open>librjcoreservice\<close>.
    \<open>ProductInfo\<close>, \<open>ProductFiles\<close>, \<open>ProductDevice\<close>: \<open>RjcoreServiceProduct.cpp\<close>
    (queries; files and logs; power, LEDs, resolution, restart).
  \<^item> \<open>Interface\<close>: \<open>include/IRjcoreService.h\<close>, the functions as a record of operations and the
    transaction codes.  \<open>Proxy\<close>, \<open>Stub\<close>: the two halves of \<open>librjcore/IRjcoreService.cpp\<close>.
    \<open>Binder\<close>: what the code relies on in \<open>libbinder\<close> as the locales \<open>parcels\<close> and \<open>delivery\<close>, proxy and
    stub over such a transport, the frame of a server (locale \<open>irjcore_frame\<close>), lists as parcels.  \<open>Marshal\<close>: both halves again as four functions, writing
    and reading a request, writing and reading an answer, and that reading undoes writing.  \<open>Service\<close>: the object, and its frames as
    interpretations.  \<open>Ledger\<close>: handles taken and given back.
  \<^item> \<open>SigRace\<close>: \<open>mySystem\<close> by itself, as a step relation for several threads.
    \<open>CmdLoop\<close>: the loop of \<open>executeCmd\<close> round by round.
  \<^item> \<open>Resume\<close>: programs that can be interrupted between two steps, and what running one at once
    makes of it.  \<open>Pool\<close>: the threads of the server (\<open>rjcoreserver/main_rjcoreserver.cpp\<close>), each with
    a call of its own, as a step relation, with calls that hold a mutex from their first step to
    their last.  \<open>PoolLaws\<close>: what holds of it whatever the calls are, as the locales \<open>monitor\<close>,
    \<open>pool_ledger\<close>, \<open>pool_mutex\<close> and \<open>pool_answer\<close>; \<open>monitor\<close> lets calls overlap that take no mutex
    and whose answer the machine cannot change.  \<open>PoolOps\<close>: the functions of the service as
    programs, each shown to be its function when nothing comes between its steps
    (\<open>uninterrupted_calls\<close>).  \<open>PoolKept\<close>: what their steps take, give back and keep, and the
    interpretations.  \<open>PoolAnswers\<close>: the answers the arguments and the
    board settle.  \<open>PoolLocks\<close>: the threads with the mutexes as the code has them, taken where a function makes
    its \<open>Autolock\<close> and given back by its destructor, the discipline of the bodies (locale \<open>lawful_calls\<close>),
    and that this pool refines \<open>Pool\<close> (\<open>locked\<close>).  \<open>PoolBinder\<close>: the same threads over codes and parcels, as the binder driver
    hands them out; a transaction alone is \<open>onTransact\<close> (\<open>bn_alone\<close>), and the pool of parcels refines the pool of
    requests and is refined by it (\<open>bn\<close> and \<open>sent\<close>, two instances of \<open>simulation\<close>).
  \<^item> \<open>Bench\<close>, \<open>CmdFacts\<close>: a concrete machine for the witnesses; the equations the callers
    of \<open>executeCmd\<close> share.
  \<^item> \<open>CoreProps\<close>, \<open>ServerProps\<close>, \<open>NetProps\<close>, \<open>BandProps\<close>, \<open>InfoProps\<close>, \<open>FileProps\<close>,
    \<open>DeviceProps\<close>, \<open>PoolProps\<close>, \<open>PoolLocks\<close>, \<open>PoolBinder\<close>: the properties.

  \<^bold>\<open>What is shown.\<close>  \<^emph>\<open>The server:\<close> a call of the proxy has the result and the effect of the call
  of the service, for all 37 functions, where the stub evaluates arguments from left to right;
  the opposite order, which C++ allows, exchanges them.  Transactions are dispatched by code
  and refused without the descriptor; fields never change after construction; pipes, files,
  descriptors and mutexes are given back on every path, directory streams are not.
  \<^emph>\<open>The core:\<close> \<open>executeCmd\<close> never writes past its array and yields the prefix of the output
  that fits; construction reads the serial number, type, version and id from the places of the
  sector they were written to, and only with a whole file; \<open>mySystem\<close> restores the signal
  disposition when calls do not overlap, and loses it when two do.  Packing the logs is an exact script that
  stops at the first step that fails.  \<^emph>\<open>Threads:\<close> calls under one
  mutex, with calls whose answer is settled among them, are served as if one after the other; no function touches
  the machine without the mutex it needs, and every one gives it back; whatever overlaps, what is taken is given back, no
  call waits for ever, and answers keep to what board and arguments settle, from the parcel the client writes
  to the reply it reads; what has no mutex, the
  signal disposition and the vendor sector, two calls can lose.  \<^emph>\<open>Components:\<close> the commands
  an operation runs, their order, and its result on every branch as a function of what the
  commands print, including the branches where code and intention differ (quoting, modes,
  rates, signs of characters, width of \<open>long\<close>).

  \<^bold>\<open>The layers of mokoid-stub.\<close>  A native method of a Java class either calls a native binder
  service (\<open>libledservice\<close>) or loads a hardware module itself (\<open>hw_get_module\<close>).  The module
  hands out a device structure with function pointers (\<open>hardware/modules\<close>,
  \<open>androint-moko365/androint-hal\<close>), whose functions open, read, write and control a character
  device, and the drivers of two such devices are in the repository
  (\<open>androint_mod_add/androint_module.c\<close>, \<open>cdata-module/cdata.c\<close>).  A process is the record \<open>proc\<close>
  (\<open>Hal\<close>) extended by its heap of devices, handles or contexts and by its global variables; an
  address is a position of the heap, a freed one is \<open>None\<close>; system calls are an argument
  (\<open>hal_platform\<close>) and leave a trace.  A function pointer is the name of a function.  A call that
  can follow a null or stale pointer has an optional result: \<open>None\<close> is a process that was killed.

  \<^item> \<open>Androint\<close>: the file operations of the adder driver and the loading of its module.
    \<open>AdderSteps\<close>: the driver with several threads inside, with any count, copies that fail and
    signals, as a step relation; a thread alone takes the steps of the function (\<open>alone_is_access\<close>); the abstract
    driver that serves one call at a time, and the simulation between them (an interpretation of
    \<open>simulation\<close> of \<open>Prelude\<close>).  \<open>AdderClients\<close>: the three native methods and the hardware module,
    what they rely on as the locale \<open>adder_files\<close>, and its interpretation on the driver.
    \<open>AdderProps\<close> has the clients once more as threads over the steps of the driver (\<open>client_step\<close>).
  \<^item> \<open>Hal\<close>: processes and system calls.  \<open>LedHal\<close>: \<open>led.h\<close>, \<open>led.cpp\<close>, \<open>led.omap3.c\<close>,
    \<open>led.dma6410xp.c\<close>.  \<open>LedService\<close>: \<open>libledservice\<close> and \<open>server\<close>.  \<open>LedJni\<close>: the native methods of
    \<open>frameworks/base\<close> and \<open>libmokoid\<close>, and their registration.  What service and native methods
    rely on is the locale \<open>led_driver\<close> (\<open>LedProps\<close>), interpreted on the modules.
    \<open>LedStack\<close>: the two ways from Java to a LED, end to end.  \<open>LedInit\<close>: \<open>led_init\<close> and
    \<open>getLedService\<close> in several threads, as a step relation: the test of the pointer, each round of the
    polling, the setting, and the assignment of the pointer to itself; a thread alone does what the
    functions do (\<open>alone_is_led_init\<close>).
  \<^item> \<open>Sensors\<close>: \<open>hardware/modules/sensors/sensors.cpp\<close>.  \<open>Cdata\<close>: the two versions of \<open>cdata.c\<close>
    with the tables they give the kernel, and the module of \<open>mod_test.c\<close>.
  \<^item> \<open>RjTest\<close>: the test program of the service of the box, as a client of its interface.
  \<^item> \<open>AdderProps\<close>, \<open>LedProps\<close>, \<open>LedJni\<close>, \<open>LedStack\<close>, \<open>LedInit\<close>, \<open>SensorProps\<close>, \<open>Cdata\<close>,
    \<open>RjTest\<close>: the properties.

  \<^emph>\<open>The adder:\<close> under any interleaving of threads the driver has the results of a sequential one, errors and
  interrupted calls included; its clients, who use two calls for one addition, can be given the sum of another or
  answer an uninitialised variable, but never the sum of a mixture of pairs.
  Loading the module succeeds as a whole or leaves nothing behind.  \<^emph>\<open>LEDs:\<close> a process that has
  made its service never follows a stale pointer; the \<open>dma6410xp\<close> module implements a bank of two
  lamps, the other two do not; through the native service nothing of it is reached; proxy, open, close and the answers to Java do less than their
  interfaces say; two threads that fetch the service at once can replace each other's pointer, also back and forth.
  \<^emph>\<open>Sensor:\<close> a reading is exact to \<open>2\<^sup>-\<^sup>2\<^sup>3\<close>, a session gives back what it took
  whenever the device opens.  \<^emph>\<open>Cdata:\<close> alone with the device a process can tell the two versions
  apart only by the time a read takes, which is computed.  \<^emph>\<open>Test:\<close> it does on the proxy what it does on the service.

  \<^bold>\<open>Bounds.\<close>  The loops of the code run over a finite text or a fixed count, so they are
  structural recursions, or recursions on the length of what is left (\<open>fill\<close>, \<open>docmd_loop\<close>); no
  definition takes fuel.  The one loop that may not end, waiting for a service to be published, is
  \<open>wait_service\<close>, a partial function with an optional result, and it is shown when it returns.  \<open>int\<close> is a
  \<open>32 word\<close>; \<open>unsigned long\<close> has \<open>long_bits\<close> bits.  The sizes of the arrays are those of the code
  (\<open>SIZE_1K\<close> and so on).  The sign of \<open>char\<close>, the width of \<open>long\<close> and the order of evaluation of
  arguments are arguments too, because the code depends on them and the language leaves them
  open.  An \<open>int\<close> of the adder is four bytes, the lowest first.

  \<^bold>\<open>What is not modelled.\<close>  Logging, since it changes nothing the code reads.  Memory beyond the
  arrays of a call: a run that overruns an array only has its flag set.  Timing: a step takes no
  time, and the interleavings modelled are those of the transactions of the service, of the adder
  driver, of its clients and of \<open>led_init\<close>; the functions of the LED service make one system call each, so
  that their interleavings are the orders of the calls.  On the threads of the server every function is one step per system
  call (the output of a command is read with the step that starts it); writes of two threads to one array do not
  arise, since every array is local to a call.  The \<open>long double\<close> of
  the storage size is a rational.  In \<open>cdata.c\<close> a sleep is its beginning, the ticks it is asked for, and its end.  \<open>hardware/modules/led/led2.c\<close> is a draft that does not compile and whose only
  function is empty.  The Java and AIDL sources are other languages; what their
  classes declare is used where a native method answers them.

  \<^bold>\<open>Completeness.\<close>  Every function of the C and C++ sources that compile is a definition here.  The
  lines no definition stands for are comments, logging, includes, declarations of classes whose members are
  modelled, constructors that only pass their argument on, empty destructors and code under \<open>#if 0\<close>.
\<close>

end
